theory Spec2Isabelle
  imports Complex_Main
begin

section \<open>Data model of \<^verbatim>\<open>PDBEnsemble\<close>\<close>

text \<open>
  A shallow embedding of \<^verbatim>\<open>src/prody/ensemble/pdbensemble.py\<close>.

  Numpy arrays are lists: a coordinate set of shape \<open>(n_atoms, 3)\<close> is a list of points,
  a stack of shape \<open>(n_csets, n_atoms, 3)\<close> a list of coordinate sets, a weight array of
  shape \<open>(n_csets, n_atoms, 1)\<close> a list of rows with one scalar per atom. Array entries
  are real numbers; rounding of machine floats is not part of the model, except in the
  section on \<^verbatim>\<open>getMSFs\<close>, where it is a parameter. Index arrays hold naturals
  (numpy's negative indices are not modelled). Every \<^verbatim>\<open>raise\<close> and every failing
  array access of the source is a value \<open>Inl error\<close>. Arrays are values everywhere but in
  the section on \<^verbatim>\<open>__getitem__\<close>, where they are objects in a store.
\<close>

type_synonym vec3 = "real \<times> real \<times> real"
type_synonym frame = "vec3 list"
type_synonym wrow = "real list"
type_synonym mat3 = "vec3 \<times> vec3 \<times> vec3"
type_synonym mat4 = "real list list"

datatype pyerror = TypeError | ValueError | IndexError | AttributeError | RuntimeError

text \<open>
  The labelled-sequence container \<^verbatim>\<open>MSA\<close> and the atom container \<^verbatim>\<open>Atomic\<close> are
  collaborators outside the source file. Only what \<^verbatim>\<open>PDBEnsemble\<close> reads of them is
  kept: an MSA is its rows with their labels and title, an atom container is the
  sequence its \<^verbatim>\<open>getSequence\<close> returns.
\<close>

record msa =
  msa_title :: string
  msa_labels :: "string list"
  msa_seqs :: "string list"

datatype atomic = Atomic (getSequence: string)

record ensemble =
  self_title :: string
  self_coords :: "frame option"
  self_confs :: "frame list option"
  self_weights :: "wrow list option"
  self_n_atoms :: nat
  self_n_csets :: nat
  self_indices :: "nat list option"
  self_labels :: "string list"
  self_trans :: "mat4 list option"
  self_msa :: "msa option"
  self_atoms :: "atomic option"

text \<open>
  Modelled from the spec: the accessors of the base class \<^verbatim>\<open>Ensemble\<close>, which is not
  among the source files. \<open>numAtoms\<close> is the fixed atom count, \<open>numSelected\<close> the size of
  the atom-subset selection (all atoms when there is none), \<open>numCoordsets\<close> and
  \<open>numConfs\<close> the frame count, \<open>isSelected\<close> whether a selection is active.
\<close>

definition numAtoms :: "ensemble \<Rightarrow> nat" where
  "numAtoms e = self_n_atoms e"

definition numSelected :: "ensemble \<Rightarrow> nat" where
  "numSelected e = (case self_indices e of None \<Rightarrow> self_n_atoms e | Some ix \<Rightarrow> length ix)"

definition numCoordsets :: "ensemble \<Rightarrow> nat" where
  "numCoordsets e = self_n_csets e"

definition numConfs :: "ensemble \<Rightarrow> nat" where
  "numConfs e = self_n_csets e"

definition isSelected :: "ensemble \<Rightarrow> bool" where
  "isSelected e = (self_indices e \<noteq> None)"

subsection \<open>Array access\<close>

text \<open>
  \<^verbatim>\<open>a[ix]\<close> for an index array \<open>ix\<close> along the first axis: numpy raises
  \<^verbatim>\<open>IndexError\<close> when an index is out of range, and returns a new array otherwise.
\<close>

definition take_idx :: "'a list \<Rightarrow> nat list \<Rightarrow> pyerror + 'a list" where
  "take_idx xs ix =
     (if list_all (\<lambda>i. i < length xs) ix then Inr (map (\<lambda>i. xs ! i) ix) else Inl IndexError)"

text \<open>\<^verbatim>\<open>a[:, ix]\<close>: the same selection in every row of a stack.\<close>

fun take_cols :: "'a list list \<Rightarrow> nat list \<Rightarrow> pyerror + 'a list list" where
  "take_cols [] ix = Inr []"
| "take_cols (r # rs) ix =
     (case take_idx r ix of
        Inl err \<Rightarrow> Inl err
      | Inr r' \<Rightarrow> (case take_cols rs ix of Inl err \<Rightarrow> Inl err | Inr rs' \<Rightarrow> Inr (r' # rs')))"

text \<open>\<^verbatim>\<open>a[i]\<close> for one integer \<open>i\<close>.\<close>

definition row_at :: "'a list \<Rightarrow> nat \<Rightarrow> pyerror + 'a" where
  "row_at xs i = (if i < length xs then Inr (xs ! i) else Inl IndexError)"

text \<open>\<^verbatim>\<open>a.shape[1]\<close> of a stack; an empty stack is modelled with an atom axis of 0.\<close>

definition shape1 :: "'a list list \<Rightarrow> nat" where
  "shape1 a = (case a of [] \<Rightarrow> 0 | r # _ \<Rightarrow> length r)"

section \<open>\<^verbatim>\<open>getRMSDs\<close>\<close>

text \<open>
  \<^verbatim>\<open>getRMSD\<close> of \<^verbatim>\<open>prody.measure\<close> is outside the source file and is a parameter:
  \<open>rmsd2\<close> is its use on two coordinate sets with an optional weight column, \<open>rmsdN\<close>
  its use on the reference and a stack.
\<close>

datatype rmsds = Matrix "real list list" | Vector "real list"

definition zeros2 :: "nat \<Rightarrow> nat \<Rightarrow> real list list" where
  "zeros2 m n = replicate m (replicate n 0)"

definition set2 :: "real list list \<Rightarrow> nat \<Rightarrow> nat \<Rightarrow> real \<Rightarrow> real list list" where
  "set2 M i j v = M[i := (M ! i)[j := v]]"

text \<open>The body of the inner loop: \<^verbatim>\<open>w = wi * wj\<close> and the call of \<^verbatim>\<open>getRMSD\<close>.\<close>

definition pair_rmsd ::
  "(frame \<Rightarrow> frame \<Rightarrow> wrow option \<Rightarrow> real) \<Rightarrow> frame list \<Rightarrow> nat list \<Rightarrow> wrow list option
     \<Rightarrow> nat \<Rightarrow> nat \<Rightarrow> pyerror + real" where
  "pair_rmsd rmsd2 confs ix weights i j =
     (case (case weights of
              None \<Rightarrow> Inr None
            | Some ws \<Rightarrow>
                (case row_at ws i of
                   Inl err \<Rightarrow> Inl err
                 | Inr wi \<Rightarrow>
                     (case row_at ws j of
                        Inl err \<Rightarrow> Inl err
                      | Inr wj \<Rightarrow> Inr (Some (map2 (*) wi wj))))) of
        Inl err \<Rightarrow> Inl err
      | Inr w \<Rightarrow>
          (case row_at confs i of
             Inl err \<Rightarrow> Inl err
           | Inr ci \<Rightarrow>
               (case take_idx ci ix of
                  Inl err \<Rightarrow> Inl err
                | Inr ci' \<Rightarrow>
                    (case row_at confs j of
                       Inl err \<Rightarrow> Inl err
                     | Inr cj \<Rightarrow>
                         (case take_idx cj ix of
                            Inl err \<Rightarrow> Inl err
                          | Inr cj' \<Rightarrow> Inr (rmsd2 ci' cj' w))))))"

text \<open>\<^verbatim>\<open>for j in range(i+1, n_confs): RMSDs[i, j] = RMSDs[j, i] = getRMSD(...)\<close>\<close>

fun loop_j ::
  "(nat \<Rightarrow> nat \<Rightarrow> pyerror + real) \<Rightarrow> nat \<Rightarrow> nat list \<Rightarrow> real list list
     \<Rightarrow> pyerror + real list list" where
  "loop_j entry i [] M = Inr M"
| "loop_j entry i (j # js) M =
     (case entry i j of
        Inl err \<Rightarrow> Inl err
      | Inr v \<Rightarrow> loop_j entry i js (set2 (set2 M i j v) j i v))"

text \<open>\<^verbatim>\<open>for i in range(n_confs): ...\<close>\<close>

fun loop_i ::
  "(nat \<Rightarrow> nat \<Rightarrow> pyerror + real) \<Rightarrow> nat \<Rightarrow> nat list \<Rightarrow> real list list
     \<Rightarrow> pyerror + real list list" where
  "loop_i entry n [] M = Inr M"
| "loop_i entry n (i # is) M =
     (case loop_j entry i [Suc i..<n] M of
        Inl err \<Rightarrow> Inl err
      | Inr M' \<Rightarrow> loop_i entry n is M')"

definition getRMSDs ::
  "(frame \<Rightarrow> frame \<Rightarrow> wrow option \<Rightarrow> real)
     \<Rightarrow> (frame \<Rightarrow> frame list \<Rightarrow> wrow list option \<Rightarrow> real list)
     \<Rightarrow> ensemble \<Rightarrow> bool \<Rightarrow> pyerror + rmsds option" where
  "getRMSDs rmsd2 rmsdN e pw =
     (case self_confs e of
        None \<Rightarrow> Inr None
      | Some confs \<Rightarrow>
          (case self_coords e of
             None \<Rightarrow> Inr None
           | Some coords \<Rightarrow>
               (let ix = (case self_indices e of None \<Rightarrow> [0..<shape1 confs] | Some ix \<Rightarrow> ix) in
                case (case self_weights e of
                        None \<Rightarrow> Inr None
                      | Some ws \<Rightarrow>
                          (case take_cols ws ix of Inl err \<Rightarrow> Inl err | Inr ws' \<Rightarrow> Inr (Some ws'))) of
                  Inl err \<Rightarrow> Inl err
                | Inr weights \<Rightarrow>
                    if pw then
                      (let n_confs = numConfs e in
                       case loop_i (pair_rmsd rmsd2 confs ix weights) n_confs [0..<n_confs]
                              (zeros2 n_confs n_confs) of
                         Inl err \<Rightarrow> Inl err
                       | Inr M \<Rightarrow> Inr (Some (Matrix M)))
                    else
                      (case take_idx coords ix of
                         Inl err \<Rightarrow> Inl err
                       | Inr coords' \<Rightarrow>
                           (case take_cols confs ix of
                              Inl err \<Rightarrow> Inl err
                            | Inr confs' \<Rightarrow> Inr (Some (Vector (rmsdN coords' confs' weights))))))))"

section \<open>\<^verbatim>\<open>_superpose\<close>\<close>

text \<open>
  \<^verbatim>\<open>getTransformation\<close> of \<^verbatim>\<open>prody.measure\<close> is outside the source file and is the
  parameter \<open>calcT\<close>: from a coordinate set, the reference and a weight column it
  returns a rotation matrix (three rows) and a translation vector.

  A transformation is a \<open>4 \<times> 4\<close> array. \<^verbatim>\<open>trans[i][:3, :3] = rmat\<close> and
  \<^verbatim>\<open>trans[i][:3, 3] = tvec\<close> are \<open>set_rmat\<close> and \<open>set_tvec\<close>.
\<close>

definition zeros44 :: mat4 where
  "zeros44 = replicate 4 (replicate 4 0)"

definition put3 :: "real list \<Rightarrow> vec3 \<Rightarrow> real list" where
  "put3 row v = (case v of (x, y, z) \<Rightarrow> row[0 := x, 1 := y, 2 := z])"

definition set_rmat :: "mat4 \<Rightarrow> mat3 \<Rightarrow> mat4" where
  "set_rmat m R =
     (case R of (r0, r1, r2) \<Rightarrow> m[0 := put3 (m ! 0) r0, 1 := put3 (m ! 1) r1, 2 := put3 (m ! 2) r2])"

definition set_tvec :: "mat4 \<Rightarrow> vec3 \<Rightarrow> mat4" where
  "set_tvec m t =
     (case t of (x, y, z) \<Rightarrow> m[0 := (m ! 0)[3 := x], 1 := (m ! 1)[3 := y], 2 := (m ! 2)[3 := z]])"

text \<open>\<^verbatim>\<open>tvec + np.dot(confs[i], rmat.T)\<close> on one point.\<close>

definition dot3 :: "vec3 \<Rightarrow> vec3 \<Rightarrow> real" where
  "dot3 a b = (case a of (a0, a1, a2) \<Rightarrow> case b of (b0, b1, b2) \<Rightarrow> a0 * b0 + a1 * b1 + a2 * b2)"

definition move_point :: "mat3 \<Rightarrow> vec3 \<Rightarrow> vec3 \<Rightarrow> vec3" where
  "move_point R t p =
     (case R of (r0, r1, r2) \<Rightarrow> case t of (x, y, z) \<Rightarrow>
        (x + dot3 p r0, y + dot3 p r1, z + dot3 p r2))"

text \<open>
  The loop \<^verbatim>\<open>for i, conf in enumerate(confs_selected)\<close>. It updates \<^verbatim>\<open>confs\<close> in
  place, so an exception leaves the frames superposed so far: the error comes with the
  frames as they are at the raise. \<^verbatim>\<open>weights[i]\<close> fails on a missing weight array or
  row; a missing reference makes the external \<^verbatim>\<open>calcT\<close> fail.
\<close>

fun superpose_loop ::
  "(frame \<Rightarrow> frame \<Rightarrow> wrow \<Rightarrow> mat3 \<times> vec3) \<Rightarrow> frame option \<Rightarrow> wrow list option
     \<Rightarrow> frame list \<Rightarrow> nat \<Rightarrow> frame list \<Rightarrow> mat4 list option
     \<Rightarrow> pyerror \<times> frame list + frame list \<times> mat4 list option" where
  "superpose_loop calcT coords weights [] i confs tmats = Inr (confs, tmats)"
| "superpose_loop calcT coords weights (conf # rest) i confs tmats =
     (case weights of
        None \<Rightarrow> Inl (TypeError, confs)
      | Some ws \<Rightarrow>
          (case row_at ws i of
             Inl err \<Rightarrow> Inl (err, confs)
           | Inr w \<Rightarrow>
               (case coords of
                  None \<Rightarrow> Inl (TypeError, confs)
                | Some ref \<Rightarrow>
                    (case calcT conf ref w of
                       (rmat, tvec) \<Rightarrow>
                         (case (case tmats of
                                  None \<Rightarrow> Inr None
                                | Some ts \<Rightarrow>
                                    if i < length ts
                                    then Inr (Some (ts[i := set_tvec (set_rmat (ts ! i) rmat) tvec]))
                                    else Inl IndexError) of
                            Inl err \<Rightarrow> Inl (err, confs)
                          | Inr tmats' \<Rightarrow>
                              superpose_loop calcT coords weights rest (Suc i)
                                (confs[i := map (move_point rmat tvec) (confs ! i)]) tmats')))))"

text \<open>
  The arrays the loop works on: \<^verbatim>\<open>weights\<close>, \<^verbatim>\<open>coords\<close> and \<^verbatim>\<open>confs_selected\<close>, as they
  are when there is no selection, restricted to the selected atoms when there is one
  (indexing a missing array raises \<^verbatim>\<open>TypeError\<close>).
\<close>

definition selected_arrays ::
  "ensemble \<Rightarrow> pyerror + wrow list option \<times> frame option \<times> frame list option" where
  "selected_arrays e =
     (case self_indices e of
        None \<Rightarrow> Inr (self_weights e, self_coords e, self_confs e)
      | Some ix \<Rightarrow>
          (case self_weights e of
             None \<Rightarrow> Inl TypeError
           | Some ws \<Rightarrow>
               (case take_cols ws ix of
                  Inl err \<Rightarrow> Inl err
                | Inr ws' \<Rightarrow>
                    (case self_coords e of
                       None \<Rightarrow> Inl TypeError
                     | Some ref \<Rightarrow>
                         (case take_idx ref ix of
                            Inl err \<Rightarrow> Inl err
                          | Inr ref' \<Rightarrow>
                              (case self_confs e of
                                 None \<Rightarrow> Inl TypeError
                               | Some cs \<Rightarrow>
                                   (case take_cols cs ix of
                                      Inl err \<Rightarrow> Inl err
                                    | Inr cs' \<Rightarrow> Inr (Some ws', Some ref', Some cs'))))))))"

text \<open>
  \<^verbatim>\<open>_superpose(trans=tr)\<close>. \<^verbatim>\<open>self._trans = trans\<close> is the last statement, so an
  exception leaves the old history in place.
\<close>

definition superpose_impl ::
  "(frame \<Rightarrow> frame \<Rightarrow> wrow \<Rightarrow> mat3 \<times> vec3) \<Rightarrow> bool \<Rightarrow> ensemble
     \<Rightarrow> pyerror \<times> ensemble + ensemble" where
  "superpose_impl calcT tr e =
     (let tmats = (if tr then Some (replicate (self_n_csets e) zeros44) else None) in
      case selected_arrays e of
        Inl err \<Rightarrow> Inl (err, e)
      | Inr (weights, coords, confs_selected) \<Rightarrow>
          (case confs_selected of
             None \<Rightarrow> Inl (TypeError, e)
           | Some sel \<Rightarrow>
               (case self_confs e of
                  None \<Rightarrow> Inl (TypeError, e)
                | Some confs \<Rightarrow>
                    (case superpose_loop calcT coords weights sel 0 confs tmats of
                       Inl (err, confs') \<Rightarrow> Inl (err, e\<lparr>self_confs := Some confs'\<rparr>)
                     | Inr (confs', tmats') \<Rightarrow>
                         Inr (e\<lparr>self_confs := Some confs', self_trans := tmats'\<rparr>)))))"

section \<open>\<^verbatim>\<open>getCoordsets\<close>\<close>

text \<open>
  The argument \<^verbatim>\<open>indices\<close> is \<open>None\<close> (the source then uses \<^verbatim>\<open>slice(None)\<close>) or a list of
  frame indices (\<^verbatim>\<open>np.array([indices]).flatten()\<close>; one integer is a list of one).

  \<^verbatim>\<open>a[indices]\<close> along the frame axis:
\<close>

fun frames_at :: "'a list \<Rightarrow> nat list option \<Rightarrow> pyerror + 'a list" where
  "frames_at xs None = Inr xs"
| "frames_at xs (Some idx) = take_idx xs idx"

text \<open>
  \<^verbatim>\<open>conf[which] = ref[which]\<close> for a boolean array \<open>which\<close>: numpy raises
  \<^verbatim>\<open>IndexError\<close> unless the boolean array is as long as the axis it indexes.
\<close>

definition put_masked :: "frame \<Rightarrow> bool list \<Rightarrow> frame \<Rightarrow> pyerror + frame" where
  "put_masked conf which ref =
     (if length which = length ref \<and> length which = length conf
      then Inr (map (\<lambda>(c, b, r). if b then r else c) (zip conf (zip which ref)))
      else Inl IndexError)"

text \<open>\<^verbatim>\<open>w.flatten() == 0\<close> and \<^verbatim>\<open>w[selids].flatten() == 0\<close>.\<close>

definition mask_all :: "wrow \<Rightarrow> pyerror + bool list" where
  "mask_all w = Inr (map (\<lambda>x. x = 0) w)"

definition mask_sel :: "nat list \<Rightarrow> wrow \<Rightarrow> pyerror + bool list" where
  "mask_sel selids w =
     (case take_idx w selids of Inl err \<Rightarrow> Inl err | Inr w' \<Rightarrow> Inr (map (\<lambda>x. x = 0) w'))"

text \<open>
  \<^verbatim>\<open>for i, w in enumerate(self._weights[indices]): which = ...; confs[i, which] = coords[which]\<close>
  on a stack \<^verbatim>\<open>confs\<close>.
\<close>

fun subst_loop ::
  "(wrow \<Rightarrow> pyerror + bool list) \<Rightarrow> frame option \<Rightarrow> wrow list \<Rightarrow> nat \<Rightarrow> frame list
     \<Rightarrow> pyerror + frame list" where
  "subst_loop maskf coords [] i confs = Inr confs"
| "subst_loop maskf coords (w # ws) i confs =
     (case maskf w of
        Inl err \<Rightarrow> Inl err
      | Inr which \<Rightarrow>
          (case coords of
             None \<Rightarrow> Inl TypeError
           | Some ref \<Rightarrow>
               (case row_at confs i of
                  Inl err \<Rightarrow> Inl err
                | Inr conf \<Rightarrow>
                    (case put_masked conf which ref of
                       Inl err \<Rightarrow> Inl err
                     | Inr conf' \<Rightarrow> subst_loop maskf coords ws (Suc i) (confs[i := conf'])))))"

text \<open>
  \<^verbatim>\<open>self._confs[indices, selids]\<close> with two index arrays: numpy broadcasts the two arrays
  against each other and pairs them, so the result has shape \<open>(b, 3)\<close>, one point per
  pair (frame, atom), not one coordinate set per frame. Arrays of lengths \<open>k\<close> and \<open>m\<close>
  broadcast when \<open>k = m\<close>, \<open>k = 1\<close> or \<open>m = 1\<close>; otherwise \<^verbatim>\<open>IndexError\<close>.
\<close>

definition bcast :: "nat \<Rightarrow> 'a list \<Rightarrow> 'a list" where
  "bcast b xs = (if length xs = b then xs else replicate b (hd xs))"

definition pair_idx :: "frame list \<Rightarrow> nat list \<Rightarrow> nat list \<Rightarrow> pyerror + frame" where
  "pair_idx confs idx selids =
     (let k = length idx; m = length selids in
      if \<not> (k = m \<or> k = 1 \<or> m = 1) then Inl IndexError
      else if \<not> (list_all (\<lambda>f. f < length confs) idx \<and> list_all (\<lambda>a. a < shape1 confs) selids)
      then Inl IndexError
      else (let b = (if k = 1 then m else k) in
            Inr (map (\<lambda>(f, a). confs ! f ! a) (zip (bcast b idx) (bcast b selids)))))"

text \<open>
  The loop on that two-dimensional result. \<^verbatim>\<open>confs[i, which]\<close> now indexes a point's
  three components with the boolean array: \<^verbatim>\<open>IndexError\<close> unless row \<open>i\<close> exists and
  \<open>which\<close> has length 3, and then the value \<^verbatim>\<open>coords[which]\<close> of shape \<open>(c, 3)\<close> does not
  fit the \<open>c\<close> indexed components: \<^verbatim>\<open>ValueError\<close>. So the first iteration raises.
\<close>

definition flat_loop :: "nat list \<Rightarrow> wrow list \<Rightarrow> frame \<Rightarrow> pyerror + frame" where
  "flat_loop selids wrows flat =
     (case wrows of
        [] \<Rightarrow> Inr flat
      | w # _ \<Rightarrow>
          (case mask_sel selids w of
             Inl err \<Rightarrow> Inl err
           | Inr which \<Rightarrow> if flat = [] \<or> length which \<noteq> 3 then Inl IndexError else Inl ValueError))"

datatype coordsets = Stack "frame list" | Flat frame

definition getCoordsets :: "ensemble \<Rightarrow> nat list option \<Rightarrow> bool \<Rightarrow> pyerror + coordsets option" where
  "getCoordsets e indices selected =
     (case self_confs e of
        None \<Rightarrow> Inr None
      | Some all_confs \<Rightarrow>
          if self_indices e = None \<or> \<not> selected then
            (case frames_at all_confs indices of
               Inl err \<Rightarrow> Inl err
             | Inr confs \<Rightarrow>
                 (case self_weights e of
                    None \<Rightarrow> Inl TypeError
                  | Some ws \<Rightarrow>
                      (case frames_at ws indices of
                         Inl err \<Rightarrow> Inl err
                       | Inr wrows \<Rightarrow>
                           (case subst_loop mask_all (self_coords e) wrows 0 confs of
                              Inl err \<Rightarrow> Inl err
                            | Inr confs' \<Rightarrow> Inr (Some (Stack confs'))))))
          else
            (case self_indices e of
               None \<Rightarrow> Inl TypeError
             | Some selids \<Rightarrow>
                 (case self_coords e of
                    None \<Rightarrow> Inl TypeError
                  | Some ref \<Rightarrow>
                      (case take_idx ref selids of
                         Inl err \<Rightarrow> Inl err
                       | Inr coords \<Rightarrow>
                           (case indices of
                              None \<Rightarrow>
                                (case take_cols all_confs selids of
                                   Inl err \<Rightarrow> Inl err
                                 | Inr confs \<Rightarrow>
                                     (case self_weights e of
                                        None \<Rightarrow> Inl TypeError
                                      | Some ws \<Rightarrow>
                                          (case subst_loop (mask_sel selids) (Some coords) ws 0 confs of
                                             Inl err \<Rightarrow> Inl err
                                           | Inr confs' \<Rightarrow> Inr (Some (Stack confs')))))
                            | Some idx \<Rightarrow>
                                (case pair_idx all_confs idx selids of
                                   Inl err \<Rightarrow> Inl err
                                 | Inr flat \<Rightarrow>
                                     (case self_weights e of
                                        None \<Rightarrow> Inl TypeError
                                      | Some ws \<Rightarrow>
                                          (case take_idx ws idx of
                                             Inl err \<Rightarrow> Inl err
                                           | Inr wrows \<Rightarrow>
                                               (case flat_loop selids wrows flat of
                                                  Inl err \<Rightarrow> Inl err
                                                | Inr flat' \<Rightarrow> Inr (Some (Flat flat')))))))))))"

section \<open>\<^verbatim>\<open>addCoordset\<close>\<close>

text \<open>
  The arguments. \<^verbatim>\<open>coords\<close> is \<^verbatim>\<open>None\<close>, an array of shape \<open>(n, 3)\<close> or a stack of shape
  \<open>(k, n, 3)\<close>; \<open>Stack3 n fs\<close> carries the atom axis \<open>n\<close>, which an empty list of frames
  would not show. Objects with \<^verbatim>\<open>getCoordsets\<close> (other ensembles, atom groups) are resolved
  to such arrays by code outside the source file and are not modelled.
  \<^verbatim>\<open>weights\<close> is \<^verbatim>\<open>None\<close> or an array of shape \<open>(k, n, 1)\<close>. \<^verbatim>\<open>label\<close> is \<^verbatim>\<open>None\<close>, a
  string or a list of strings. The keyword \<^verbatim>\<open>sequence\<close> is \<^verbatim>\<open>None\<close>, a string, a
  \<^verbatim>\<open>Sequence\<close> object (kept as its string) or an \<^verbatim>\<open>MSA\<close>.
\<close>

datatype coords_arg = NoCoords | Frame2 frame | Stack3 nat "frame list"

datatype label_arg = LNone | LStr string | LList "string list"

datatype seq_arg = SNone | SStr string | SSequence string | SMSA msa

text \<open>
  \<^verbatim>\<open>label or 'Unknown'\<close>: \<^verbatim>\<open>None\<close>, the empty string and the empty list are falsy. The
  result is a string (\<open>Inl\<close>) or a non-empty list of strings (\<open>Inr\<close>).
\<close>

definition label_or_unknown :: "label_arg \<Rightarrow> string + string list" where
  "label_or_unknown label =
     (case label of
        LNone \<Rightarrow> Inl ''Unknown''
      | LStr s \<Rightarrow> if s = [] then Inl ''Unknown'' else Inl s
      | LList ls \<Rightarrow> if ls = [] then Inl ''Unknown'' else Inr ls)"

text \<open>
  Modelled from the spec: \<^verbatim>\<open>checkCoords(coords, csets=True, natoms=n)\<close> of
  \<^verbatim>\<open>prody.utilities\<close>, which is not among the source files. The coordinate shape must
  agree with the atom count \<open>n\<close>; an ensemble with no fixed atom count yet (\<open>n = 0\<close>)
  accepts every shape, since the atom count is then fixed from the call's frame shape.
\<close>

definition checkCoords :: "nat \<Rightarrow> nat \<Rightarrow> bool" where
  "checkCoords n_nodes natoms = (natoms = 0 \<or> n_nodes = natoms)"

text \<open>
  Modelled from the spec: \<^verbatim>\<open>checkWeights(weights, natoms, ncsets)\<close> of
  \<^verbatim>\<open>prody.utilities\<close>, which is not among the source files. The weights must have the
  atom count of the ensemble, one row per frame, and values \<open>\<ge> 0\<close>; they are returned
  as they are.
\<close>

definition checkWeights :: "wrow list \<Rightarrow> nat \<Rightarrow> nat \<Rightarrow> pyerror + wrow list" where
  "checkWeights ws natoms ncsets =
     (if length ws = ncsets \<and> list_all (\<lambda>w. length w = natoms \<and> list_all (\<lambda>x. 0 \<le> x) w) ws
      then Inr ws else Inl ValueError)"

text \<open>
  \<^verbatim>\<open>full_coords[:, self._indices, :] = coords\<close> on one frame: the values are written at
  the indices in order, so a repeated index keeps the last value.
\<close>

fun scatter :: "frame \<Rightarrow> nat list \<Rightarrow> frame \<Rightarrow> frame" where
  "scatter buf [] vals = buf"
| "scatter buf (i # ix) [] = buf"
| "scatter buf (i # ix) (v # vals) = scatter (buf[i := v]) ix vals"

text \<open>
  \<^verbatim>\<open>np.repeat(self._coords[np.newaxis, :, :], n_csets, axis=0)\<close> followed by the
  assignment above. The right-hand side has \<open>n_csets\<close> frames, or a single frame that
  numpy broadcasts over all \<open>n_csets\<close> rows of the buffer (the degenerate case, after
  \<^verbatim>\<open>coords = coords[:1]\<close>).
\<close>

definition scatter_all :: "frame option \<Rightarrow> nat list \<Rightarrow> nat \<Rightarrow> frame list \<Rightarrow> pyerror + frame list" where
  "scatter_all coords ix n_csets fs =
     (case coords of
        None \<Rightarrow> Inl TypeError
      | Some ref \<Rightarrow>
          if \<not> list_all (\<lambda>i. i < length ref) ix then Inl IndexError
          else if length fs = n_csets then Inr (map (scatter ref ix) fs)
          else if length fs = 1 then Inr (replicate n_csets (scatter ref ix (hd fs)))
          else Inl ValueError)"

text \<open>
  \<^verbatim>\<open>np.concatenate((a, b), axis=0)\<close>: the other axes must agree. The atom axis of an
  empty stack is not visible in a list and is taken to agree.
\<close>

definition concatenate :: "'a list list \<Rightarrow> 'a list list \<Rightarrow> pyerror + 'a list list" where
  "concatenate a b =
     (if a = [] \<or> b = [] \<or> shape1 a = shape1 b then Inr (a @ b) else Inl ValueError)"

text \<open>
  Modelled from the spec: the \<^verbatim>\<open>MSA\<close> collaborator. \<open>MSA_new\<close> constructs a collection from
  rows, a title and labels; \<open>MSA_extend\<close> appends the rows and labels of another one; a
  collection is truthy when it exists.
\<close>

definition MSA_new :: "string list \<Rightarrow> string \<Rightarrow> string list \<Rightarrow> msa" where
  "MSA_new seqs title labels = \<lparr>msa_title = title, msa_labels = labels, msa_seqs = seqs\<rparr>"

definition MSA_extend :: "msa \<Rightarrow> msa \<Rightarrow> msa" where
  "MSA_extend m other =
     m\<lparr>msa_labels := msa_labels m @ msa_labels other, msa_seqs := msa_seqs m @ msa_seqs other\<rparr>"

text \<open>The section \<^verbatim>\<open># check sequences\<close> for an array argument: the list \<^verbatim>\<open>seqs\<close> or \<^verbatim>\<open>None\<close>.\<close>

definition resolve_seqs :: "ensemble \<Rightarrow> seq_arg \<Rightarrow> nat \<Rightarrow> nat \<Rightarrow> string list option" where
  "resolve_seqs e sequence n_atoms n_repeats =
     (let sequence' =
        (case sequence of
           SNone \<Rightarrow>
             (case self_atoms e of
                Some a \<Rightarrow> SStr (getSequence a)
              | None \<Rightarrow> if self_msa e \<noteq> None then SStr (replicate n_atoms CHR ''X'') else SNone)
         | s \<Rightarrow> s)
      in case sequence' of
           SSequence s \<Rightarrow> Some [s]
         | SMSA m \<Rightarrow> Some (msa_seqs m)
         | SStr s \<Rightarrow> Some (replicate n_repeats s)
         | SNone \<Rightarrow> None)"

text \<open>\<^verbatim>\<open>str(n)\<close> for a natural number.\<close>

function string_of_nat :: "nat \<Rightarrow> string" where
  "string_of_nat n =
     (if n < 10 then [char_of (48 + n)]
      else string_of_nat (n div 10) @ [char_of (48 + n mod 10)])"
  by pat_completeness auto
termination
  by (relation "measure (\<lambda>n. n)") auto

text \<open>
  The section \<^verbatim>\<open># update labels\<close> up to the list \<^verbatim>\<open>labels\<close>: for several frames that are
  not degenerate, a string is numbered \<^verbatim>\<open>'{0}_m{1}'.format(label, i+1)\<close> and a list must
  have one entry per frame; otherwise \<^verbatim>\<open>[label] if np.isscalar(label) else label\<close>.
\<close>

definition make_labels :: "string + string list \<Rightarrow> nat \<Rightarrow> bool \<Rightarrow> pyerror + string list" where
  "make_labels label n_csets degeneracy =
     (if n_csets > 1 \<and> \<not> degeneracy then
        (case label of
           Inl s \<Rightarrow> Inr (map (\<lambda>i. s @ ''_m'' @ string_of_nat (i + 1)) [0..<n_csets])
         | Inr ls \<Rightarrow> if length ls \<noteq> n_csets then Inl ValueError else Inr ls)
      else
        (case label of
           Inl s \<Rightarrow> Inr [s]
         | Inr ls \<Rightarrow> Inr ls))"

text \<open>
  The section \<^verbatim>\<open># update sequences\<close>, run after \<^verbatim>\<open>self._labels.extend(labels)\<close>.
  \<^verbatim>\<open>[self._labels[i] for i in range(n_confs)]\<close> fails when there are fewer labels than
  frames.
\<close>

definition update_msa ::
  "ensemble \<Rightarrow> string list option \<Rightarrow> string list \<Rightarrow> nat \<Rightarrow> nat \<Rightarrow> pyerror \<times> ensemble + ensemble" where
  "update_msa e seqs labels n_confs n_atoms =
     (case seqs of
        None \<Rightarrow> Inr e
      | Some ss \<Rightarrow>
          if ss = [] then Inr e
          else
            (let new = MSA_new ss (self_title e) labels in
             case self_msa e of
               Some m \<Rightarrow> Inr (e\<lparr>self_msa := Some (MSA_extend m new)\<rparr>)
             | None \<Rightarrow>
                 if n_confs > 0 then
                   (if n_confs \<le> length (self_labels e)
                    then Inr (e\<lparr>self_msa := Some (MSA_extend
                                (MSA_new (replicate n_confs (replicate n_atoms CHR ''X''))
                                   (self_title e) (take n_confs (self_labels e)))
                                new)\<rparr>)
                    else Inl (IndexError, e))
                 else Inr (e\<lparr>self_msa := Some new\<rparr>)))"

text \<open>The section \<^verbatim>\<open># update coordinates\<close>.\<close>

definition update_coordinates ::
  "ensemble \<Rightarrow> frame list \<Rightarrow> wrow list \<Rightarrow> nat \<Rightarrow> pyerror \<times> ensemble + ensemble" where
  "update_coordinates e coords weights n_repeats =
     (case (self_confs e, self_weights e) of
        (None, None) \<Rightarrow>
          Inr (e\<lparr>self_confs := Some coords, self_weights := Some weights, self_n_csets := n_repeats\<rparr>)
      | (Some cs, Some ws) \<Rightarrow>
          (case concatenate cs coords of
             Inl err \<Rightarrow> Inl (err, e)
           | Inr cs' \<Rightarrow>
               (case concatenate ws weights of
                  Inl err \<Rightarrow> Inl (err, e\<lparr>self_confs := Some cs'\<rparr>)
                | Inr ws' \<Rightarrow>
                    Inr (e\<lparr>self_confs := Some cs', self_weights := Some ws',
                           self_n_csets := self_n_csets e + n_repeats\<rparr>)))
      | _ \<Rightarrow> Inl (RuntimeError, e))"

text \<open>
  \<^verbatim>\<open>addCoordset(coords, weights, label, degeneracy=..., sequence=...)\<close>. An error comes
  with the ensemble as it is at the raise.
\<close>

definition addCoordset ::
  "ensemble \<Rightarrow> coords_arg \<Rightarrow> wrow list option \<Rightarrow> label_arg \<Rightarrow> bool \<Rightarrow> seq_arg
     \<Rightarrow> pyerror \<times> ensemble + ensemble" where
  "addCoordset e coords weights label degeneracy sequence =
     (let n_atoms = numAtoms e; n_select = numSelected e; n_confs = numCoordsets e in
      case (case coords of
              NoCoords \<Rightarrow> None
            | Frame2 f \<Rightarrow> Some (length f, 1, [f])
            | Stack3 n fs \<Rightarrow> Some (n, length fs, if degeneracy then take 1 fs else fs)) of
        None \<Rightarrow> Inl (ValueError, e)
      | Some (n_nodes, n_csets, fs) \<Rightarrow>
          (let label' = label_or_unknown label in
           if \<not> checkCoords n_nodes n_atoms \<and> \<not> checkCoords n_nodes n_select
           then Inl (ValueError, e)
           else
             (let n_repeats = (if degeneracy then 1 else n_csets);
                  e1 = (if n_atoms = 0 then e\<lparr>self_n_atoms := n_nodes\<rparr> else e) in
              case (case self_indices e1 of
                      Some ix \<Rightarrow>
                        if n_nodes = n_select then scatter_all (self_coords e1) ix n_csets fs
                        else Inr fs
                    | None \<Rightarrow> Inr fs) of
                Inl err \<Rightarrow> Inl (err, e1)
              | Inr coords' \<Rightarrow>
                  (case (case weights of
                           None \<Rightarrow> Inr (replicate n_csets (replicate n_atoms 1))
                         | Some ws \<Rightarrow> checkWeights ws n_atoms n_csets) of
                     Inl err \<Rightarrow> Inl (err, e1)
                   | Inr weights0 \<Rightarrow>
                       (let weights' = (if degeneracy then take 1 weights0 else weights0);
                            seqs = resolve_seqs e1 sequence n_atoms n_repeats in
                        if (case seqs of None \<Rightarrow> False | Some ss \<Rightarrow> ss \<noteq> [] \<and> length ss \<noteq> n_repeats)
                        then Inl (ValueError, e1)
                        else
                          (case make_labels label' n_csets degeneracy of
                             Inl err \<Rightarrow> Inl (err, e1)
                           | Inr labels \<Rightarrow>
                               (case update_msa (e1\<lparr>self_labels := self_labels e1 @ labels\<rparr>)
                                       seqs labels n_confs n_atoms of
                                  Inl err \<Rightarrow> Inl err
                                | Inr e2 \<Rightarrow> update_coordinates e2 coords' weights' n_repeats)))))))"

section \<open>\<^verbatim>\<open>iterpose\<close>\<close>

text \<open>
  Modelled from the spec: \<^verbatim>\<open>Ensemble.superpose\<close>, the base class's one-shot superposition,
  which is not among the source files. It runs \<^verbatim>\<open>_superpose\<close> with transform tracking
  (the spec's final full superposition "with transform tracking").
\<close>

definition superpose ::
  "(frame \<Rightarrow> frame \<Rightarrow> wrow \<Rightarrow> mat3 \<times> vec3) \<Rightarrow> ensemble \<Rightarrow> pyerror \<times> ensemble + ensemble" where
  "superpose calcT e = superpose_impl calcT True e"

text \<open>
  \<^verbatim>\<open>PDBEnsemble.iterpose(rmsd)\<close>. The convergence loop \<^verbatim>\<open>Ensemble.iterpose\<close> of the base
  class is not among the source files and is the parameter \<open>Ensemble_iterpose\<close>: from the
  tolerance and the ensemble it gives the ensemble after the loop, an error with the
  ensemble at the raise, or \<open>None\<close> when the loop does not end.
  \<^verbatim>\<open>self._confs.copy()\<close> raises \<^verbatim>\<open>AttributeError\<close> when there are no frames.
\<close>

definition iterpose ::
  "(real \<Rightarrow> ensemble \<Rightarrow> (pyerror \<times> ensemble + ensemble) option)
     \<Rightarrow> (frame \<Rightarrow> frame \<Rightarrow> wrow \<Rightarrow> mat3 \<times> vec3) \<Rightarrow> real \<Rightarrow> ensemble
     \<Rightarrow> (pyerror \<times> ensemble + ensemble) option" where
  "iterpose Ensemble_iterpose calcT rmsd e =
     (case self_confs e of
        None \<Rightarrow> Some (Inl (AttributeError, e))
      | Some confs \<Rightarrow>
          (case Ensemble_iterpose rmsd e of
             None \<Rightarrow> None
           | Some (Inl failed) \<Rightarrow> Some (Inl failed)
           | Some (Inr e1) \<Rightarrow> Some (superpose calcT (e1\<lparr>self_confs := Some confs\<rparr>))))"

section \<open>\<^verbatim>\<open>getMSFs\<close>\<close>

subsection \<open>Floating-point values\<close>

text \<open>
  The arithmetic of \<^verbatim>\<open>getMSFs\<close> divides by a count that can be zero, so its values are
  numpy's: a finite number, an infinity or NaN. Every operation on finite numbers rounds
  its exact result with \<open>rnd\<close>, a parameter: the identity gives exact arithmetic,
  \<open>round_double\<close> below gives IEEE 754 binary64 with rounding to nearest, ties to even.
  Overflow and signed zeros are not modelled.
\<close>

datatype npfloat = Fin real | PInf | NInf | NaN

fun fneg :: "npfloat \<Rightarrow> npfloat" where
  "fneg (Fin x) = Fin (- x)"
| "fneg PInf = NInf"
| "fneg NInf = PInf"
| "fneg NaN = NaN"

fun fadd :: "(real \<Rightarrow> real) \<Rightarrow> npfloat \<Rightarrow> npfloat \<Rightarrow> npfloat" where
  "fadd rnd (Fin x) (Fin y) = Fin (rnd (x + y))"
| "fadd rnd NaN b = NaN"
| "fadd rnd a NaN = NaN"
| "fadd rnd PInf NInf = NaN"
| "fadd rnd NInf PInf = NaN"
| "fadd rnd PInf b = PInf"
| "fadd rnd a PInf = PInf"
| "fadd rnd NInf b = NInf"
| "fadd rnd a NInf = NInf"

definition fsub :: "(real \<Rightarrow> real) \<Rightarrow> npfloat \<Rightarrow> npfloat \<Rightarrow> npfloat" where
  "fsub rnd a b = fadd rnd a (fneg b)"

definition inf_of_sign :: "bool \<Rightarrow> npfloat" where
  "inf_of_sign positive = (if positive then PInf else NInf)"

fun fmul :: "(real \<Rightarrow> real) \<Rightarrow> npfloat \<Rightarrow> npfloat \<Rightarrow> npfloat" where
  "fmul rnd (Fin x) (Fin y) = Fin (rnd (x * y))"
| "fmul rnd NaN b = NaN"
| "fmul rnd a NaN = NaN"
| "fmul rnd (Fin x) PInf = (if x = 0 then NaN else inf_of_sign (0 < x))"
| "fmul rnd (Fin x) NInf = (if x = 0 then NaN else inf_of_sign (x < 0))"
| "fmul rnd PInf (Fin y) = (if y = 0 then NaN else inf_of_sign (0 < y))"
| "fmul rnd NInf (Fin y) = (if y = 0 then NaN else inf_of_sign (y < 0))"
| "fmul rnd PInf PInf = PInf"
| "fmul rnd NInf NInf = PInf"
| "fmul rnd PInf NInf = NInf"
| "fmul rnd NInf PInf = NInf"

text \<open>Division: \<open>0 / 0\<close> is NaN and \<open>x / 0\<close> an infinity (numpy warns and goes on).\<close>

fun fdiv :: "(real \<Rightarrow> real) \<Rightarrow> npfloat \<Rightarrow> npfloat \<Rightarrow> npfloat" where
  "fdiv rnd (Fin x) (Fin y) =
     (if y = 0 then (if x = 0 then NaN else inf_of_sign (0 < x)) else Fin (rnd (x / y)))"
| "fdiv rnd NaN b = NaN"
| "fdiv rnd a NaN = NaN"
| "fdiv rnd (Fin x) PInf = Fin 0"
| "fdiv rnd (Fin x) NInf = Fin 0"
| "fdiv rnd PInf (Fin y) = inf_of_sign (0 \<le> y)"
| "fdiv rnd NInf (Fin y) = inf_of_sign (y < 0)"
| "fdiv rnd PInf b = NaN"
| "fdiv rnd NInf b = NaN"

text \<open>
  Rounding to binary64. \<open>expo fuel x\<close> is the exponent \<open>e\<close> with \<open>2\<^sup>e \<le> x < 2\<^sup>e\<^sup>+\<^sup>1\<close>
  for \<open>x > 0\<close> (the fuel bounds the search; 2200 steps cover the exponent range),
  \<open>round_even\<close> rounds to the nearest integer, ties to even, and a double has 53
  significant bits.
\<close>

fun expo :: "nat \<Rightarrow> real \<Rightarrow> int" where
  "expo 0 x = 0"
| "expo (Suc n) x =
     (if 2 \<le> x then expo n (x / 2) + 1 else if x < 1 then expo n (x * 2) - 1 else 0)"

definition round_even :: "real \<Rightarrow> int" where
  "round_even x =
     (let f = \<lfloor>x\<rfloor>; d = x - of_int f in
      if d < 1 / 2 then f else if 1 / 2 < d then f + 1 else if even f then f else f + 1)"

definition pow2 :: "int \<Rightarrow> real" where
  "pow2 k = (if 0 \<le> k then 2 ^ nat k else 1 / 2 ^ nat (- k))"

definition round_double :: "real \<Rightarrow> real" where
  "round_double x =
     (if x = 0 then 0
      else (let ulp = pow2 (expo 2200 \<bar>x\<bar> - 52) in of_int (round_even (x / ulp)) * ulp))"

subsection \<open>Arrays\<close>

text \<open>
  An elementwise operation on two arrays whose atom axes have lengths \<open>m\<close> and \<open>n\<close>:
  numpy broadcasts an axis of length 1 and raises \<^verbatim>\<open>ValueError\<close> on any other mismatch.
  An in-place operation (\<^verbatim>\<open>+=\<close>, \<^verbatim>\<open>/=\<close>) keeps the shape of its left operand.
\<close>

definition bcast2 :: "('a \<Rightarrow> 'b \<Rightarrow> 'c) \<Rightarrow> 'a list \<Rightarrow> 'b list \<Rightarrow> pyerror + 'c list" where
  "bcast2 f xs ys =
     (if length xs = length ys then Inr (map2 f xs ys)
      else if length xs = 1 then Inr (map (f (hd xs)) ys)
      else if length ys = 1 then Inr (map (\<lambda>x. f x (hd ys)) xs)
      else Inl ValueError)"

definition inplace :: "('a \<Rightarrow> 'b \<Rightarrow> 'a) \<Rightarrow> 'a list \<Rightarrow> 'b list \<Rightarrow> pyerror + 'a list" where
  "inplace f xs ys =
     (if length xs = length ys then Inr (map2 f xs ys)
      else if length ys = 1 then Inr (map (\<lambda>x. f x (hd ys)) xs)
      else Inl ValueError)"

type_synonym fvec3 = "npfloat \<times> npfloat \<times> npfloat"

definition fzero3 :: fvec3 where
  "fzero3 = (Fin 0, Fin 0, Fin 0)"

definition embed :: "vec3 \<Rightarrow> fvec3" where
  "embed p = (case p of (x, y, z) \<Rightarrow> (Fin x, Fin y, Fin z))"

definition vadd :: "(real \<Rightarrow> real) \<Rightarrow> fvec3 \<Rightarrow> fvec3 \<Rightarrow> fvec3" where
  "vadd rnd a b =
     (case a of (a0, a1, a2) \<Rightarrow> case b of (b0, b1, b2) \<Rightarrow>
        (fadd rnd a0 b0, fadd rnd a1 b1, fadd rnd a2 b2))"

definition vsub :: "(real \<Rightarrow> real) \<Rightarrow> fvec3 \<Rightarrow> fvec3 \<Rightarrow> fvec3" where
  "vsub rnd a b =
     (case a of (a0, a1, a2) \<Rightarrow> case b of (b0, b1, b2) \<Rightarrow>
        (fsub rnd a0 b0, fsub rnd a1 b1, fsub rnd a2 b2))"

text \<open>A point times an entry of the boolean weight column (\<^verbatim>\<open>True\<close> is 1, \<^verbatim>\<open>False\<close> is 0).\<close>

definition vmask :: "(real \<Rightarrow> real) \<Rightarrow> fvec3 \<Rightarrow> bool \<Rightarrow> fvec3" where
  "vmask rnd a b =
     (case a of (a0, a1, a2) \<Rightarrow>
        (fmul rnd a0 (Fin (of_bool b)), fmul rnd a1 (Fin (of_bool b)), fmul rnd a2 (Fin (of_bool b))))"

text \<open>\<^verbatim>\<open>** 2\<close> on a point, a point divided by a count, and \<^verbatim>\<open>.sum(1)\<close> of a point.\<close>

definition vsq :: "(real \<Rightarrow> real) \<Rightarrow> fvec3 \<Rightarrow> fvec3" where
  "vsq rnd a = (case a of (a0, a1, a2) \<Rightarrow> (fmul rnd a0 a0, fmul rnd a1 a1, fmul rnd a2 a2))"

definition vdiv :: "(real \<Rightarrow> real) \<Rightarrow> fvec3 \<Rightarrow> npfloat \<Rightarrow> fvec3" where
  "vdiv rnd a d = (case a of (a0, a1, a2) \<Rightarrow> (fdiv rnd a0 d, fdiv rnd a1 d, fdiv rnd a2 d))"

definition vsum :: "(real \<Rightarrow> real) \<Rightarrow> fvec3 \<Rightarrow> npfloat" where
  "vsum rnd a = (case a of (a0, a1, a2) \<Rightarrow> fadd rnd (fadd rnd a0 a1) a2)"

subsection \<open>The method\<close>

text \<open>\<^verbatim>\<open>self._weights > 0\<close> and \<^verbatim>\<open>weights.sum(0)\<close>, the count of included frames per atom.\<close>

definition mask_rows :: "wrow list \<Rightarrow> bool list list" where
  "mask_rows ws = map (map (\<lambda>w. 0 < w)) ws"

definition weightsum :: "bool list list \<Rightarrow> nat list" where
  "weightsum rows = map (\<lambda>a. length (filter (\<lambda>r. r ! a) rows)) [0..<shape1 rows]"

text \<open>\<^verbatim>\<open>for i, conf in enumerate(confs): mean += conf * weights[i]\<close>\<close>

fun mean_loop ::
  "(real \<Rightarrow> real) \<Rightarrow> bool list list \<Rightarrow> frame list \<Rightarrow> nat \<Rightarrow> fvec3 list \<Rightarrow> pyerror + fvec3 list" where
  "mean_loop rnd weights [] i mean = Inr mean"
| "mean_loop rnd weights (conf # confs) i mean =
     (case row_at weights i of
        Inl err \<Rightarrow> Inl err
      | Inr w \<Rightarrow>
          (case bcast2 (vmask rnd) (map embed conf) w of
             Inl err \<Rightarrow> Inl err
           | Inr t \<Rightarrow>
               (case inplace (vadd rnd) mean t of
                  Inl err \<Rightarrow> Inl err
                | Inr mean' \<Rightarrow> mean_loop rnd weights confs (Suc i) mean')))"

text \<open>\<^verbatim>\<open>for i, conf in enumerate(confs): ssqf += ((conf - mean) * weights[i]) ** 2\<close>\<close>

fun ssqf_loop ::
  "(real \<Rightarrow> real) \<Rightarrow> bool list list \<Rightarrow> fvec3 list \<Rightarrow> frame list \<Rightarrow> nat \<Rightarrow> fvec3 list
     \<Rightarrow> pyerror + fvec3 list" where
  "ssqf_loop rnd weights mean [] i ssqf = Inr ssqf"
| "ssqf_loop rnd weights mean (conf # confs) i ssqf =
     (case bcast2 (vsub rnd) (map embed conf) mean of
        Inl err \<Rightarrow> Inl err
      | Inr d \<Rightarrow>
          (case row_at weights i of
             Inl err \<Rightarrow> Inl err
           | Inr w \<Rightarrow>
               (case bcast2 (vmask rnd) d w of
                  Inl err \<Rightarrow> Inl err
                | Inr t \<Rightarrow>
                    (case inplace (vadd rnd) ssqf (map (vsq rnd) t) of
                       Inl err \<Rightarrow> Inl err
                     | Inr ssqf' \<Rightarrow> ssqf_loop rnd weights mean confs (Suc i) ssqf'))))"

text \<open>
  The arrays \<^verbatim>\<open>coords\<close>, \<^verbatim>\<open>confs\<close> and \<^verbatim>\<open>weights\<close> of \<^verbatim>\<open>getMSFs\<close>. Without a selection a
  missing reference is noticed only at \<^verbatim>\<open>coords.shape\<close>.
\<close>

definition msf_arrays ::
  "ensemble \<Rightarrow> frame list \<Rightarrow> pyerror + frame option \<times> frame list \<times> bool list list" where
  "msf_arrays e all_confs =
     (case self_indices e of
        None \<Rightarrow>
          (case self_weights e of
             None \<Rightarrow> Inl TypeError
           | Some ws \<Rightarrow> Inr (self_coords e, all_confs, mask_rows ws))
      | Some ix \<Rightarrow>
          (case self_coords e of
             None \<Rightarrow> Inl TypeError
           | Some ref \<Rightarrow>
               (case take_idx ref ix of
                  Inl err \<Rightarrow> Inl err
                | Inr ref' \<Rightarrow>
                    (case take_cols all_confs ix of
                       Inl err \<Rightarrow> Inl err
                     | Inr cs' \<Rightarrow>
                         (case self_weights e of
                            None \<Rightarrow> Inl TypeError
                          | Some ws \<Rightarrow>
                              (case take_cols ws ix of
                                 Inl err \<Rightarrow> Inl err
                               | Inr ws' \<Rightarrow> Inr (Some ref', cs', mask_rows ws')))))))"

definition getMSFs :: "(real \<Rightarrow> real) \<Rightarrow> ensemble \<Rightarrow> pyerror + npfloat list option" where
  "getMSFs rnd e =
     (case self_confs e of
        None \<Rightarrow> Inr None
      | Some all_confs \<Rightarrow>
          (case msf_arrays e all_confs of
             Inl err \<Rightarrow> Inl err
           | Inr (coords, confs, weights) \<Rightarrow>
               (let wsum = map (\<lambda>n. Fin (real n)) (weightsum weights) in
                case coords of
                  None \<Rightarrow> Inl AttributeError
                | Some ref \<Rightarrow>
                    (case mean_loop rnd weights confs 0 (replicate (length ref) fzero3) of
                       Inl err \<Rightarrow> Inl err
                     | Inr msum \<Rightarrow>
                         (case inplace (vdiv rnd) msum wsum of
                            Inl err \<Rightarrow> Inl err
                          | Inr mean \<Rightarrow>
                              (case ssqf_loop rnd weights mean confs 0
                                      (replicate (length mean) fzero3) of
                                 Inl err \<Rightarrow> Inl err
                               | Inr ssqf \<Rightarrow>
                                   (case bcast2 (fdiv rnd) (map (vsum rnd) ssqf) wsum of
                                      Inl err \<Rightarrow> Inl err
                                    | Inr msf \<Rightarrow> Inr (Some msf))))))))"

section \<open>\<^verbatim>\<open>__getitem__\<close>\<close>

subsection \<open>Arrays as objects in a store\<close>

text \<open>
  What \<^verbatim>\<open>__getitem__\<close> shares with the ensemble it is called on is not visible when
  arrays are values, so here an array is an object: a window on the rows of a buffer in a
  heap. \<^verbatim>\<open>a.copy()\<close>, \<^verbatim>\<open>copy(a)\<close> and \<^verbatim>\<open>a[ix]\<close> for an index list \<open>ix\<close> give an array with
  a new buffer; \<^verbatim>\<open>a[i:j:k]\<close> gives a view, an array on the buffer of \<open>a\<close>; \<^verbatim>\<open>a[i] = v\<close>
  writes the buffer, for every array that shows the row. A new buffer gets the next free
  address of its heap.
\<close>

type_synonym addr = nat

record ndarray =
  buffer :: addr
  window :: "nat list"

type_synonym 'a heap = "'a list list"

definition new_array :: "'a heap \<Rightarrow> 'a list \<Rightarrow> ndarray \<times> 'a heap" where
  "new_array h xs = (\<lparr>buffer = length h, window = [0..<length xs]\<rparr>, h @ [xs])"

definition contents :: "'a heap \<Rightarrow> ndarray \<Rightarrow> 'a list" where
  "contents h a = map (\<lambda>r. h ! buffer a ! r) (window a)"

definition view_rows :: "ndarray \<Rightarrow> nat list \<Rightarrow> ndarray" where
  "view_rows a rs = a\<lparr>window := map (\<lambda>r. window a ! r) rs\<rparr>"

definition set_row :: "'a heap \<Rightarrow> ndarray \<Rightarrow> nat \<Rightarrow> 'a \<Rightarrow> pyerror + 'a heap" where
  "set_row h a i v =
     (if i < length (window a)
      then Inr (h[buffer a := (h ! buffer a)[window a ! i := v]])
      else Inl IndexError)"

text \<open>
  One heap for each kind of array an ensemble holds: reference coordinates (rows are
  points), frames, weights, transformations and selection indices.
\<close>

record store =
  coords_heap :: "vec3 heap"
  confs_heap :: "frame heap"
  weights_heap :: "wrow heap"
  trans_heap :: "mat4 heap"
  indices_heap :: "nat heap"

text \<open>A \<^verbatim>\<open>PDBEnsemble\<close> object: the attributes of the class, the arrays by reference.\<close>

record pdb_object =
  obj_title :: string
  obj_coords :: "ndarray option"
  obj_confs :: "ndarray option"
  obj_weights :: "ndarray option"
  obj_n_atoms :: nat
  obj_n_csets :: nat
  obj_indices :: "ndarray option"
  obj_labels :: "string list"
  obj_trans :: "ndarray option"
  obj_msa :: "msa option"
  obj_atoms :: "atomic option"

text \<open>The ensemble an object stands for in a store: every array read through its reference.\<close>

definition deref :: "store \<Rightarrow> pdb_object \<Rightarrow> ensemble" where
  "deref h ob =
     \<lparr>self_title = obj_title ob,
      self_coords = map_option (contents (coords_heap h)) (obj_coords ob),
      self_confs = map_option (contents (confs_heap h)) (obj_confs ob),
      self_weights = map_option (contents (weights_heap h)) (obj_weights ob),
      self_n_atoms = obj_n_atoms ob,
      self_n_csets = obj_n_csets ob,
      self_indices = map_option (contents (indices_heap h)) (obj_indices ob),
      self_labels = obj_labels ob,
      self_trans = map_option (contents (trans_heap h)) (obj_trans ob),
      self_msa = obj_msa ob,
      self_atoms = obj_atoms ob\<rparr>"

text \<open>
  The arrays of an ensemble built from copies, put in the store: the reference, the frames
  and the weights get a buffer of their own each. The object has no transformations and no
  selection yet.
\<close>

definition store_arrays :: "store \<Rightarrow> ensemble \<Rightarrow> pdb_object \<times> store" where
  "store_arrays h e =
     (let (c, hc) = (case self_coords e of
                       None \<Rightarrow> (None, coords_heap h)
                     | Some xs \<Rightarrow> (case new_array (coords_heap h) xs of (a, h') \<Rightarrow> (Some a, h')));
          (f, hf) = (case self_confs e of
                       None \<Rightarrow> (None, confs_heap h)
                     | Some xs \<Rightarrow> (case new_array (confs_heap h) xs of (a, h') \<Rightarrow> (Some a, h')));
          (w, hw) = (case self_weights e of
                       None \<Rightarrow> (None, weights_heap h)
                     | Some xs \<Rightarrow> (case new_array (weights_heap h) xs of (a, h') \<Rightarrow> (Some a, h')))
      in (\<lparr>obj_title = self_title e, obj_coords = c, obj_confs = f, obj_weights = w,
           obj_n_atoms = self_n_atoms e, obj_n_csets = self_n_csets e, obj_indices = None,
           obj_labels = self_labels e, obj_trans = None, obj_msa = self_msa e,
           obj_atoms = self_atoms e\<rparr>,
          h\<lparr>coords_heap := hc, confs_heap := hf, weights_heap := hw\<rparr>))"

subsection \<open>Selectors\<close>

text \<open>
  The argument of \<^verbatim>\<open>__getitem__\<close>: an integer, a slice \<^verbatim>\<open>start:stop:step\<close> with integer or
  absent parts, a list of indices, or anything else.
\<close>

datatype selector =
  Index int
| Slice "int option" "int option" "int option"
| IndexList "nat list"
| Other

text \<open>
  \<^verbatim>\<open>slice.indices(len)\<close> of Python: the start, stop and step of the slice on a sequence of
  a given length. A step of 0 raises \<^verbatim>\<open>ValueError\<close>.
\<close>

definition slice_indices ::
  "int option \<Rightarrow> int option \<Rightarrow> int option \<Rightarrow> nat \<Rightarrow> pyerror + int \<times> int \<times> int" where
  "slice_indices start stop step len =
     (let k = (case step of None \<Rightarrow> 1 | Some s \<Rightarrow> s) in
      if k = 0 then Inl ValueError
      else
        (let n = int len;
             lower = (if k < 0 then - 1 else 0);
             upper = (if k < 0 then n - 1 else n);
             clamp = (\<lambda>i. if i < 0 then max (i + n) lower else min i upper);
             a = (case start of None \<Rightarrow> (if k < 0 then upper else lower) | Some i \<Rightarrow> clamp i);
             b = (case stop of None \<Rightarrow> (if k < 0 then lower else upper) | Some i \<Rightarrow> clamp i)
         in Inr (a, b, k)))"

text \<open>\<^verbatim>\<open>range(a, b, k)\<close> for \<open>k \<noteq> 0\<close>, as row numbers.\<close>

definition range_rows :: "int \<Rightarrow> int \<Rightarrow> int \<Rightarrow> nat list" where
  "range_rows a b k =
     (if k > 0
      then map (\<lambda>j. nat (a + int j * k)) [0..<nat ((b - a + k - 1) div k)]
      else map (\<lambda>j. nat (a + int j * k)) [0..<nat ((a - b - k - 1) div (- k))])"

text \<open>The rows that \<^verbatim>\<open>a[start:stop:step]\<close> selects from a sequence of a given length.\<close>

definition slice_rows :: "int option \<Rightarrow> int option \<Rightarrow> int option \<Rightarrow> nat \<Rightarrow> pyerror + nat list" where
  "slice_rows start stop step len =
     (case slice_indices start stop step len of
        Inl err \<Rightarrow> Inl err
      | Inr (a, b, k) \<Rightarrow> Inr (range_rows a b k))"

definition py_slice :: "int option \<Rightarrow> int option \<Rightarrow> int option \<Rightarrow> 'a list \<Rightarrow> pyerror + 'a list" where
  "py_slice start stop step xs =
     (case slice_rows start stop step (length xs) of
        Inl err \<Rightarrow> Inl err
      | Inr rs \<Rightarrow> Inr (map (\<lambda>r. xs ! r) rs))"

text \<open>\<^verbatim>\<open>str(i)\<close> for an integer.\<close>

definition string_of_int :: "int \<Rightarrow> string" where
  "string_of_int i =
     (if i < 0 then CHR ''-'' # string_of_nat (nat (- i)) else string_of_nat (nat i))"

subsection \<open>The collaborators\<close>

text \<open>
  Modelled from the spec: indexing of the labelled-sequence collection \<^verbatim>\<open>MSA\<close> ("index/slice"),
  which is not among the source files. A slice or an index list gives the collection of
  the selected rows with their labels, an integer the one row; an index out of range or of
  another kind is an error.
\<close>

definition MSA_getitem :: "msa \<Rightarrow> selector \<Rightarrow> pyerror + msa" where
  "MSA_getitem m index =
     (case index of
        Index i \<Rightarrow>
          (let n = int (length (msa_seqs m)) in
           if - n \<le> i \<and> i < n
           then (let r = nat (if i < 0 then i + n else i)
                 in Inr (m\<lparr>msa_labels := take 1 (drop r (msa_labels m)),
                           msa_seqs := [msa_seqs m ! r]\<rparr>))
           else Inl IndexError)
      | Slice a b c \<Rightarrow>
          (case py_slice a b c (msa_seqs m) of
             Inl err \<Rightarrow> Inl err
           | Inr seqs \<Rightarrow>
               (case py_slice a b c (msa_labels m) of
                  Inl err \<Rightarrow> Inl err
                | Inr labels \<Rightarrow> Inr (m\<lparr>msa_labels := labels, msa_seqs := seqs\<rparr>)))
      | IndexList ix \<Rightarrow>
          (case take_idx (msa_seqs m) ix of
             Inl err \<Rightarrow> Inl err
           | Inr seqs \<Rightarrow>
               (case take_idx (msa_labels m) ix of
                  Inl err \<Rightarrow> Inl err
                | Inr labels \<Rightarrow> Inr (m\<lparr>msa_labels := labels, msa_seqs := seqs\<rparr>)))
      | Other \<Rightarrow> Inl IndexError)"

text \<open>
  \<^verbatim>\<open>PDBEnsemble(title)\<close>: the constructor sets an empty label list, no transformations and
  no sequences. Modelled from the spec: the constructor of the base class \<^verbatim>\<open>Ensemble\<close>,
  which sets the title and leaves everything else unset, and its \<^verbatim>\<open>setCoords\<close>, which
  sets the reference coordinates and fixes the atom count, and fails when the coordinates
  are \<^verbatim>\<open>None\<close>. Of \<^verbatim>\<open>setAtoms\<close> only the atoms it stores are kept: \<^verbatim>\<open>__getitem__\<close> assigns
  the selection indices itself in the next statement.
\<close>

definition PDBEnsemble_init :: "string \<Rightarrow> ensemble" where
  "PDBEnsemble_init title =
     \<lparr>self_title = title, self_coords = None, self_confs = None, self_weights = None,
      self_n_atoms = 0, self_n_csets = 0, self_indices = None, self_labels = [],
      self_trans = None, self_msa = None, self_atoms = None\<rparr>"

definition Ensemble_setCoords :: "ensemble \<Rightarrow> frame option \<Rightarrow> pyerror + ensemble" where
  "Ensemble_setCoords e coords =
     (case coords of
        None \<Rightarrow> Inl ValueError
      | Some c \<Rightarrow> Inr (e\<lparr>self_coords := Some c, self_n_atoms := length c\<rparr>))"

definition Ensemble_setAtoms :: "pdb_object \<Rightarrow> atomic option \<Rightarrow> pdb_object" where
  "Ensemble_setAtoms ob atoms = ob\<lparr>obj_atoms := atoms\<rparr>"

subsection \<open>\<^verbatim>\<open>getConformation\<close> and \<^verbatim>\<open>__getitem__\<close>\<close>

text \<open>
  \<^verbatim>\<open>getConformation(index)\<close> for an integer: the frame number that the conformation
  \<^verbatim>\<open>PDBConformation(self, index)\<close> points at.
\<close>

definition getConformation :: "ensemble \<Rightarrow> int \<Rightarrow> pyerror + nat" where
  "getConformation e index =
     (if self_confs e = None then Inl AttributeError
      else
        (let n_confs = int (self_n_csets e) in
         if - n_confs \<le> index \<and> index < n_confs
         then Inr (nat (if index < 0 then n_confs + index else index))
         else Inl IndexError))"

definition and_then :: "pyerror + 'a \<Rightarrow> ('a \<Rightarrow> pyerror + 'b) \<Rightarrow> pyerror + 'b" where
  "and_then r f = (case r of Inl err \<Rightarrow> Inl err | Inr x \<Rightarrow> f x)"

text \<open>
  The statements the slice branch and the list branch have in common, from the selected
  frames \<open>fs\<close>, weights \<open>ws\<close> and labels on: a new ensemble with a copy of the reference,
  to which the copies of the selected frames and weights are added.
  \<^verbatim>\<open>self._confs[index]\<close> on \<^verbatim>\<open>None\<close> raises \<^verbatim>\<open>TypeError\<close>.
\<close>

definition new_ensemble ::
  "ensemble \<Rightarrow> string \<Rightarrow> (frame list \<Rightarrow> pyerror + frame list) \<Rightarrow> (wrow list \<Rightarrow> pyerror + wrow list)
     \<Rightarrow> label_arg \<Rightarrow> msa option \<Rightarrow> pyerror + ensemble" where
  "new_ensemble e title sel_confs sel_weights label sequence =
     and_then (Ensemble_setCoords (PDBEnsemble_init title) (self_coords e)) (\<lambda>ens.
     and_then (case self_confs e of None \<Rightarrow> Inl TypeError | Some cs \<Rightarrow> sel_confs cs) (\<lambda>fs.
     and_then (case self_weights e of None \<Rightarrow> Inl TypeError | Some ws \<Rightarrow> sel_weights ws) (\<lambda>ws.
       case addCoordset ens (Stack3 (shape1 (the (self_confs e))) fs) (Some ws) label False
              (case sequence of None \<Rightarrow> SNone | Some m \<Rightarrow> SMSA m) of
         Inl (err, _) \<Rightarrow> Inl err
       | Inr ens' \<Rightarrow> Inr ens')))"

datatype item = Conformation nat | SubEnsemble pdb_object

text \<open>
  \<^verbatim>\<open>__getitem__(index)\<close> on the object \<open>self\<close> in the store \<open>h\<close>: the item and the store
  with the arrays of the new ensemble. In the slice branch \<^verbatim>\<open>self._trans[index]\<close> is a
  basic slice, a view; in the list branch it is a new array. \<^verbatim>\<open>ens._indices = self._indices\<close>
  hands over the reference.
\<close>

definition getitem :: "store \<Rightarrow> pdb_object \<Rightarrow> selector \<Rightarrow> pyerror + item \<times> store" where
  "getitem h self index =
     (let e = deref h self in
      and_then (case self_msa e of
                  None \<Rightarrow> Inr None
                | Some m \<Rightarrow> and_then (MSA_getitem m index) (\<lambda>m'. Inr (Some m'))) (\<lambda>msa.
      case index of
        Index i \<Rightarrow> and_then (getConformation e i) (\<lambda>k. Inr (Conformation k, h))
      | Slice a b c \<Rightarrow>
          and_then (slice_indices a b c (numConfs e)) (\<lambda>(s0, s1, s2).
          and_then (py_slice a b c (self_labels e)) (\<lambda>labels.
          and_then (new_ensemble e
                      (self_title e @ '' ('' @ string_of_int s0 @ '':'' @ string_of_int s1 @ '':''
                         @ string_of_int s2 @ '')'')
                      (py_slice a b c) (py_slice a b c) (LList labels) msa) (\<lambda>ens.
          case store_arrays h ens of (child, h1) \<Rightarrow>
          and_then (case obj_trans self of
                      None \<Rightarrow> Inr None
                    | Some t \<Rightarrow>
                        and_then (slice_rows a b c (length (window t)))
                          (\<lambda>rs. Inr (Some (view_rows t rs)))) (\<lambda>tr.
          Inr (SubEnsemble ((Ensemble_setAtoms (child\<lparr>obj_trans := tr\<rparr>) (obj_atoms self))
                              \<lparr>obj_indices := obj_indices self\<rparr>), h1)))))
      | IndexList ix \<Rightarrow>
          and_then (take_idx (self_labels e) ix) (\<lambda>labels.
          and_then (new_ensemble e (self_title e)
                      (\<lambda>cs. take_idx cs ix) (\<lambda>ws. take_idx ws ix) (LList labels) msa) (\<lambda>ens.
          case store_arrays h ens of (child, h1) \<Rightarrow>
          and_then (case self_trans e of
                      None \<Rightarrow> Inr (None, trans_heap h1)
                    | Some ts \<Rightarrow>
                        and_then (take_idx ts ix)
                          (\<lambda>ts'. case new_array (trans_heap h1) ts' of
                                    (a, th) \<Rightarrow> Inr (Some a, th))) (\<lambda>(tr, th).
          Inr (SubEnsemble ((Ensemble_setAtoms (child\<lparr>obj_trans := tr\<rparr>) (obj_atoms self))
                              \<lparr>obj_indices := obj_indices self\<rparr>),
               h1\<lparr>trans_heap := th\<rparr>))))
      | Other \<Rightarrow> Inl IndexError))"

text \<open>
  The in-place writes \<^verbatim>\<open>_superpose\<close> makes, on an object: \<^verbatim>\<open>self._confs[i] = frame\<close>, and
  the same for a row of the weights and for an entry of the transformation history.
\<close>

definition write_confs :: "store \<Rightarrow> pdb_object \<Rightarrow> nat \<Rightarrow> frame \<Rightarrow> pyerror + store" where
  "write_confs h ob i v =
     (case obj_confs ob of
        None \<Rightarrow> Inl TypeError
      | Some a \<Rightarrow> and_then (set_row (confs_heap h) a i v) (\<lambda>x. Inr (h\<lparr>confs_heap := x\<rparr>)))"

definition write_weights :: "store \<Rightarrow> pdb_object \<Rightarrow> nat \<Rightarrow> wrow \<Rightarrow> pyerror + store" where
  "write_weights h ob i v =
     (case obj_weights ob of
        None \<Rightarrow> Inl TypeError
      | Some a \<Rightarrow> and_then (set_row (weights_heap h) a i v) (\<lambda>x. Inr (h\<lparr>weights_heap := x\<rparr>)))"

definition write_trans :: "store \<Rightarrow> pdb_object \<Rightarrow> nat \<Rightarrow> mat4 \<Rightarrow> pyerror + store" where
  "write_trans h ob i v =
     (case obj_trans ob of
        None \<Rightarrow> Inl TypeError
      | Some a \<Rightarrow> and_then (set_row (trans_heap h) a i v) (\<lambda>x. Inr (h\<lparr>trans_heap := x\<rparr>)))"

section \<open>Auxiliary notions for the statements\<close>

text \<open>\<open>select ix a\<close> is the array \<^verbatim>\<open>a[ix]\<close> when every index is in range.\<close>

definition select :: "nat list \<Rightarrow> 'a list \<Rightarrow> 'a list" where
  "select ix xs = map (\<lambda>i. xs ! i) ix"

definition square :: "nat \<Rightarrow> real list list \<Rightarrow> bool" where
  "square n M = (length M = n \<and> (\<forall>a<n. length (M ! a) = n))"

text \<open>
  The \<open>4 \<times> 4\<close> array with the rotation in the upper-left \<open>3 \<times> 3\<close> block, the
  translation in the first three entries of the last column and zeros in the last row.
\<close>

definition transform_matrix :: "mat3 \<times> vec3 \<Rightarrow> mat4" where
  "transform_matrix T =
     (case T of (((a0, a1, a2), (b0, b1, b2), (c0, c1, c2)), (x, y, z)) \<Rightarrow>
        [[a0, a1, a2, x], [b0, b1, b2, y], [c0, c1, c2, z], [0, 0, 0, 0]])"

text \<open>The arrays as \<^verbatim>\<open>_superpose\<close> restricts them to the selection, if there is one.\<close>

fun restrict :: "nat list option \<Rightarrow> 'a list \<Rightarrow> 'a list" where
  "restrict None xs = xs"
| "restrict (Some ix) xs = select ix xs"

text \<open>
  The transformation \<open>calcT\<close> computes for frame \<open>i\<close> of an ensemble: from the frame's
  selected atoms, the selected reference and the frame's selected weights.
\<close>

definition frame_transform ::
  "(frame \<Rightarrow> frame \<Rightarrow> wrow \<Rightarrow> mat3 \<times> vec3) \<Rightarrow> ensemble \<Rightarrow> nat \<Rightarrow> mat3 \<times> vec3" where
  "frame_transform calcT e i =
     calcT (restrict (self_indices e) (the (self_confs e) ! i))
           (restrict (self_indices e) (the (self_coords e)))
           (restrict (self_indices e) (the (self_weights e) ! i))"

text \<open>
  The shapes the class keeps once reference coordinates and frames are set: the reference
  has \<open>n_atoms\<close> points, there are \<open>n_csets\<close> frames and weight rows with \<open>n_atoms\<close>
  entries each, and the selected atom indices are below \<open>n_atoms\<close>.
\<close>

definition well_formed :: "ensemble \<Rightarrow> bool" where
  "well_formed e =
     ((case self_coords e of None \<Rightarrow> False | Some ref \<Rightarrow> length ref = self_n_atoms e) \<and>
      (case self_confs e of
         None \<Rightarrow> False
       | Some cs \<Rightarrow> length cs = self_n_csets e \<and> list_all (\<lambda>f. length f = self_n_atoms e) cs) \<and>
      (case self_weights e of
         None \<Rightarrow> False
       | Some ws \<Rightarrow> length ws = self_n_csets e \<and> list_all (\<lambda>w. length w = self_n_atoms e) ws) \<and>
      (case self_indices e of None \<Rightarrow> True | Some ix \<Rightarrow> list_all (\<lambda>k. k < self_n_atoms e) ix))"

text \<open>
  An object whose arrays are in the store: every reference points at a buffer of its heap.
\<close>

definition allocated :: "store \<Rightarrow> pdb_object \<Rightarrow> bool" where
  "allocated h ob =
     ((case obj_coords ob of None \<Rightarrow> True | Some a \<Rightarrow> buffer a < length (coords_heap h)) \<and>
      (case obj_confs ob of None \<Rightarrow> True | Some a \<Rightarrow> buffer a < length (confs_heap h)) \<and>
      (case obj_weights ob of None \<Rightarrow> True | Some a \<Rightarrow> buffer a < length (weights_heap h)) \<and>
      (case obj_trans ob of None \<Rightarrow> True | Some a \<Rightarrow> buffer a < length (trans_heap h)) \<and>
      (case obj_indices ob of None \<Rightarrow> True | Some a \<Rightarrow> buffer a < length (indices_heap h)))"

subsection \<open>The computation of \<^verbatim>\<open>getMSFs\<close> seen from one atom\<close>

text \<open>
  The frames of one atom: its stored position and its inclusion flag in every frame.
  \<open>acc_mean\<close> and \<open>acc_ssqf\<close> are what the two loops of \<^verbatim>\<open>getMSFs\<close> add up at that
  atom, and \<open>atom_msf\<close> is the value returned for it.
\<close>

fun acc_mean :: "(real \<Rightarrow> real) \<Rightarrow> (vec3 \<times> bool) list \<Rightarrow> fvec3 \<Rightarrow> fvec3" where
  "acc_mean rnd [] m = m"
| "acc_mean rnd ((c, b) # rest) m = acc_mean rnd rest (vadd rnd m (vmask rnd (embed c) b))"

fun acc_ssqf :: "(real \<Rightarrow> real) \<Rightarrow> fvec3 \<Rightarrow> (vec3 \<times> bool) list \<Rightarrow> fvec3 \<Rightarrow> fvec3" where
  "acc_ssqf rnd mean [] s = s"
| "acc_ssqf rnd mean ((c, b) # rest) s =
     acc_ssqf rnd mean rest (vadd rnd s (vsq rnd (vmask rnd (vsub rnd (embed c) mean) b)))"

definition atom_msf :: "(real \<Rightarrow> real) \<Rightarrow> (vec3 \<times> bool) list \<Rightarrow> npfloat" where
  "atom_msf rnd frames =
     (let n = Fin (real (length (filter snd frames)));
          mean = vdiv rnd (acc_mean rnd frames fzero3) n
      in fdiv rnd (vsum rnd (acc_ssqf rnd mean frames fzero3)) n)"

text \<open>
  The frames of the \<open>k\<close>-th selected atom of an ensemble (of the \<open>k\<close>-th atom when there is
  no selection): the weight acts as an inclusion flag, \<open>weight > 0\<close>.
\<close>

definition atom_frames :: "ensemble \<Rightarrow> nat \<Rightarrow> (vec3 \<times> bool) list" where
  "atom_frames e k =
     map (\<lambda>f. (restrict (self_indices e) (the (self_confs e) ! f) ! k,
                0 < restrict (self_indices e) (the (self_weights e) ! f) ! k))
         [0..<self_n_csets e]"

text \<open>
  The claim's words: the positions of an atom in the frames that include it, their mean,
  and the mean of the squared distances to it (the variance of the position), which
  divides by the number of including frames.
\<close>

definition included :: "(vec3 \<times> bool) list \<Rightarrow> vec3 list" where
  "included frames = map fst (filter snd frames)"

definition mean_position :: "vec3 list \<Rightarrow> vec3" where
  "mean_position ps =
     (sum_list (map fst ps) / real (length ps),
      sum_list (map (\<lambda>p. fst (snd p)) ps) / real (length ps),
      sum_list (map (\<lambda>p. snd (snd p)) ps) / real (length ps))"

definition sq_dist :: "vec3 \<Rightarrow> vec3 \<Rightarrow> real" where
  "sq_dist p q =
     (fst p - fst q)\<^sup>2 + (fst (snd p) - fst (snd q))\<^sup>2 + (snd (snd p) - snd (snd q))\<^sup>2"

definition position_variance :: "vec3 list \<Rightarrow> real" where
  "position_variance ps =
     sum_list (map (\<lambda>p. sq_dist p (mean_position ps)) ps) / real (length ps)"

text \<open>The vector that is NaN in every coordinate.\<close>

definition nan3 :: fvec3 where
  "nan3 = (NaN, NaN, NaN)"

section \<open>Example ensembles\<close>

text \<open>Two frames of two atoms, the second atom unresolved in the second frame.\<close>

definition ens_two :: ensemble where
  "ens_two =
     \<lparr>self_title = ''two'',
      self_coords = Some [(0, 0, 0), (1, 0, 0)],
      self_confs = Some [[(0, 0, 0), (1, 0, 0)], [(0, 0, 0), (2, 0, 0)]],
      self_weights = Some [[1, 1], [1, 0]],
      self_n_atoms = 2, self_n_csets = 2, self_indices = None,
      self_labels = [''a'', ''b''], self_trans = None, self_msa = None, self_atoms = None\<rparr>"

text \<open>One frame added to an ensemble whose reference coordinates were never set.\<close>

definition ens_noref :: ensemble where
  "ens_noref =
     \<lparr>self_title = ''noref'',
      self_coords = None,
      self_confs = Some [[(0, 0, 0)]],
      self_weights = Some [[1]],
      self_n_atoms = 1, self_n_csets = 1, self_indices = None,
      self_labels = [''a''], self_trans = None, self_msa = None, self_atoms = None\<rparr>"

text \<open>Two frames of three atoms with the selection \<open>[0, 2]\<close>; atom 0 is unresolved in frame 1.\<close>

definition ens_sel :: ensemble where
  "ens_sel =
     \<lparr>self_title = ''sel'',
      self_coords = Some [(0, 0, 0), (1, 0, 0), (0, 1, 0)],
      self_confs = Some [[(0, 0, 0), (1, 0, 0), (0, 1, 0)], [(5, 5, 5), (2, 0, 0), (0, 3, 0)]],
      self_weights = Some [[1, 1, 1], [0, 1, 1]],
      self_n_atoms = 3, self_n_csets = 2, self_indices = Some [0, 2],
      self_labels = [''a'', ''b''], self_trans = None, self_msa = None, self_atoms = None\<rparr>"

text \<open>A stand-in for \<^verbatim>\<open>getTransformation\<close>: the identity rotation and a translation that shows
  the weights it was handed.\<close>

definition calcT_demo :: "frame \<Rightarrow> frame \<Rightarrow> wrow \<Rightarrow> mat3 \<times> vec3" where
  "calcT_demo conf ref w = (((1, 0, 0), (0, 1, 0), (0, 0, 1)), (sum_list w, 2, 3))"

text \<open>A new ensemble: \<^verbatim>\<open>PDBEnsemble('new')\<close>, nothing set.\<close>

definition ens_new :: ensemble where
  "ens_new =
     \<lparr>self_title = ''new'',
      self_coords = None, self_confs = None, self_weights = None,
      self_n_atoms = 0, self_n_csets = 0, self_indices = None,
      self_labels = [], self_trans = None, self_msa = None, self_atoms = None\<rparr>"

text \<open>
  Ten atoms on a line, one stored frame equal to the reference, and the selection
  \<open>[2, 4, 6]\<close>.
\<close>

definition line10 :: frame where
  "line10 = [(0, 0, 0), (1, 0, 0), (2, 0, 0), (3, 0, 0), (4, 0, 0),
             (5, 0, 0), (6, 0, 0), (7, 0, 0), (8, 0, 0), (9, 0, 0)]"

definition ens_ten :: ensemble where
  "ens_ten =
     \<lparr>self_title = ''ten'',
      self_coords = Some line10,
      self_confs = Some [line10],
      self_weights = Some [[1, 1, 1, 1, 1, 1, 1, 1, 1, 1]],
      self_n_atoms = 10, self_n_csets = 1, self_indices = Some [2, 4, 6],
      self_labels = [''a''], self_trans = None, self_msa = None, self_atoms = None\<rparr>"

text \<open>
  A stand-in for \<^verbatim>\<open>getTransformation\<close> that reads both of its coordinate arguments: the
  identity rotation and the translation that takes the first point of the frame onto the
  first point of the reference.
\<close>

definition calcT_first :: "frame \<Rightarrow> frame \<Rightarrow> wrow \<Rightarrow> mat3 \<times> vec3" where
  "calcT_first conf ref w =
     (((1, 0, 0), (0, 1, 0), (0, 0, 1)),
      (case (conf, ref) of
         ((cx, cy, cz) # _, (rx, ry, rz) # _) \<Rightarrow> (rx - cx, ry - cy, rz - cz)
       | _ \<Rightarrow> (0, 0, 0)))"

text \<open>
  A stand-in for the convergence loop: it ends with the reference shifted by 1 along x,
  every frame collapsed to the origin and no transform history.
\<close>

definition loop_demo :: "real \<Rightarrow> ensemble \<Rightarrow> (pyerror \<times> ensemble + ensemble) option" where
  "loop_demo rmsd e =
     Some (Inr (e\<lparr>self_coords := map_option (map (\<lambda>(x, y, z). (x + 1, y, z))) (self_coords e),
                  self_confs := map_option (map (map (\<lambda>p. (0, 0, 0)))) (self_confs e),
                  self_trans := None\<rparr>))"

text \<open>
  One atom resolved in three frames at the same place. Its x coordinate is the double
  nearest to 0.1 (Python's \<^verbatim>\<open>0.1\<close>), \<open>3602879701896397 / 2\<^sup>5\<^sup>5\<close>.
\<close>

definition ens_tenth :: ensemble where
  "ens_tenth =
     \<lparr>self_title = ''tenth'',
      self_coords = Some [(3602879701896397 / 36028797018963968, 0, 0)],
      self_confs = Some [[(3602879701896397 / 36028797018963968, 0, 0)],
                         [(3602879701896397 / 36028797018963968, 0, 0)],
                         [(3602879701896397 / 36028797018963968, 0, 0)]],
      self_weights = Some [[1], [1], [1]],
      self_n_atoms = 1, self_n_csets = 3, self_indices = None,
      self_labels = [''a'', ''b'', ''c''], self_trans = None, self_msa = None, self_atoms = None\<rparr>"


text \<open>
  The ensemble \<open>ens_two\<close> as an object in a store, after a superposition that tracked the
  transformations: one buffer in each heap, and a history of two matrices.
\<close>

definition mat_diag :: "real \<Rightarrow> mat4" where
  "mat_diag x = [[x, 0, 0, 0], [0, x, 0, 0], [0, 0, x, 0], [0, 0, 0, 1]]"

definition store_two :: store where
  "store_two =
     \<lparr>coords_heap = [[(0, 0, 0), (1, 0, 0)]],
      confs_heap = [[[(0, 0, 0), (1, 0, 0)], [(0, 0, 0), (2, 0, 0)]]],
      weights_heap = [[[1, 1], [1, 0]]],
      trans_heap = [[mat_diag 1, mat_diag 2]],
      indices_heap = []\<rparr>"

definition obj_two :: pdb_object where
  "obj_two =
     \<lparr>obj_title = ''two'',
      obj_coords = Some \<lparr>buffer = 0, window = [0, 1]\<rparr>,
      obj_confs = Some \<lparr>buffer = 0, window = [0, 1]\<rparr>,
      obj_weights = Some \<lparr>buffer = 0, window = [0, 1]\<rparr>,
      obj_n_atoms = 2, obj_n_csets = 2, obj_indices = None,
      obj_labels = [''a'', ''b''],
      obj_trans = Some \<lparr>buffer = 0, window = [0, 1]\<rparr>,
      obj_msa = None, obj_atoms = None\<rparr>"
section \<open>Properties of \<^verbatim>\<open>getRMSDs\<close>\<close>

lemma set2_square:
  assumes "square n M"
  shows "square n (set2 M i j v)"
proof -
  have len: "length M = n" and rows: "\<And>a. a < n \<Longrightarrow> length (M ! a) = n"
    using assms by (simp_all add: square_def)
  have "length (M[i := (M ! i)[j := v]] ! a) = n" if "a < n" for a
  proof (cases "a = i")
    case True
    then show ?thesis using that len rows by simp
  next
    case False
    then show ?thesis using that rows by simp
  qed
  then show ?thesis by (simp add: square_def set2_def len)
qed

lemma set2_nth:
  assumes "square n M" "i < n" "j < n"
  shows "set2 M i j v ! a ! b = (if a = i \<and> b = j then v else M ! a ! b)"
proof -
  have len: "length M = n" and rows: "length (M ! i) = n"
    using assms by (simp_all add: square_def)
  show ?thesis
  proof (cases "a = i")
    case True
    then show ?thesis using assms len rows by (simp add: set2_def nth_list_update)
  next
    case False
    then show ?thesis by (simp add: set2_def)
  qed
qed

lemma zeros2_square: "square n (zeros2 n n)"
  by (simp add: square_def zeros2_def)

lemma zeros2_nth: "a < n \<Longrightarrow> b < n \<Longrightarrow> zeros2 n n ! a ! b = 0"
  by (simp add: zeros2_def)

text \<open>
  The inner loop writes row \<open>i\<close> and column \<open>i\<close> at the positions \<open>js\<close> and nothing
  else; \<open>vf i j\<close> is the value the loop body computes for the pair.
\<close>

lemma loop_j_entries:
  assumes "square n M" "i < n" "\<forall>j\<in>set js. j < n \<and> entry i j = Inr (vf i j)"
  shows "\<exists>M'. loop_j entry i js M = Inr M' \<and> square n M' \<and>
           (\<forall>a b. M' ! a ! b =
              (if a = i \<and> b \<in> set js then vf i b
               else if b = i \<and> a \<in> set js then vf i a else M ! a ! b))"
  using assms
proof (induction js arbitrary: M)
  case Nil
  then show ?case by simp
next
  case (Cons j js)
  let ?M1 = "set2 (set2 M i j (vf i j)) j i (vf i j)"
  have sq: "square n ?M1" using Cons.prems(1) by (simp add: set2_square)
  have jn: "j < n" and ent: "entry i j = Inr (vf i j)" using Cons.prems(3) by auto
  have rest: "\<forall>j\<in>set js. j < n \<and> entry i j = Inr (vf i j)" using Cons.prems(3) by auto
  from Cons.IH[OF sq Cons.prems(2) rest] obtain M' where
    M': "loop_j entry i js ?M1 = Inr M'" "square n M'"
      "\<forall>a b. M' ! a ! b =
              (if a = i \<and> b \<in> set js then vf i b
               else if b = i \<and> a \<in> set js then vf i a else ?M1 ! a ! b)" by blast
  have sq0: "square n (set2 M i j (vf i j))" using Cons.prems(1) by (rule set2_square)
  have one: "?M1 ! a ! b =
      (if a = j \<and> b = i then vf i j else if a = i \<and> b = j then vf i j else M ! a ! b)" for a b
    unfolding set2_nth[OF sq0 jn Cons.prems(2)] set2_nth[OF Cons.prems(1) Cons.prems(2) jn]
    by simp
  have "\<forall>a b. M' ! a ! b =
              (if a = i \<and> b \<in> set (j # js) then vf i b
               else if b = i \<and> a \<in> set (j # js) then vf i a else M ! a ! b)"
    unfolding M'(3)[rule_format] one by auto
  then show ?case
    using M'(1,2) ent by simp
qed

lemma loop_i_entries:
  assumes "square n M" "\<forall>i\<in>set is. i < n"
    and "\<forall>i j. i < j \<and> j < n \<longrightarrow> entry i j = Inr (vf i j)"
  shows "\<exists>M'. loop_i entry n is M = Inr M' \<and> square n M' \<and>
           (\<forall>a b. a < n \<and> b < n \<longrightarrow> M' ! a ! b =
              (if a \<in> set is \<and> a < b then vf a b
               else if b \<in> set is \<and> b < a then vf b a else M ! a ! b))"
  using assms
proof (induction "is" arbitrary: M)
  case Nil
  then show ?case by simp
next
  case (Cons i "is")
  have i: "i < n" using Cons.prems(2) by simp
  have "\<forall>j\<in>set [Suc i..<n]. j < n \<and> entry i j = Inr (vf i j)"
    using Cons.prems(3) by auto
  from loop_j_entries[of n M i "[Suc i..<n]" entry vf, OF Cons.prems(1) i this] obtain M1 where
    M1: "loop_j entry i [Suc i..<n] M = Inr M1" "square n M1"
      "\<forall>a b. M1 ! a ! b =
              (if a = i \<and> b \<in> set [Suc i..<n] then vf i b
               else if b = i \<and> a \<in> set [Suc i..<n] then vf i a else M ! a ! b)" by blast
  have rest: "\<forall>i\<in>set is. i < n" using Cons.prems(2) by simp
  from Cons.IH[OF M1(2) rest Cons.prems(3)] obtain M' where
    M': "loop_i entry n is M1 = Inr M'" "square n M'"
      "\<forall>a b. a < n \<and> b < n \<longrightarrow> M' ! a ! b =
              (if a \<in> set is \<and> a < b then vf a b
               else if b \<in> set is \<and> b < a then vf b a else M1 ! a ! b)" by blast
  have "\<forall>a b. a < n \<and> b < n \<longrightarrow> M' ! a ! b =
              (if a \<in> set (i # is) \<and> a < b then vf a b
               else if b \<in> set (i # is) \<and> b < a then vf b a else M ! a ! b)"
    using M'(3) M1(3) by auto
  then show ?case
    using M1(1) M'(1,2) by simp
qed

lemma take_idx_ok:
  "\<forall>k\<in>set ix. k < length xs \<Longrightarrow> take_idx xs ix = Inr (select ix xs)"
  by (simp add: take_idx_def select_def list_all_iff)

lemma take_cols_ok:
  "\<forall>r\<in>set rs. \<forall>k\<in>set ix. k < length r \<Longrightarrow> take_cols rs ix = Inr (map (select ix) rs)"
  by (induction rs) (simp_all add: take_idx_ok)

lemma pair_rmsd_ok:
  assumes "i < length confs" "j < length confs" "length ws = length confs"
    and "\<forall>f\<in>set confs. \<forall>k\<in>set ix. k < length f"
  shows "pair_rmsd rmsd2 confs ix (Some (map (select ix) ws)) i j =
           Inr (rmsd2 (select ix (confs ! i)) (select ix (confs ! j))
                  (Some (map2 (*) (select ix (ws ! i)) (select ix (ws ! j)))))"
proof -
  have "\<forall>k\<in>set ix. k < length (confs ! i)" "\<forall>k\<in>set ix. k < length (confs ! j)"
    using assms by simp_all
  then have "take_idx (confs ! i) ix = Inr (select ix (confs ! i))"
    "take_idx (confs ! j) ix = Inr (select ix (confs ! j))"
    by (simp_all add: take_idx_ok)
  then show ?thesis
    using assms(1,2,3) by (simp add: pair_rmsd_def row_at_def)
qed

text \<open>
  Claim C2, as stated, for every ensemble with \<open>N\<close> frames: \<^verbatim>\<open>getRMSDs(pairwise=True)\<close>
  returns an \<open>N \<times> N\<close> matrix. The source returns \<^verbatim>\<open>None\<close> when the reference
  coordinates are not set, whatever frames are stored: \<open>ens_noref\<close> holds one frame and
  gets no matrix, for every RMSD function.
\<close>

theorem getRMSDs_pairwise_without_reference:
  "\<forall>rmsd2 rmsdN. getRMSDs rmsd2 rmsdN ens_noref True = Inr None"
  by (simp add: getRMSDs_def ens_noref_def)

text \<open>
  Claim C2, amended: for every ensemble with \<open>N\<close> frames whose reference coordinates
  are set (with one weight row per frame and the selected atom indices in range of every
  frame and weight row), \<^verbatim>\<open>getRMSDs(pairwise=True)\<close> returns an \<open>N \<times> N\<close> matrix that is
  symmetric and has a zero diagonal; for \<open>i < j\<close> its entry \<open>(i, j)\<close> is \<^verbatim>\<open>getRMSD\<close> of
  the selected atoms of frame \<open>i\<close> and frame \<open>j\<close> with the elementwise product of the two
  frames' selected weights, so the weight handed to \<^verbatim>\<open>getRMSD\<close> is 0 at every atom
  whose weight is 0 in either frame. The entries below the diagonal are the mirrored
  ones (symmetry).
\<close>

theorem getRMSDs_pairwise_matrix:
  assumes ref: "self_coords e = Some coords"
    and confs: "self_confs e = Some confs"
    and weights: "self_weights e = Some ws"
    and n_confs: "length confs = self_n_csets e"
    and n_ws: "length ws = self_n_csets e"
    and ix: "ix = (case self_indices e of None \<Rightarrow> [0..<shape1 confs] | Some s \<Rightarrow> s)"
    and confs_ix: "\<forall>f\<in>set confs. \<forall>k\<in>set ix. k < length f"
    and ws_ix: "\<forall>w\<in>set ws. \<forall>k\<in>set ix. k < length w"
  shows "\<exists>M. getRMSDs rmsd2 rmsdN e True = Inr (Some (Matrix M)) \<and>
           length M = self_n_csets e \<and>
           (\<forall>i<self_n_csets e. length (M ! i) = self_n_csets e) \<and>
           (\<forall>i<self_n_csets e. \<forall>j<self_n_csets e. M ! i ! j = M ! j ! i) \<and>
           (\<forall>i<self_n_csets e. M ! i ! i = 0) \<and>
           (\<forall>i<self_n_csets e. \<forall>j<self_n_csets e. i < j \<longrightarrow>
              M ! i ! j =
                rmsd2 (select ix (confs ! i)) (select ix (confs ! j))
                  (Some (map2 (*) (select ix (ws ! i)) (select ix (ws ! j))))) \<and>
           (\<forall>i<self_n_csets e. \<forall>j<self_n_csets e. \<forall>k<length ix.
              ws ! i ! (ix ! k) = 0 \<or> ws ! j ! (ix ! k) = 0 \<longrightarrow>
              map2 (*) (select ix (ws ! i)) (select ix (ws ! j)) ! k = 0)"
proof -
  let ?n = "self_n_csets e"
  let ?vf = "\<lambda>i j. rmsd2 (select ix (confs ! i)) (select ix (confs ! j))
                  (Some (map2 (*) (select ix (ws ! i)) (select ix (ws ! j))))"
  let ?entry = "pair_rmsd rmsd2 confs ix (Some (map (select ix) ws))"
  have cols: "take_cols ws ix = Inr (map (select ix) ws)"
    using ws_ix by (rule take_cols_ok)
  have ent: "\<forall>i j. i < j \<and> j < ?n \<longrightarrow> ?entry i j = Inr (?vf i j)"
    using pair_rmsd_ok[of _ confs _ ws ix rmsd2] n_confs n_ws confs_ix by simp
  have rng: "\<forall>i\<in>set [0..<?n]. i < ?n" by simp
  from loop_i_entries[of ?n "zeros2 ?n ?n" "[0..<?n]" ?entry ?vf, OF zeros2_square rng ent]
  obtain M where M: "loop_i ?entry ?n [0..<?n] (zeros2 ?n ?n) = Inr M" "square ?n M"
    and Mab: "\<forall>a b. a < ?n \<and> b < ?n \<longrightarrow> M ! a ! b =
              (if a \<in> set [0..<?n] \<and> a < b then ?vf a b
               else if b \<in> set [0..<?n] \<and> b < a then ?vf b a else zeros2 ?n ?n ! a ! b)"
    by blast
  have entries: "M ! a ! b = (if a < b then ?vf a b else if b < a then ?vf b a else 0)"
    if "a < ?n" "b < ?n" for a b
    using Mab that by (simp add: zeros2_nth)
  have run: "getRMSDs rmsd2 rmsdN e True = Inr (Some (Matrix M))"
    using ref confs weights ix cols M(1) by (simp add: getRMSDs_def numConfs_def Let_def)
  have sym: "\<forall>i<?n. \<forall>j<?n. M ! i ! j = M ! j ! i"
    using entries by auto
  have diag: "\<forall>i<?n. M ! i ! i = 0"
    using entries by simp
  have upper: "\<forall>i<?n. \<forall>j<?n. i < j \<longrightarrow> M ! i ! j = ?vf i j"
    using entries by simp
  have zero: "map2 (*) (select ix (ws ! i)) (select ix (ws ! j)) ! k = 0"
    if "k < length ix" "ws ! i ! (ix ! k) = 0 \<or> ws ! j ! (ix ! k) = 0" for i j k
    using that by (auto simp: select_def)
  show ?thesis
    using run M(2) sym diag upper zero unfolding square_def by blast
qed

text \<open>
  The theorem at \<open>ens_two\<close>, with an RMSD function that returns the sum of the weights it
  is handed: the product of the rows \<open>[1, 1]\<close> and \<open>[1, 0]\<close> is \<open>[1, 0]\<close>.
\<close>

theorem getRMSDs_pairwise_matrix_witness:
  "\<exists>M. getRMSDs (\<lambda>a b w. case w of None \<Rightarrow> 0 | Some x \<Rightarrow> sum_list x) (\<lambda>a b w. []) ens_two True
          = Inr (Some (Matrix M)) \<and>
       length M = 2 \<and> M ! 0 ! 1 = M ! 1 ! 0 \<and> M ! 0 ! 0 = 0 \<and> M ! 1 ! 1 = 0 \<and> M ! 0 ! 1 = 1"
proof -
  let ?r2 = "\<lambda>(a::frame) (b::frame) w. case w of None \<Rightarrow> (0::real) | Some x \<Rightarrow> sum_list x"
  let ?rN = "\<lambda>(a::frame) (b::frame list) (w::wrow list option). ([]::real list)"
  have h1: "self_coords ens_two = Some [(0, 0, 0), (1, 0, 0)]"
    and h2: "self_confs ens_two = Some [[(0, 0, 0), (1, 0, 0)], [(0, 0, 0), (2, 0, 0)]]"
    and h3: "self_weights ens_two = Some [[1, 1], [1, 0]]"
    and h4: "length [[(0, 0, 0), (1, 0, 0)], [(0, 0, 0), (2::real, 0::real, 0::real)]]
               = self_n_csets ens_two"
    and h5: "length [[1, 1], [1, 0::real]] = self_n_csets ens_two"
    and h6: "[0, 1] = (case self_indices ens_two of
                         None \<Rightarrow> [0..<shape1 [[(0, 0, 0), (1, 0, 0)],
                                               [(0, 0, 0), (2::real, 0::real, 0::real)]]]
                       | Some s \<Rightarrow> s)"
    by (simp_all add: ens_two_def shape1_def upt_rec)
  have h7: "\<forall>f\<in>set [[(0, 0, 0), (1, 0, 0)], [(0, 0, 0), (2::real, 0::real, 0::real)]].
              \<forall>k\<in>set [0, 1::nat]. k < length f"
    and h8: "\<forall>w\<in>set [[1, 1], [1, 0::real]]. \<forall>k\<in>set [0, 1::nat]. k < length w"
    by simp_all
  from getRMSDs_pairwise_matrix[of ens_two _ _ _ _ ?r2 ?rN, OF h1 h2 h3 h4 h5 h6 h7 h8]
  obtain M where M: "getRMSDs ?r2 ?rN ens_two True = Inr (Some (Matrix M))"
    "length M = self_n_csets ens_two"
    "\<forall>i<self_n_csets ens_two. \<forall>j<self_n_csets ens_two. M ! i ! j = M ! j ! i"
    "\<forall>i<self_n_csets ens_two. M ! i ! i = 0"
    "\<forall>i<self_n_csets ens_two. \<forall>j<self_n_csets ens_two. i < j \<longrightarrow>
       M ! i ! j = ?r2 (select [0, 1] ([[(0, 0, 0), (1, 0, 0)], [(0, 0, 0), (2, 0, 0)]] ! i))
                     (select [0, 1] ([[(0, 0, 0), (1, 0, 0)], [(0, 0, 0), (2, 0, 0)]] ! j))
                     (Some (map2 (*) (select [0, 1] ([[1, 1], [1, 0]] ! i))
                                     (select [0, 1] ([[1, 1], [1, 0]] ! j))))"
    by blast
  have n: "self_n_csets ens_two = 2" by (simp add: ens_two_def)
  have "M ! 0 ! 1 = 1"
    using M(5) unfolding n by (simp add: select_def)
  moreover have "M ! 0 ! 1 = M ! 1 ! 0" "M ! 0 ! 0 = 0" "M ! 1 ! 1 = 0"
    using M(3,4) unfolding n by simp_all
  ultimately show ?thesis
    using M(1,2) n by auto
qed

section \<open>Properties of \<^verbatim>\<open>_superpose\<close>\<close>

lemma fill_zeros44: "set_tvec (set_rmat zeros44 R) t = transform_matrix (R, t)"
  by (cases R; cases t) (auto simp: set_tvec_def set_rmat_def zeros44_def put3_def transform_matrix_def
      numeral_eq_Suc split: prod.splits)


lemma superpose_loop_tracked:
  assumes "i + length sel \<le> length ts" "i + length sel \<le> length ws"
  shows "\<exists>confs' ts'. superpose_loop calcT (Some ref) (Some ws) sel i confs (Some ts)
             = Inr (confs', Some ts') \<and>
           length ts' = length ts \<and>
           (\<forall>k<length ts. ts' ! k =
              (if i \<le> k \<and> k < i + length sel
               then (case calcT (sel ! (k - i)) ref (ws ! k) of
                       (R, t) \<Rightarrow> set_tvec (set_rmat (ts ! k) R) t)
               else ts ! k))"
  using assms
proof (induction sel arbitrary: i confs ts)
  case Nil
  then show ?case by auto
next
  case (Cons conf rest)
  obtain R t where Rt: "calcT conf ref (ws ! i) = (R, t)" by (cases "calcT conf ref (ws ! i)")
  let ?ts1 = "ts[i := set_tvec (set_rmat (ts ! i) R) t]"
  let ?confs1 = "confs[i := map (move_point R t) (confs ! i)]"
  have i: "i < length ts" "i < length ws" using Cons.prems by simp_all
  have p1: "Suc i + length rest \<le> length ?ts1" "Suc i + length rest \<le> length ws"
    using Cons.prems by simp_all
  from Cons.IH[OF p1, of ?confs1] obtain confs' ts' where
    r: "superpose_loop calcT (Some ref) (Some ws) rest (Suc i) ?confs1 (Some ?ts1)
          = Inr (confs', Some ts')"
      "length ts' = length ?ts1"
      "\<forall>k<length ?ts1. ts' ! k =
          (if Suc i \<le> k \<and> k < Suc i + length rest
           then (case calcT (rest ! (k - Suc i)) ref (ws ! k) of
                   (R, t) \<Rightarrow> set_tvec (set_rmat (?ts1 ! k) R) t)
           else ?ts1 ! k)" by blast
  have run: "superpose_loop calcT (Some ref) (Some ws) (conf # rest) i confs (Some ts)
               = Inr (confs', Some ts')"
    using r(1) i Rt by (simp add: row_at_def)
  have ent: "ts' ! k =
      (if i \<le> k \<and> k < i + length (conf # rest)
       then (case calcT ((conf # rest) ! (k - i)) ref (ws ! k) of
               (R, t) \<Rightarrow> set_tvec (set_rmat (ts ! k) R) t)
       else ts ! k)" if k: "k < length ts" for k
  proof (cases "k = i")
    case True
    then show ?thesis using r(3) k i Rt by simp
  next
    case False
    have "(conf # rest) ! (k - i) = rest ! (k - Suc i)" if "i \<le> k"
    proof -
      have "k - i = Suc (k - Suc i)" using that False by arith
      then show ?thesis by simp
    qed
    then show ?thesis using r(3) k False by auto
  qed
  show ?case using run r(2) ent by simp
qed

lemma superpose_loop_untracked:
  "superpose_loop calcT coords weights sel i confs None = Inr (confs', tm) \<Longrightarrow> tm = None"
  by (induction sel arbitrary: i confs)
     (auto split: option.splits sum.splits prod.splits)


lemma well_formedD:
  assumes "well_formed e"
  shows "\<exists>ref cs ws. self_coords e = Some ref \<and> self_confs e = Some cs \<and>
    self_weights e = Some ws \<and> length ref = self_n_atoms e \<and> length cs = self_n_csets e \<and>
    length ws = self_n_csets e \<and> (\<forall>f\<in>set cs. length f = self_n_atoms e) \<and>
    (\<forall>w\<in>set ws. length w = self_n_atoms e) \<and>
    (\<forall>ix. self_indices e = Some ix \<longrightarrow> (\<forall>k\<in>set ix. k < self_n_atoms e))"
  using assms unfolding well_formed_def list_all_iff
  by (auto split: option.splits)

lemma map_restrict_None: "map (restrict None) xs = xs"
  by (induction xs) simp_all

lemma map_restrict_Some: "map (restrict (Some ix)) xs = map (select ix) xs"
  by (induction xs) simp_all

lemma superpose_loop_moves:
  assumes "i + length sel \<le> length ts" "i + length sel \<le> length ws"
    and "i + length sel \<le> length confs"
    and "superpose_loop calcT (Some ref) (Some ws) sel i confs (Some ts) = Inr (confs', tm)"
  shows "length confs' = length confs \<and>
         (\<forall>k<length confs. confs' ! k =
            (if i \<le> k \<and> k < i + length sel
             then (case calcT (sel ! (k - i)) ref (ws ! k) of
                     (R, t) \<Rightarrow> map (move_point R t) (confs ! k))
             else confs ! k))"
  using assms
proof (induction sel arbitrary: i confs ts)
  case Nil
  then show ?case by auto
next
  case (Cons conf rest)
  obtain R t where Rt: "calcT conf ref (ws ! i) = (R, t)" by (cases "calcT conf ref (ws ! i)")
  let ?ts1 = "ts[i := set_tvec (set_rmat (ts ! i) R) t]"
  let ?confs1 = "confs[i := map (move_point R t) (confs ! i)]"
  have i: "i < length ts" "i < length ws" "i < length confs" using Cons.prems by simp_all
  have p: "Suc i + length rest \<le> length ?ts1" "Suc i + length rest \<le> length ws"
    "Suc i + length rest \<le> length ?confs1"
    using Cons.prems by simp_all
  have run: "superpose_loop calcT (Some ref) (Some ws) rest (Suc i) ?confs1 (Some ?ts1)
               = Inr (confs', tm)"
    using Cons.prems(4) i Rt by (simp add: row_at_def)
  from Cons.IH[OF p run] have
    r: "length confs' = length ?confs1"
      "\<forall>k<length ?confs1. confs' ! k =
          (if Suc i \<le> k \<and> k < Suc i + length rest
           then (case calcT (rest ! (k - Suc i)) ref (ws ! k) of
                   (R, t) \<Rightarrow> map (move_point R t) (?confs1 ! k))
           else ?confs1 ! k)" by blast+
  have ent: "confs' ! k =
      (if i \<le> k \<and> k < i + length (conf # rest)
       then (case calcT ((conf # rest) ! (k - i)) ref (ws ! k) of
               (R, t) \<Rightarrow> map (move_point R t) (confs ! k))
       else confs ! k)" if k: "k < length confs" for k
  proof (cases "k = i")
    case True
    then show ?thesis using r(2) k i Rt by simp
  next
    case False
    have "(conf # rest) ! (k - i) = rest ! (k - Suc i)" if "i \<le> k"
    proof -
      have "k - i = Suc (k - Suc i)" using that False by arith
      then show ?thesis by simp
    qed
    then show ?thesis using r(2) k False by auto
  qed
  show ?case using r(1) ent by simp
qed

lemma superpose_impl_error_keeps_trans:
  "superpose_impl calcT tr e = Inl (err, e1) \<Longrightarrow> self_trans e1 = self_trans e"
  unfolding superpose_impl_def Let_def
  by (auto split: option.splits sum.splits prod.splits)

lemma superpose_impl_untracked:
  "superpose_impl calcT False e = Inr e2 \<Longrightarrow> self_trans e2 = None"
  unfolding superpose_impl_def Let_def
  by (auto split: option.splits sum.splits prod.splits dest: superpose_loop_untracked)

lemma superpose_loop_total:
  assumes "i + length sel \<le> length ws"
  shows "\<exists>confs'. superpose_loop calcT (Some ref) (Some ws) sel i confs None = Inr (confs', None)"
  using assms
  by (induction sel arbitrary: i confs) (auto simp: row_at_def split: prod.splits)

lemma selected_arrays_well_formed:
  assumes "self_coords e = Some ref" "self_confs e = Some cs" "self_weights e = Some ws"
    and "length ref = self_n_atoms e" "\<forall>f\<in>set cs. length f = self_n_atoms e"
    and "\<forall>w\<in>set ws. length w = self_n_atoms e"
    and "\<And>ix. self_indices e = Some ix \<Longrightarrow> \<forall>k\<in>set ix. k < self_n_atoms e"
  shows "selected_arrays e =
           Inr (Some (map (restrict (self_indices e)) ws), Some (restrict (self_indices e) ref),
                Some (map (restrict (self_indices e)) cs))"
proof (cases "self_indices e")
  case None
  then show ?thesis using assms(1-3) by (simp add: selected_arrays_def map_restrict_None)
next
  case (Some ix)
  have "take_cols ws ix = Inr (map (select ix) ws)" "take_cols cs ix = Inr (map (select ix) cs)"
    "take_idx ref ix = Inr (select ix ref)"
    using assms(7)[OF Some] assms(4-6) by (simp_all add: take_cols_ok take_idx_ok)
  then show ?thesis using assms(1-3) Some by (simp add: selected_arrays_def map_restrict_Some)
qed

lemma superpose_impl_untracked_total:
  assumes wf: "well_formed e"
  shows "\<exists>e3. superpose_impl calcT False e = Inr e3"
proof -
  from well_formedD[OF wf] obtain ref cs ws where f: "self_coords e = Some ref"
    "self_confs e = Some cs"
    "self_weights e = Some ws" "length ref = self_n_atoms e" "length cs = self_n_csets e"
    "length ws = self_n_csets e" "\<forall>f\<in>set cs. length f = self_n_atoms e"
    "\<forall>w\<in>set ws. length w = self_n_atoms e"
    and sel: "\<And>ix. self_indices e = Some ix \<Longrightarrow> \<forall>k\<in>set ix. k < self_n_atoms e"
    by blast
  let ?ref' = "restrict (self_indices e) ref"
  let ?cs' = "map (restrict (self_indices e)) cs"
  let ?ws' = "map (restrict (self_indices e)) ws"
  have prep: "selected_arrays e = Inr (Some ?ws', Some ?ref', Some ?cs')"
    using f(1,2,3,4,7,8) sel by (rule selected_arrays_well_formed)
  have len: "0 + length ?cs' \<le> length ?ws'" using f by simp
  from superpose_loop_total[OF len, of calcT ?ref' cs] obtain c1 where
    c1: "superpose_loop calcT (Some ?ref') (Some ?ws') ?cs' 0 cs None = Inr (c1, None)" by blast
  show ?thesis
    unfolding superpose_impl_def Let_def prep using f c1 by simp
qed

text \<open>
  The tracked call on a well-formed ensemble: every frame is moved by the transformation
  that \<open>calcT\<close> computes for it, and that transformation is stored at the frame's index.
\<close>

lemma superpose_impl_tracked:
  assumes wf: "well_formed e"
  shows "\<exists>cs2 ts. superpose_impl calcT True e
                     = Inr (e\<lparr>self_confs := Some cs2, self_trans := Some ts\<rparr>) \<and>
           length ts = self_n_csets e \<and> length cs2 = self_n_csets e \<and>
           (\<forall>i<self_n_csets e.
              ts ! i = transform_matrix (frame_transform calcT e i) \<and>
              cs2 ! i = map (move_point (fst (frame_transform calcT e i))
                                        (snd (frame_transform calcT e i)))
                          (the (self_confs e) ! i))"
proof -
  from well_formedD[OF wf] obtain ref cs ws where f: "self_coords e = Some ref"
    "self_confs e = Some cs"
    "self_weights e = Some ws" "length ref = self_n_atoms e" "length cs = self_n_csets e"
    "length ws = self_n_csets e" "\<forall>f\<in>set cs. length f = self_n_atoms e"
    "\<forall>w\<in>set ws. length w = self_n_atoms e"
    and sel: "\<And>ix. self_indices e = Some ix \<Longrightarrow> \<forall>k\<in>set ix. k < self_n_atoms e"
    by blast
  let ?n = "self_n_csets e"
  let ?ref' = "restrict (self_indices e) ref"
  let ?cs' = "map (restrict (self_indices e)) cs"
  let ?ws' = "map (restrict (self_indices e)) ws"
  have prep: "selected_arrays e = Inr (Some ?ws', Some ?ref', Some ?cs')"
    using f(1,2,3,4,7,8) sel by (rule selected_arrays_well_formed)
  have len: "0 + length ?cs' \<le> length (replicate ?n zeros44)" "0 + length ?cs' \<le> length ?ws'"
    "0 + length ?cs' \<le> length cs"
    using f by simp_all
  from superpose_loop_tracked[OF len(1) len(2), of calcT ?ref' cs] obtain c2 ts where
    c2: "superpose_loop calcT (Some ?ref') (Some ?ws') ?cs' 0 cs (Some (replicate ?n zeros44))
           = Inr (c2, Some ts)"
    and lts: "length ts = length (replicate ?n zeros44)"
    and ent: "\<forall>k<length (replicate ?n zeros44). ts ! k =
        (if 0 \<le> k \<and> k < 0 + length ?cs'
         then (case calcT (?cs' ! (k - 0)) ?ref' (?ws' ! k) of
                 (R, t) \<Rightarrow> set_tvec (set_rmat (replicate ?n zeros44 ! k) R) t)
         else replicate ?n zeros44 ! k)"
    by blast
  from superpose_loop_moves[OF len c2] have
    lc: "length c2 = length cs"
    and mv: "\<forall>k<length cs. c2 ! k =
            (if 0 \<le> k \<and> k < 0 + length ?cs'
             then (case calcT (?cs' ! (k - 0)) ?ref' (?ws' ! k) of
                     (R, t) \<Rightarrow> map (move_point R t) (cs ! k))
             else cs ! k)" by blast+
  have each: "ts ! i = transform_matrix (frame_transform calcT e i) \<and>
              c2 ! i = map (move_point (fst (frame_transform calcT e i))
                                       (snd (frame_transform calcT e i))) (cs ! i)"
    if "i < ?n" for i
  proof -
    obtain R t where Rt: "calcT (?cs' ! i) ?ref' (?ws' ! i) = (R, t)"
      by (cases "calcT (?cs' ! i) ?ref' (?ws' ! i)")
    have ft: "frame_transform calcT e i = (R, t)"
      using Rt that f by (simp add: frame_transform_def)
    have "ts ! i = set_tvec (set_rmat zeros44 R) t"
      using ent that f Rt by simp
    moreover have "c2 ! i = map (move_point R t) (cs ! i)"
      using mv that f Rt by simp
    ultimately show ?thesis using ft by (simp add: fill_zeros44)
  qed
  have run: "superpose_impl calcT True e = Inr (e\<lparr>self_confs := Some c2, self_trans := Some ts\<rparr>)"
    unfolding superpose_impl_def Let_def prep using f c2 by simp
  show ?thesis
    using run lts lc each f by auto
qed

text \<open>
  Claim C10: after a call of \<^verbatim>\<open>_superpose\<close> the transform history is never partially
  populated. A call that raises leaves \<^verbatim>\<open>_trans\<close> as it was; a call without tracking
  that returns sets it to \<^verbatim>\<open>None\<close>, whatever was stored before; and on a well-formed
  ensemble both calls return, the tracked one with exactly one \<open>4 \<times> 4\<close> matrix per
  conformation, holding the rotation and the translation that \<open>calcT\<close> computed for
  that conformation's selected atoms against the selected reference, with that
  conformation's selected weights.
\<close>

theorem superpose_impl_trans:
  "(superpose_impl calcT tr e = Inl (err, e1) \<longrightarrow> self_trans e1 = self_trans e) \<and>
   (superpose_impl calcT False e = Inr e2 \<longrightarrow> self_trans e2 = None) \<and>
   (well_formed e \<longrightarrow>
      (\<exists>e3. superpose_impl calcT False e = Inr e3) \<and>
      (\<exists>e4 ts. superpose_impl calcT True e = Inr e4 \<and> self_trans e4 = Some ts \<and>
         length ts = self_n_csets e \<and>
         (\<forall>i<self_n_csets e.
            ts ! i = transform_matrix
                       (calcT (restrict (self_indices e) (the (self_confs e) ! i))
                              (restrict (self_indices e) (the (self_coords e)))
                              (restrict (self_indices e) (the (self_weights e) ! i))))))"
proof (intro conjI impI)
  show "self_trans e1 = self_trans e" if "superpose_impl calcT tr e = Inl (err, e1)"
    using that by (rule superpose_impl_error_keeps_trans)
  show "self_trans e2 = None" if "superpose_impl calcT False e = Inr e2"
    using that by (rule superpose_impl_untracked)
next
  assume wf: "well_formed e"
  show "\<exists>e3. superpose_impl calcT False e = Inr e3"
    using wf by (rule superpose_impl_untracked_total)
  from superpose_impl_tracked[OF wf, of calcT] obtain cs2 ts where
    run: "superpose_impl calcT True e = Inr (e\<lparr>self_confs := Some cs2, self_trans := Some ts\<rparr>)"
    and lts: "length ts = self_n_csets e"
    and each: "\<forall>i<self_n_csets e.
              ts ! i = transform_matrix (frame_transform calcT e i) \<and>
              cs2 ! i = map (move_point (fst (frame_transform calcT e i))
                                        (snd (frame_transform calcT e i)))
                          (the (self_confs e) ! i)"
    by blast
  have "\<forall>i<self_n_csets e.
            ts ! i = transform_matrix
                       (calcT (restrict (self_indices e) (the (self_confs e) ! i))
                              (restrict (self_indices e) (the (self_coords e)))
                              (restrict (self_indices e) (the (self_weights e) ! i)))"
    using each by (simp add: frame_transform_def)
  then show "\<exists>e4 ts. superpose_impl calcT True e = Inr e4 \<and> self_trans e4 = Some ts \<and>
         length ts = self_n_csets e \<and>
         (\<forall>i<self_n_csets e.
            ts ! i = transform_matrix
                       (calcT (restrict (self_indices e) (the (self_confs e) ! i))
                              (restrict (self_indices e) (the (self_coords e)))
                              (restrict (self_indices e) (the (self_weights e) ! i))))"
    using run lts by simp
qed

text \<open>
  The theorem at \<open>ens_sel\<close> (tracked), at \<open>ens_sel\<close> with a stored history (untracked:
  the history is discarded) and at \<open>ens_noref\<close> with a stored history (the call raises
  and the history stays).
\<close>

theorem superpose_impl_trans_witness:
  "well_formed ens_sel \<and>
   (\<exists>e4 ts. superpose_impl calcT_demo True ens_sel = Inr e4 \<and> self_trans e4 = Some ts \<and>
      length ts = 2 \<and> ts ! 1 = [[1, 0, 0, 1], [0, 1, 0, 2], [0, 0, 1, 3], [0, 0, 0, 0]]) \<and>
   (\<exists>e2. superpose_impl calcT_demo False (ens_sel\<lparr>self_trans := Some [zeros44, zeros44]\<rparr>) = Inr e2 \<and>
      self_trans e2 = None) \<and>
   (\<exists>e1. superpose_impl calcT_demo True (ens_noref\<lparr>self_trans := Some [zeros44]\<rparr>)
            = Inl (TypeError, e1) \<and>
      self_trans e1 = Some [zeros44])"
proof (intro conjI)
  show wf: "well_formed ens_sel"
    by (simp add: well_formed_def ens_sel_def)
  have n: "self_n_csets ens_sel = 2" by (simp add: ens_sel_def)
  from superpose_impl_trans[of calcT_demo True ens_sel] wf
  obtain e4 ts where t: "superpose_impl calcT_demo True ens_sel = Inr e4" "self_trans e4 = Some ts"
    "length ts = self_n_csets ens_sel"
    "\<forall>i<self_n_csets ens_sel.
        ts ! i = transform_matrix
                   (calcT_demo (restrict (self_indices ens_sel) (the (self_confs ens_sel) ! i))
                      (restrict (self_indices ens_sel) (the (self_coords ens_sel)))
                      (restrict (self_indices ens_sel) (the (self_weights ens_sel) ! i)))"
    by blast
  have "ts ! 1 = [[1, 0, 0, 1], [0, 1, 0, 2], [0, 0, 1, 3], [0, 0, 0, 0]]"
    using t(4) unfolding n
    by (simp add: ens_sel_def calcT_demo_def transform_matrix_def select_def)
  then show "\<exists>e4 ts. superpose_impl calcT_demo True ens_sel = Inr e4 \<and> self_trans e4 = Some ts \<and>
      length ts = 2 \<and> ts ! 1 = [[1, 0, 0, 1], [0, 1, 0, 2], [0, 0, 1, 3], [0, 0, 0, 0]]"
    using t(1,2,3) n by simp
next
  let ?E = "ens_sel\<lparr>self_trans := Some [zeros44, zeros44]\<rparr>"
  have wf: "well_formed ?E"
    by (simp add: well_formed_def ens_sel_def)
  from superpose_impl_trans[of calcT_demo True ?E] wf
  obtain e3 where e3: "superpose_impl calcT_demo False ?E = Inr e3" by blast
  from superpose_impl_trans[of calcT_demo True ?E _ _ e3] e3
  have "self_trans e3 = None" by blast
  then show "\<exists>e2. superpose_impl calcT_demo False ?E = Inr e2 \<and> self_trans e2 = None"
    using e3 by blast
next
  let ?E = "ens_noref\<lparr>self_trans := Some [zeros44]\<rparr>"
  have run: "superpose_impl calcT_demo True ?E = Inl (TypeError, ?E\<lparr>self_confs := Some [[(0, 0, 0)]]\<rparr>)"
    by (simp add: superpose_impl_def selected_arrays_def ens_noref_def row_at_def)
  from superpose_impl_trans[of calcT_demo True ?E TypeError "?E\<lparr>self_confs := Some [[(0, 0, 0)]]\<rparr>"] run
  have "self_trans (?E\<lparr>self_confs := Some [[(0, 0, 0)]]\<rparr>) = self_trans ?E" by blast
  then show "\<exists>e1. superpose_impl calcT_demo True ?E = Inl (TypeError, e1) \<and>
      self_trans e1 = Some [zeros44]"
    using run by simp
qed

section \<open>Properties of \<^verbatim>\<open>getCoordsets\<close>\<close>

lemma subst_loop_ok:
  assumes "i + length ws \<le> length confs"
    and "\<forall>j<length ws. maskf (ws ! j) = Inr (m j) \<and> length (m j) = length ref
            \<and> length (confs ! (i + j)) = length ref"
  shows "\<exists>r. subst_loop maskf (Some ref) ws i confs = Inr r \<and> length r = length confs \<and>
           (\<forall>f<length confs. r ! f =
              (if i \<le> f \<and> f < i + length ws
               then map (\<lambda>(c, b, x). if b then x else c) (zip (confs ! f) (zip (m (f - i)) ref))
               else confs ! f))"
  using assms
proof (induction ws arbitrary: i confs m)
  case Nil
  then show ?case by auto
next
  case (Cons w ws)
  let ?c' = "map (\<lambda>(c, b, x). if b then x else c) (zip (confs ! i) (zip (m 0) ref))"
  have h0: "maskf w = Inr (m 0)" "length (m 0) = length ref" "length (confs ! i) = length ref"
    using Cons.prems(2) by auto
  have i: "i < length confs" using Cons.prems(1) by simp
  have p1: "Suc i + length ws \<le> length (confs[i := ?c'])" using Cons.prems(1) by simp
  have p2: "\<forall>j<length ws. maskf (ws ! j) = Inr (m (Suc j)) \<and> length (m (Suc j)) = length ref
            \<and> length (confs[i := ?c'] ! (Suc i + j)) = length ref"
    using Cons.prems(2) by auto
  from Cons.IH[OF p1, of "\<lambda>j. m (Suc j)", OF p2] obtain r where
    r: "subst_loop maskf (Some ref) ws (Suc i) (confs[i := ?c']) = Inr r"
      "length r = length (confs[i := ?c'])"
      "\<forall>f<length (confs[i := ?c']). r ! f =
              (if Suc i \<le> f \<and> f < Suc i + length ws
               then map (\<lambda>(c, b, x). if b then x else c)
                      (zip (confs[i := ?c'] ! f) (zip (m (Suc (f - Suc i))) ref))
               else confs[i := ?c'] ! f)" by blast
  have run: "subst_loop maskf (Some ref) (w # ws) i confs = Inr r"
    using r(1) h0 i by (simp add: row_at_def put_masked_def)
  have ent: "r ! f =
              (if i \<le> f \<and> f < i + length (w # ws)
               then map (\<lambda>(c, b, x). if b then x else c) (zip (confs ! f) (zip (m (f - i)) ref))
               else confs ! f)" if f: "f < length confs" for f
  proof (cases "f = i")
    case True
    then show ?thesis using r(3) f by simp
  next
    case False
    have "Suc (f - Suc i) = f - i" if "i \<le> f" using that False by arith
    then show ?thesis using r(3) f False by auto
  qed
  show ?case using run r(2) ent by simp
qed

text \<open>
  The default call \<^verbatim>\<open>getCoordsets(indices=None, selected=...)\<close> on a well-formed
  ensemble returns one coordinate set per frame, over the selected atoms when a selection
  is active and \<^verbatim>\<open>selected\<close> is true and over all atoms otherwise, with the reference
  coordinate at every atom whose weight in that frame is 0 and the stored coordinate
  elsewhere.
\<close>

lemma getCoordsets_all_frames:
  assumes wf: "well_formed e"
    and sel: "sel = (if selected then self_indices e else None)"
  shows "\<exists>rs. getCoordsets e None selected = Inr (Some (Stack rs)) \<and>
           length rs = self_n_csets e \<and>
           (\<forall>f<self_n_csets e.
              length (rs ! f) = length (restrict sel (the (self_coords e))) \<and>
              (\<forall>k<length (restrict sel (the (self_coords e))).
                 rs ! f ! k =
                   (if restrict sel (the (self_weights e) ! f) ! k = 0
                    then restrict sel (the (self_coords e)) ! k
                    else restrict sel (the (self_confs e) ! f) ! k)))"
proof -
  from well_formedD[OF wf] obtain ref cs ws where f: "self_coords e = Some ref"
    "self_confs e = Some cs"
    "self_weights e = Some ws" "length ref = self_n_atoms e" "length cs = self_n_csets e"
    "length ws = self_n_csets e" "\<forall>f\<in>set cs. length f = self_n_atoms e"
    "\<forall>w\<in>set ws. length w = self_n_atoms e"
    and six: "\<And>ix. self_indices e = Some ix \<Longrightarrow> \<forall>k\<in>set ix. k < self_n_atoms e"
    by blast
  let ?n = "self_n_csets e"
  let ?ref = "restrict sel ref"
  let ?cs = "map (restrict sel) cs"
  let ?m = "\<lambda>j. map (\<lambda>x. x = 0) (restrict sel (ws ! j))"
  let ?maskf = "case sel of None \<Rightarrow> mask_all | Some ix \<Rightarrow> mask_sel ix"
  have lens: "length (restrict sel (ws ! j)) = length ?ref"
    "length (restrict sel (cs ! j)) = length ?ref" if "j < ?n" for j
    using that f by (cases sel; simp add: select_def)+
  have masks: "?maskf (ws ! j) = Inr (?m j)" if "j < ?n" for j
  proof (cases sel)
    case None
    then show ?thesis by (simp add: mask_all_def)
  next
    case (Some ix)
    then have "self_indices e = Some ix" using sel by (simp split: if_splits)
    then have "\<forall>k\<in>set ix. k < length (ws ! j)" using six f that by simp
    then show ?thesis using Some by (simp add: mask_sel_def take_idx_ok)
  qed
  have pre: "0 + length ws \<le> length ?cs" using f by simp
  have pre2: "\<forall>j<length ws. ?maskf (ws ! j) = Inr (?m j) \<and> length (?m j) = length ?ref
            \<and> length (?cs ! (0 + j)) = length ?ref"
    using masks lens f by simp
  from subst_loop_ok[OF pre pre2] obtain rs where
    rs: "subst_loop ?maskf (Some ?ref) ws 0 ?cs = Inr rs" "length rs = length ?cs"
      "\<forall>f<length ?cs. rs ! f =
              (if 0 \<le> f \<and> f < 0 + length ws
               then map (\<lambda>(c, b, x). if b then x else c) (zip (?cs ! f) (zip (?m (f - 0)) ?ref))
               else ?cs ! f)" by blast
  have run: "getCoordsets e None selected = Inr (Some (Stack rs))"
  proof (cases sel)
    case None
    then have "self_indices e = None \<or> \<not> selected" using sel by (simp split: if_splits)
    then show ?thesis using rs(1) f None
      by (simp add: getCoordsets_def map_restrict_None)
  next
    case (Some ix)
    then have ix: "self_indices e = Some ix" "selected" using sel by (simp_all split: if_splits)
    have "take_idx ref ix = Inr (select ix ref)" "take_cols cs ix = Inr (map (select ix) cs)"
      using six[OF ix(1)] f by (simp_all add: take_idx_ok take_cols_ok)
    then show ?thesis using rs(1) f Some ix
      by (simp add: getCoordsets_def map_restrict_Some)
  qed
  have ent: "length (rs ! j) = length ?ref \<and>
             (\<forall>k<length ?ref. rs ! j ! k =
                   (if restrict sel (ws ! j) ! k = 0 then ?ref ! k else restrict sel (cs ! j) ! k))"
    if j: "j < ?n" for j
  proof -
    have "rs ! j = map (\<lambda>(c, b, x). if b then x else c)
                     (zip (restrict sel (cs ! j)) (zip (?m j) ?ref))"
      using rs(3) j f by simp
    then show ?thesis using lens[OF j] by simp
  qed
  show ?thesis using run rs(2) ent f by simp
qed

text \<open>
  Claim C5 says that the retrieval returns the reference coordinate at a zero-weight
  atom for every frame index, with and without a selection. With a selection active, a
  call for a frame index raises instead: \<^verbatim>\<open>self._confs[indices, selids]\<close> pairs the two
  index arrays, the result has one point per pair, and the boolean index of the
  substitution does not fit it. In \<open>ens_sel\<close> atom 0 has weight 0 in frame 1;
  \<^verbatim>\<open>getCoordsets(1)\<close> raises \<^verbatim>\<open>IndexError\<close>. Without a selection the same call returns
  the frame with the reference coordinate substituted.
\<close>

theorem getCoordsets_index_with_selection:
  "getCoordsets ens_sel (Some [1]) True = Inl IndexError"
  by (simp add: getCoordsets_def ens_sel_def take_idx_def pair_idx_def shape1_def bcast_def
      flat_loop_def mask_sel_def Let_def)

lemma getCoordsets_index_without_selection:
  "getCoordsets ens_sel (Some [1]) False = Inr (Some (Stack [[(0, 0, 0), (2, 0, 0), (0, 3, 0)]]))"
  by (simp add: getCoordsets_def ens_sel_def take_idx_def row_at_def put_masked_def mask_all_def)

section \<open>Properties of \<^verbatim>\<open>addCoordset\<close>\<close>

lemma scatter_length: "length (scatter buf ix vals) = length buf"
  by (induction buf ix vals rule: scatter.induct) simp_all

lemma scatter_other: "a \<notin> set ix \<Longrightarrow> scatter buf ix vals ! a = buf ! a"
  by (induction buf ix vals rule: scatter.induct) simp_all

lemma scatter_hit:
  assumes "distinct ix" "length vals = length ix" "\<forall>i\<in>set ix. i < length buf" "k < length ix"
  shows "scatter buf ix vals ! (ix ! k) = vals ! k"
  using assms
proof (induction buf ix vals arbitrary: k rule: scatter.induct)
  case (1 buf vals)
  then show ?case by simp
next
  case (2 buf i ix)
  then show ?case by simp
next
  case (3 buf i ix v vals)
  show ?case
  proof (cases k)
    case 0
    have "i \<notin> set ix" using "3.prems"(1) by simp
    then have "scatter (buf[i := v]) ix vals ! i = buf[i := v] ! i" by (rule scatter_other)
    then show ?thesis using 0 "3.prems"(3) by simp
  next
    case (Suc k')
    have "scatter (buf[i := v]) ix vals ! (ix ! k') = vals ! k'"
      using "3.prems" Suc by (intro "3.IH") simp_all
    then show ?thesis using Suc by simp
  qed
qed

lemma update_msa_frames:
  "update_msa e seqs labels n_confs n_atoms = Inr e2 \<Longrightarrow>
     self_confs e2 = self_confs e \<and> self_weights e2 = self_weights e \<and>
     self_n_csets e2 = self_n_csets e \<and> self_labels e2 = self_labels e \<and>
     self_n_atoms e2 = self_n_atoms e \<and> self_coords e2 = self_coords e"
  unfolding update_msa_def Let_def
  by (auto split: option.splits if_splits)

lemma update_coordinates_frames:
  assumes "update_coordinates e coords weights n_repeats = Inr e'"
  shows "self_confs e' = Some ((case self_confs e of None \<Rightarrow> [] | Some cs \<Rightarrow> cs) @ coords) \<and>
         self_weights e' = Some ((case self_weights e of None \<Rightarrow> [] | Some ws \<Rightarrow> ws) @ weights) \<and>
         self_n_csets e' = (case self_confs e of None \<Rightarrow> 0 | Some cs \<Rightarrow> self_n_csets e) + n_repeats \<and>
         self_labels e' = self_labels e \<and> self_coords e' = self_coords e"
  using assms unfolding update_coordinates_def concatenate_def
  by (auto split: option.splits if_splits sum.splits)


lemma list_all_lt: "list_all (\<lambda>i. i < n) ix \<longleftrightarrow> (\<forall>i\<in>set ix. i < n)"
  by (simp add: list_all_iff)

lemma addCoordset_Frame2_stored:
  assumes sel: "self_indices e = Some ix" and ref: "self_coords e = Some ref"
    and len: "length f = length ix" and rng: "\<forall>i\<in>set ix. i < length ref"
    and ok: "addCoordset e (Frame2 f) weights label degeneracy sequence = Inr e'"
  shows "self_confs e' =
           Some ((case self_confs e of None \<Rightarrow> [] | Some cs \<Rightarrow> cs) @ [scatter ref ix f])"
proof -
  let ?e1 = "if numAtoms e = 0 then e\<lparr>self_n_atoms := length f\<rparr> else e"
  have e1: "self_indices ?e1 = Some ix" "self_coords ?e1 = Some ref"
    "self_confs ?e1 = self_confs e"
    using sel ref by simp_all
  have sc: "scatter_all (Some ref) ix 1 [f] = Inr [scatter ref ix f]"
    using rng by (simp add: scatter_all_def list_all_lt)
  from ok obtain labels seqs weights' e2 where
    st: "update_msa (?e1\<lparr>self_labels := self_labels ?e1 @ labels\<rparr>) seqs labels
           (numCoordsets e) (numAtoms e) = Inr e2"
      "update_coordinates e2 [scatter ref ix f] weights' (if degeneracy then 1 else 1) = Inr e'"
    unfolding addCoordset_def Let_def
    using e1 sc len sel
    by (auto simp: numSelected_def split: sum.splits if_splits)
  have "self_confs e2 = self_confs e"
    using update_msa_frames[OF st(1)] by (simp split: if_splits)
  then show ?thesis
    using update_coordinates_frames[OF st(2)] by simp
qed


lemma concatenate_rows:
  assumes "\<forall>r\<in>set a. length r = n" "\<forall>r\<in>set b. length r = n"
  shows "concatenate a b = Inr (a @ b)"
proof (cases "a = [] \<or> b = []")
  case True
  then show ?thesis by (auto simp: concatenate_def)
next
  case False
  then obtain x xs y ys where "a = x # xs" "b = y # ys"
    by (cases a; cases b) auto
  then show ?thesis using assms by (simp add: concatenate_def shape1_def)
qed

lemma make_labels_single: "\<exists>labels. make_labels l 1 degeneracy = Inr labels"
  by (cases l) (simp_all add: make_labels_def)

lemma addCoordset_Frame2_succeeds:
  assumes wf: "well_formed e" and sel: "self_indices e = Some ix" and len: "length f = length ix"
    and nomsa: "self_msa e = None" and noatoms: "self_atoms e = None"
  shows "\<exists>e'. addCoordset e (Frame2 f) None label degeneracy SNone = Inr e' \<and>
           self_n_csets e' = self_n_csets e + 1"
proof -
  from well_formedD[OF wf] obtain ref cs ws where f: "self_coords e = Some ref"
    "self_confs e = Some cs"
    "self_weights e = Some ws" "length ref = self_n_atoms e" "length cs = self_n_csets e"
    "length ws = self_n_csets e" "\<forall>f\<in>set cs. length f = self_n_atoms e"
    "\<forall>w\<in>set ws. length w = self_n_atoms e"
    and six: "\<And>ix. self_indices e = Some ix \<Longrightarrow> \<forall>k\<in>set ix. k < self_n_atoms e"
    by blast
  define e1 where "e1 = (if numAtoms e = 0 then e\<lparr>self_n_atoms := length f\<rparr> else e)"
  define stored where "stored = scatter ref ix f"
  define w where "w = replicate (numAtoms e) (1::real)"
  obtain labels where labels: "make_labels (label_or_unknown label) 1 degeneracy = Inr labels"
    using make_labels_single by blast
  define e2 where "e2 = e1\<lparr>self_labels := self_labels e1 @ labels\<rparr>"
  have e2: "self_confs e2 = Some cs" "self_weights e2 = Some ws" "self_n_csets e2 = self_n_csets e"
    "self_indices e1 = Some ix" "self_coords e1 = Some ref" "self_msa e1 = None"
    "self_atoms e1 = None"
    using f sel nomsa noatoms by (simp_all add: e2_def e1_def)
  have chk: "checkCoords (length f) (numSelected e)"
    using sel len by (simp add: checkCoords_def numSelected_def)
  have sc: "scatter_all (self_coords e1) ix 1 [f] = Inr [stored]"
    using six[OF sel] f e2 by (simp add: scatter_all_def list_all_lt stored_def)
  have seqs: "resolve_seqs e1 SNone (numAtoms e) (if degeneracy then 1 else 1) = None"
    using e2 by (simp add: resolve_seqs_def)
  have msa: "update_msa e2 None labels (numCoordsets e) (numAtoms e) = Inr e2"
    by (simp add: update_msa_def)
  have c1: "concatenate cs [stored] = Inr (cs @ [stored])"
    using f by (intro concatenate_rows[where n="self_n_atoms e"])
      (simp_all add: scatter_length stored_def)
  have c2: "concatenate ws [w] = Inr (ws @ [w])"
    using f by (intro concatenate_rows[where n="self_n_atoms e"]) (simp_all add: numAtoms_def w_def)
  have upd: "update_coordinates e2 [stored] [w] 1 =
               Inr (e2\<lparr>self_confs := Some (cs @ [stored]), self_weights := Some (ws @ [w]),
                        self_n_csets := self_n_csets e2 + 1\<rparr>)"
    using e2 c1 c2 by (simp add: update_coordinates_def)
  have "addCoordset e (Frame2 f) None label degeneracy SNone =
          Inr (e2\<lparr>self_confs := Some (cs @ [stored]), self_weights := Some (ws @ [w]),
                        self_n_csets := self_n_csets e2 + 1\<rparr>)"
    unfolding addCoordset_def Let_def
    using chk sc seqs labels msa upd sel len
    by (cases "numAtoms e = 0") (simp_all add: numSelected_def e1_def e2_def w_def)
  then show ?thesis using e2 by simp
qed

text \<open>
  Claim C3: in an ensemble with an active atom-subset selection \<open>ix\<close> (distinct indices
  into the reference), appending a coordinate frame whose atom count equals the
  selection size stores a frame of the full atom count that holds the supplied
  coordinates at the selected indices and the current reference coordinates at every
  other index. The first part says so for every call that returns, whatever weights,
  label, degeneracy flag and sequence it is given; the second part says that the call
  with default weights and no sequence does return on a well-formed ensemble, and adds
  one frame.
\<close>

theorem addCoordset_selection_sized_frame:
  assumes sel: "self_indices e = Some ix" and ref: "self_coords e = Some ref"
    and len: "length f = length ix" and dist: "distinct ix"
    and rng: "\<forall>i\<in>set ix. i < length ref"
  shows "(addCoordset e (Frame2 f) weights label degeneracy sequence = Inr e' \<longrightarrow>
            (\<exists>stored.
               self_confs e' = Some ((case self_confs e of None \<Rightarrow> [] | Some cs \<Rightarrow> cs) @ [stored]) \<and>
               length stored = length ref \<and>
               (\<forall>k<length ix. stored ! (ix ! k) = f ! k) \<and>
               (\<forall>a<length ref. a \<notin> set ix \<longrightarrow> stored ! a = ref ! a))) \<and>
         (well_formed e \<and> self_msa e = None \<and> self_atoms e = None \<longrightarrow>
            (\<exists>e''. addCoordset e (Frame2 f) None label degeneracy SNone = Inr e'' \<and>
               self_n_csets e'' = self_n_csets e + 1))"
proof (intro conjI impI)
  assume ok: "addCoordset e (Frame2 f) weights label degeneracy sequence = Inr e'"
  let ?stored = "scatter ref ix f"
  have "self_confs e' = Some ((case self_confs e of None \<Rightarrow> [] | Some cs \<Rightarrow> cs) @ [?stored])"
    using sel ref len rng ok by (rule addCoordset_Frame2_stored)
  moreover have "length ?stored = length ref" by (rule scatter_length)
  moreover have "\<forall>k<length ix. ?stored ! (ix ! k) = f ! k"
    using scatter_hit[OF dist len rng] by simp
  moreover have "\<forall>a<length ref. a \<notin> set ix \<longrightarrow> ?stored ! a = ref ! a"
    by (simp add: scatter_other)
  ultimately show "\<exists>stored.
               self_confs e' = Some ((case self_confs e of None \<Rightarrow> [] | Some cs \<Rightarrow> cs) @ [stored]) \<and>
               length stored = length ref \<and>
               (\<forall>k<length ix. stored ! (ix ! k) = f ! k) \<and>
               (\<forall>a<length ref. a \<notin> set ix \<longrightarrow> stored ! a = ref ! a)"
    by blast
next
  assume "well_formed e \<and> self_msa e = None \<and> self_atoms e = None"
  then show "\<exists>e''. addCoordset e (Frame2 f) None label degeneracy SNone = Inr e'' \<and>
               self_n_csets e'' = self_n_csets e + 1"
    using addCoordset_Frame2_succeeds[OF _ sel len] by blast
qed


text \<open>
  The theorem at \<open>ens_ten\<close>: ten atoms, the selection \<open>[2, 4, 6]\<close>, a frame of three
  points.
\<close>

theorem addCoordset_selection_sized_frame_witness:
  "\<exists>e' stored.
      addCoordset ens_ten (Frame2 [(1, 1, 1), (2, 2, 2), (3, 3, 3)]) None (LStr ''x'') False SNone
        = Inr e' \<and>
      self_n_csets e' = 2 \<and> self_confs e' = Some [line10, stored] \<and> length stored = 10 \<and>
      stored ! 2 = (1, 1, 1) \<and> stored ! 4 = (2, 2, 2) \<and> stored ! 6 = (3, 3, 3) \<and>
      stored ! 0 = (0, 0, 0) \<and> stored ! 3 = (3, 0, 0) \<and> stored ! 9 = (9, 0, 0)"
proof -
  let ?f = "[(1, 1, 1), (2, 2, 2), (3, 3, 3)] :: frame"
  have h: "self_indices ens_ten = Some [2, 4, 6]" "self_coords ens_ten = Some line10"
    "length ?f = length [2, 4, 6 :: nat]" "distinct [2, 4, 6 :: nat]"
    "\<forall>i\<in>set [2, 4, 6 :: nat]. i < length line10"
    by (simp_all add: ens_ten_def line10_def)
  have wf: "well_formed ens_ten \<and> self_msa ens_ten = None \<and> self_atoms ens_ten = None"
    by (simp add: well_formed_def ens_ten_def line10_def)
  note inst = addCoordset_selection_sized_frame[OF h, of None "LStr ''x''" False SNone]
  from inst wf obtain e' where
    run: "addCoordset ens_ten (Frame2 ?f) None (LStr ''x'') False SNone = Inr e'"
    and n: "self_n_csets e' = self_n_csets ens_ten + 1"
    by blast
  from inst[of e'] run obtain stored where
    st: "self_confs e' = Some ((case self_confs ens_ten of None \<Rightarrow> [] | Some cs \<Rightarrow> cs) @ [stored])"
      "length stored = length line10"
      "\<forall>k<length [2, 4, 6 :: nat]. stored ! ([2, 4, 6] ! k) = ?f ! k"
      "\<forall>a<length line10. a \<notin> set [2, 4, 6 :: nat] \<longrightarrow> stored ! a = line10 ! a"
    by blast
  have hit: "stored ! 2 = (1, 1, 1)" "stored ! 4 = (2, 2, 2)" "stored ! 6 = (3, 3, 3)"
    using st(3)[rule_format, of 0] st(3)[rule_format, of 1] st(3)[rule_format, of 2] by simp_all
  have other: "stored ! 0 = (0, 0, 0)" "stored ! 3 = (3, 0, 0)" "stored ! 9 = (9, 0, 0)"
    using st(4)[rule_format, of 0] st(4)[rule_format, of 3] st(4)[rule_format, of 9]
    by (simp_all add: line10_def)
  have "self_confs e' = Some [line10, stored]" "self_n_csets e' = 2" "length stored = 10"
    using st(1,2) n by (simp_all add: ens_ten_def line10_def)
  then show ?thesis using run hit other by blast
qed

text \<open>
  Claim C4 says that a degenerate append of a stack adds exactly one frame, one weight row
  and one label, whatever the depth of the stack. When the stack has the size of the
  active selection, the buffer is built with \<^verbatim>\<open>np.repeat(..., n_csets, axis=0)\<close>, the full
  depth of the input, and the first frame is broadcast into every row of it: a stack of
  two frames appended to \<open>ens_sel\<close> with \<^verbatim>\<open>degeneracy=True\<close> adds two frames, one weight
  row and one label, and the frame count goes up by one.
\<close>

theorem addCoordset_degenerate_selection_sized_stack:
  "addCoordset ens_sel (Stack3 2 [[(1, 2, 3), (4, 5, 6)], [(7, 7, 7), (8, 8, 8)]]) None
     (LStr ''x'') True SNone
   = Inr (ens_sel\<lparr>self_labels := [''a'', ''b'', ''x''],
                  self_confs := Some [[(0, 0, 0), (1, 0, 0), (0, 1, 0)],
                                      [(5, 5, 5), (2, 0, 0), (0, 3, 0)],
                                      [(1, 2, 3), (1, 0, 0), (4, 5, 6)],
                                      [(1, 2, 3), (1, 0, 0), (4, 5, 6)]],
                  self_weights := Some [[1, 1, 1], [0, 1, 1], [1, 1, 1]],
                  self_n_csets := 3\<rparr>)"
  by (simp add: addCoordset_def ens_sel_def numAtoms_def numSelected_def numCoordsets_def
      checkCoords_def scatter_all_def resolve_seqs_def label_or_unknown_def make_labels_def
      update_msa_def update_coordinates_def concatenate_def shape1_def Let_def numeral_eq_Suc)

text \<open>
  Claim C6 says that a call that fails validation leaves the ensemble unchanged, atom
  count included. \<^verbatim>\<open>self._n_atoms = n_nodes\<close> is assigned before the weights, the
  sequences and the labels are checked: on a new ensemble, a stack of two frames with a
  list of one label raises \<^verbatim>\<open>ValueError\<close>, and the atom count has changed from 0 to 1.
\<close>

theorem addCoordset_label_error_fixes_atom_count:
  "addCoordset ens_new (Stack3 1 [[(1, 2, 3)], [(4, 5, 6)]]) None (LList [''a'']) False SNone
   = Inl (ValueError, ens_new\<lparr>self_n_atoms := 1\<rparr>)"
  by (simp add: addCoordset_def ens_new_def numAtoms_def numSelected_def numCoordsets_def
      checkCoords_def resolve_seqs_def label_or_unknown_def make_labels_def Let_def)

text \<open>
  Claim C9 says that with the weights omitted every appended frame gets weight 1 for every
  atom, also when the call is the first data added and fixes the atom count. The
  default weights are \<^verbatim>\<open>np.ones((n_csets, n_atoms, 1))\<close> with \<^verbatim>\<open>n_atoms\<close> read before the
  atom count is fixed: on a new ensemble it is 0, and the frame of two atoms is stored
  with a weight row of no entries.
\<close>

theorem addCoordset_first_frame_default_weights:
  "addCoordset ens_new (Frame2 [(1, 2, 3), (4, 5, 6)]) None LNone False SNone
   = Inr (ens_new\<lparr>self_n_atoms := 2, self_labels := [''Unknown''],
                  self_confs := Some [[(1, 2, 3), (4, 5, 6)]],
                  self_weights := Some [[]], self_n_csets := 1\<rparr>)"
  by (simp add: addCoordset_def ens_new_def numAtoms_def numSelected_def numCoordsets_def
      checkCoords_def resolve_seqs_def label_or_unknown_def make_labels_def update_msa_def
      update_coordinates_def Let_def)

section \<open>Properties of \<^verbatim>\<open>iterpose\<close>\<close>

text \<open>
  Claim C7: the coordinate arrays that the convergence loop mutates are not the ones
  \<^verbatim>\<open>iterpose\<close> leaves behind. When the loop ends in \<open>e1\<close>, the frames \<open>confs\<close> stored
  before the loop are restored and superposed once, with tracking, onto the reference
  the loop converged to: frame \<open>i\<close> of the result is the pre-loop frame \<open>i\<close> moved by the
  transformation \<open>calcT\<close> computes for it against the reference and weights of \<open>e1\<close>, and
  that transformation is entry \<open>i\<close> of the history. Nothing of the frames as the loop left
  them enters the result.
\<close>

theorem iterpose_restores_and_superposes:
  assumes pre: "self_confs e = Some confs"
    and loop: "Ensemble_iterpose rmsd e = Some (Inr e1)"
    and wf: "well_formed (e1\<lparr>self_confs := Some confs\<rparr>)"
  shows "iterpose Ensemble_iterpose calcT rmsd e
           = Some (superpose calcT (e1\<lparr>self_confs := Some confs\<rparr>)) \<and>
         (\<exists>cs2 ts.
            iterpose Ensemble_iterpose calcT rmsd e
              = Some (Inr (e1\<lparr>self_confs := Some cs2, self_trans := Some ts\<rparr>)) \<and>
            length ts = self_n_csets e1 \<and> length cs2 = self_n_csets e1 \<and>
            (\<forall>i<self_n_csets e1.
               ts ! i = transform_matrix (frame_transform calcT (e1\<lparr>self_confs := Some confs\<rparr>) i) \<and>
               cs2 ! i =
                 map (move_point (fst (frame_transform calcT (e1\<lparr>self_confs := Some confs\<rparr>) i))
                                 (snd (frame_transform calcT (e1\<lparr>self_confs := Some confs\<rparr>) i)))
                     (confs ! i)))"
proof
  show run: "iterpose Ensemble_iterpose calcT rmsd e
           = Some (superpose calcT (e1\<lparr>self_confs := Some confs\<rparr>))"
    using pre loop by (simp add: iterpose_def)
  let ?e = "e1\<lparr>self_confs := Some confs\<rparr>"
  from superpose_impl_tracked[OF wf, of calcT] obtain cs2 ts where
    r: "superpose_impl calcT True ?e = Inr (?e\<lparr>self_confs := Some cs2, self_trans := Some ts\<rparr>)"
      "length ts = self_n_csets ?e" "length cs2 = self_n_csets ?e"
      "\<forall>i<self_n_csets ?e.
          ts ! i = transform_matrix (frame_transform calcT ?e i) \<and>
          cs2 ! i = map (move_point (fst (frame_transform calcT ?e i))
                                    (snd (frame_transform calcT ?e i)))
                      (the (self_confs ?e) ! i)"
    by blast
  have "iterpose Ensemble_iterpose calcT rmsd e
          = Some (Inr (e1\<lparr>self_confs := Some cs2, self_trans := Some ts\<rparr>))"
    using run r(1) by (simp add: superpose_def)
  then show "\<exists>cs2 ts.
            iterpose Ensemble_iterpose calcT rmsd e
              = Some (Inr (e1\<lparr>self_confs := Some cs2, self_trans := Some ts\<rparr>)) \<and>
            length ts = self_n_csets e1 \<and> length cs2 = self_n_csets e1 \<and>
            (\<forall>i<self_n_csets e1.
               ts ! i = transform_matrix (frame_transform calcT ?e i) \<and>
               cs2 ! i =
                 map (move_point (fst (frame_transform calcT ?e i))
                                 (snd (frame_transform calcT ?e i)))
                     (confs ! i))"
    using r(2,3,4) by auto
qed

text \<open>
  The theorem at \<open>ens_sel\<close> with the stand-in loop: the loop leaves every frame at the
  origin and the reference shifted by 1 along x; the result holds the frames stored
  before the loop, each moved so that its first selected atom lies on the first selected
  atom of the shifted reference, and the two transformations.
\<close>

theorem iterpose_restores_and_superposes_witness:
  "iterpose loop_demo calcT_first (1 / 10000) ens_sel
     = Some (Inr (ens_sel\<lparr>self_coords := Some [(1, 0, 0), (2, 0, 0), (1, 1, 0)],
                          self_confs := Some [[(1, 0, 0), (2, 0, 0), (1, 1, 0)],
                                              [(1, 0, 0), (-2, -5, -5), (-4, -2, -5)]],
                          self_trans := Some [[[1, 0, 0, 1], [0, 1, 0, 0], [0, 0, 1, 0], [0, 0, 0, 0]],
                                              [[1, 0, 0, -4], [0, 1, 0, -5], [0, 0, 1, -5],
                                               [0, 0, 0, 0]]]\<rparr>))"
proof -
  let ?confs = "[[(0, 0, 0), (1, 0, 0), (0, 1, 0)], [(5, 5, 5), (2, 0, 0), (0, 3, 0)]] :: frame list"
  let ?e1 = "ens_sel\<lparr>self_coords := Some [(1, 0, 0), (2, 0, 0), (1, 1, 0)],
                     self_confs := Some [[(0, 0, 0), (0, 0, 0), (0, 0, 0)],
                                         [(0, 0, 0), (0, 0, 0), (0, 0, 0)]],
                     self_trans := None\<rparr>"
  let ?e = "?e1\<lparr>self_confs := Some ?confs\<rparr>"
  have pre: "self_confs ens_sel = Some ?confs" by (simp add: ens_sel_def)
  have loop: "loop_demo (1 / 10000) ens_sel = Some (Inr ?e1)"
    by (simp add: loop_demo_def ens_sel_def)
  have wf: "well_formed ?e" by (simp add: well_formed_def ens_sel_def)
  from iterpose_restores_and_superposes
         [of ens_sel ?confs loop_demo "1 / 10000" ?e1 calcT_first, OF pre loop wf]
  obtain cs2 ts where
    r: "iterpose loop_demo calcT_first (1 / 10000) ens_sel
          = Some (Inr (?e1\<lparr>self_confs := Some cs2, self_trans := Some ts\<rparr>))"
      "length ts = self_n_csets ?e1" "length cs2 = self_n_csets ?e1"
      "\<forall>i<self_n_csets ?e1.
         ts ! i = transform_matrix (frame_transform calcT_first ?e i) \<and>
         cs2 ! i = map (move_point (fst (frame_transform calcT_first ?e i))
                                   (snd (frame_transform calcT_first ?e i))) (?confs ! i)"
    by blast
  have n: "self_n_csets ?e1 = 2" by (simp add: ens_sel_def)
  have t0: "frame_transform calcT_first ?e 0 = (((1, 0, 0), (0, 1, 0), (0, 0, 1)), (1, 0, 0))"
    and t1: "frame_transform calcT_first ?e 1 = (((1, 0, 0), (0, 1, 0), (0, 0, 1)), (-4, -5, -5))"
    by (simp_all add: frame_transform_def calcT_first_def ens_sel_def select_def)
  have e0: "ts ! 0 = [[1, 0, 0, 1], [0, 1, 0, 0], [0, 0, 1, 0], [0, 0, 0, 0]]"
    "cs2 ! 0 = [(1, 0, 0), (2, 0, 0), (1, 1, 0)]"
    using r(4)[rule_format, of 0] unfolding n t0
    by (simp_all add: transform_matrix_def move_point_def dot3_def)
  have e1: "ts ! 1 = [[1, 0, 0, -4], [0, 1, 0, -5], [0, 0, 1, -5], [0, 0, 0, 0]]"
    "cs2 ! 1 = [(1, 0, 0), (-2, -5, -5), (-4, -2, -5)]"
    using r(4)[rule_format, of 1] unfolding n t1
    by (simp_all add: transform_matrix_def move_point_def dot3_def)
  have "ts = [ts ! 0, ts ! 1]" "cs2 = [cs2 ! 0, cs2 ! 1]"
    using r(2,3) unfolding n by (auto simp: list_eq_iff_nth_eq less_Suc_eq numeral_2_eq_2)
  then have "ts = [[[1, 0, 0, 1], [0, 1, 0, 0], [0, 0, 1, 0], [0, 0, 0, 0]],
                   [[1, 0, 0, -4], [0, 1, 0, -5], [0, 0, 1, -5], [0, 0, 0, 0]]]"
    "cs2 = [[(1, 0, 0), (2, 0, 0), (1, 1, 0)], [(1, 0, 0), (-2, -5, -5), (-4, -2, -5)]]"
    using e0 e1 by simp_all
  then show ?thesis using r(1) by simp
qed

section \<open>Properties of \<^verbatim>\<open>getMSFs\<close>\<close>

subsection \<open>From the arrays to one atom\<close>

text \<open>
  On a well-formed ensemble every elementwise operation of \<^verbatim>\<open>getMSFs\<close> meets operands
  of one shape, so nothing is raised, and entry \<open>k\<close> of each array is what \<open>acc_mean\<close>,
  \<open>acc_ssqf\<close> and \<open>atom_msf\<close> compute from the frames of atom \<open>k\<close> alone.
\<close>

lemma bcast2_same: "length xs = length ys \<Longrightarrow> bcast2 f xs ys = Inr (map2 f xs ys)"
  by (simp add: bcast2_def)

lemma inplace_same: "length xs = length ys \<Longrightarrow> inplace f xs ys = Inr (map2 f xs ys)"
  by (simp add: inplace_def)

lemma mean_loop_atoms:
  assumes "length mean = n" "\<forall>c\<in>set confs. length c = n" "i + length confs \<le> length weights"
    and "\<forall>j<length confs. length (weights ! (i + j)) = n"
  shows "mean_loop rnd weights confs i mean =
           Inr (map (\<lambda>a. acc_mean rnd
                            (map (\<lambda>j. (confs ! j ! a, weights ! (i + j) ! a)) [0..<length confs])
                            (mean ! a))
                    [0..<n])"
  using assms
proof (induction confs arbitrary: i mean)
  case Nil
  have "map ((!) mean) [0..<length mean] = mean" by (rule map_nth)
  then show ?case using Nil.prems(1) by simp
next
  case (Cons conf confs)
  let ?w = "weights ! i"
  let ?t = "map2 (vmask rnd) (map embed conf) ?w"
  let ?mean' = "map2 (vadd rnd) mean ?t"
  have lw: "length ?w = n" using Cons.prems(4)[rule_format, of 0] by simp
  have lc: "length conf = n" using Cons.prems(2) by simp
  have i: "i < length weights" using Cons.prems(3) by simp
  have s1: "row_at weights i = Inr ?w" using i by (simp add: row_at_def)
  have s2: "bcast2 (vmask rnd) (map embed conf) ?w = Inr ?t"
    using lw lc by (simp add: bcast2_same)
  have s3: "inplace (vadd rnd) mean ?t = Inr ?mean'"
    using lw lc Cons.prems(1) by (simp add: inplace_same)
  have lm: "length ?mean' = n" using lw lc Cons.prems(1) by simp
  have p2: "\<forall>c\<in>set confs. length c = n" using Cons.prems(2) by simp
  have p3: "Suc i + length confs \<le> length weights" using Cons.prems(3) by simp
  have p4: "\<forall>j<length confs. length (weights ! (Suc i + j)) = n"
    using Cons.prems(4)[rule_format, of "Suc j" for j] by simp
  have IH: "mean_loop rnd weights confs (Suc i) ?mean' =
           Inr (map (\<lambda>a. acc_mean rnd
                            (map (\<lambda>j. (confs ! j ! a, weights ! (Suc i + j) ! a)) [0..<length confs])
                            (?mean' ! a))
                    [0..<n])"
    using lm p2 p3 p4 by (rule Cons.IH)
  have step: "acc_mean rnd
                (map (\<lambda>j. (confs ! j ! a, weights ! (Suc i + j) ! a)) [0..<length confs])
                (?mean' ! a) =
              acc_mean rnd
                (map (\<lambda>j. ((conf # confs) ! j ! a, weights ! (i + j) ! a)) [0..<length (conf # confs)])
                (mean ! a)" if "a < n" for a
  proof -
    have "?mean' ! a = vadd rnd (mean ! a) (vmask rnd (embed (conf ! a)) (?w ! a))"
      using that lw lc Cons.prems(1) by simp
    then show ?thesis by (simp add: map_upt_Suc del: upt_Suc)
  qed
  show ?case
    using s1 s2 s3 IH step by (simp del: upt_Suc)
qed


lemma ssqf_loop_atoms:
  assumes "length ssqf = n" "length mean = n" "\<forall>c\<in>set confs. length c = n"
    and "i + length confs \<le> length weights"
    and "\<forall>j<length confs. length (weights ! (i + j)) = n"
  shows "ssqf_loop rnd weights mean confs i ssqf =
           Inr (map (\<lambda>a. acc_ssqf rnd (mean ! a)
                            (map (\<lambda>j. (confs ! j ! a, weights ! (i + j) ! a)) [0..<length confs])
                            (ssqf ! a))
                    [0..<n])"
  using assms
proof (induction confs arbitrary: i ssqf)
  case Nil
  have "map ((!) ssqf) [0..<length ssqf] = ssqf" by (rule map_nth)
  then show ?case using Nil.prems(1) by simp
next
  case (Cons conf confs)
  let ?w = "weights ! i"
  let ?d = "map2 (vsub rnd) (map embed conf) mean"
  let ?t = "map2 (vmask rnd) ?d ?w"
  let ?ssqf' = "map2 (vadd rnd) ssqf (map (vsq rnd) ?t)"
  have lw: "length ?w = n" using Cons.prems(5)[rule_format, of 0] by simp
  have lc: "length conf = n" using Cons.prems(3) by simp
  have i: "i < length weights" using Cons.prems(4) by simp
  have s0: "bcast2 (vsub rnd) (map embed conf) mean = Inr ?d"
    using lc Cons.prems(2) by (simp add: bcast2_same)
  have s1: "row_at weights i = Inr ?w" using i by (simp add: row_at_def)
  have s2: "bcast2 (vmask rnd) ?d ?w = Inr ?t"
    using lw lc Cons.prems(2) by (simp add: bcast2_same)
  have s3: "inplace (vadd rnd) ssqf (map (vsq rnd) ?t) = Inr ?ssqf'"
    using lw lc Cons.prems(1,2) by (simp add: inplace_same)
  have lm: "length ?ssqf' = n" using lw lc Cons.prems(1,2) by simp
  have p2: "\<forall>c\<in>set confs. length c = n" using Cons.prems(3) by simp
  have p3: "Suc i + length confs \<le> length weights" using Cons.prems(4) by simp
  have p4: "\<forall>j<length confs. length (weights ! (Suc i + j)) = n"
    using Cons.prems(5)[rule_format, of "Suc j" for j] by simp
  have IH: "ssqf_loop rnd weights mean confs (Suc i) ?ssqf' =
           Inr (map (\<lambda>a. acc_ssqf rnd (mean ! a)
                            (map (\<lambda>j. (confs ! j ! a, weights ! (Suc i + j) ! a)) [0..<length confs])
                            (?ssqf' ! a))
                    [0..<n])"
    using lm Cons.prems(2) p2 p3 p4 by (rule Cons.IH)
  have step: "acc_ssqf rnd (mean ! a)
                (map (\<lambda>j. (confs ! j ! a, weights ! (Suc i + j) ! a)) [0..<length confs])
                (?ssqf' ! a) =
              acc_ssqf rnd (mean ! a)
                (map (\<lambda>j. ((conf # confs) ! j ! a, weights ! (i + j) ! a)) [0..<length (conf # confs)])
                (ssqf ! a)" if "a < n" for a
  proof -
    have "?ssqf' ! a =
            vadd rnd (ssqf ! a) (vsq rnd (vmask rnd (vsub rnd (embed (conf ! a)) (mean ! a)) (?w ! a)))"
      using that lw lc Cons.prems(1,2) by simp
    then show ?thesis by (simp add: map_upt_Suc del: upt_Suc)
  qed
  show ?case
    using s0 s1 s2 s3 IH step by (simp del: upt_Suc)
qed


lemma map2_upt: "map2 f (map g [0..<n]) (map h [0..<n]) = map (\<lambda>a. f (g a) (h a)) [0..<n]"
  by (simp add: list_eq_iff_nth_eq)

lemma count_column:
  "length (filter (\<lambda>r. r ! a) rows)
     = length (filter snd (map (\<lambda>j. (c j, rows ! j ! a)) [0..<length rows]))"
proof -
  have "filter (\<lambda>r. r ! a) (map ((!) rows) [0..<length rows])
          = map ((!) rows) (filter (\<lambda>j. rows ! j ! a) [0..<length rows])"
    by (simp add: filter_map comp_def)
  then have "length (filter (\<lambda>r. r ! a) rows) = length (filter (\<lambda>j. rows ! j ! a) [0..<length rows])"
    by (simp add: map_nth)
  also have "\<dots> = length (filter snd (map (\<lambda>j. (c j, rows ! j ! a)) [0..<length rows]))"
    by (simp add: filter_map comp_def)
  finally show ?thesis .
qed

lemma shape1_rows: "rows \<noteq> [] \<Longrightarrow> \<forall>r\<in>set rows. length r = n \<Longrightarrow> shape1 rows = n"
  by (cases rows) (simp_all add: shape1_def)

lemma msf_arrays_well_formed:
  assumes "self_coords e = Some ref" "self_confs e = Some cs" "self_weights e = Some ws"
    and "length ref = self_n_atoms e" "\<forall>f\<in>set cs. length f = self_n_atoms e"
    and "\<forall>w\<in>set ws. length w = self_n_atoms e"
    and "\<And>ix. self_indices e = Some ix \<Longrightarrow> \<forall>k\<in>set ix. k < self_n_atoms e"
  shows "msf_arrays e cs =
           Inr (Some (restrict (self_indices e) ref), map (restrict (self_indices e)) cs,
                mask_rows (map (restrict (self_indices e)) ws))"
proof (cases "self_indices e")
  case None
  then show ?thesis using assms(1-3) by (simp add: msf_arrays_def map_restrict_None)
next
  case (Some ix)
  have "take_cols ws ix = Inr (map (select ix) ws)" "take_cols cs ix = Inr (map (select ix) cs)"
    "take_idx ref ix = Inr (select ix ref)"
    using assms(7)[OF Some] assms(4-6) by (simp_all add: take_cols_ok take_idx_ok)
  then show ?thesis using assms(1-3) Some by (simp add: msf_arrays_def map_restrict_Some)
qed

lemma length_restrict:
  "length xs = n \<Longrightarrow> length ys = n \<Longrightarrow> length (restrict sel xs) = length (restrict sel ys)"
  by (cases sel) (simp_all add: select_def)

lemma getMSFs_atoms:
  assumes wf: "well_formed e" and frames: "0 < self_n_csets e"
  shows "getMSFs rnd e =
           Inr (Some (map (\<lambda>k. atom_msf rnd (atom_frames e k))
                        [0..<length (restrict (self_indices e) (the (self_coords e)))]))"
proof -
  from well_formedD[OF wf] obtain ref cs ws where f: "self_coords e = Some ref"
    "self_confs e = Some cs"
    "self_weights e = Some ws" "length ref = self_n_atoms e" "length cs = self_n_csets e"
    "length ws = self_n_csets e" "\<forall>f\<in>set cs. length f = self_n_atoms e"
    "\<forall>w\<in>set ws. length w = self_n_atoms e"
    and six: "\<And>ix. self_indices e = Some ix \<Longrightarrow> \<forall>k\<in>set ix. k < self_n_atoms e"
    by blast
  define sel where "sel = self_indices e"
  define ref' where "ref' = restrict sel ref"
  define cs' where "cs' = map (restrict sel) cs"
  define rows where "rows = mask_rows (map (restrict sel) ws)"
  define n where "n = length ref'"
  define m where "m = self_n_csets e"
  define fr where "fr = (\<lambda>a. map (\<lambda>j. (cs' ! j ! a, rows ! (0 + j) ! a)) [0..<length cs'])"
  define cnt where "cnt = (\<lambda>a. Fin (real (length (filter (\<lambda>r. r ! a) rows))))"
  define mean where "mean = map (\<lambda>a. vdiv rnd (acc_mean rnd (fr a) fzero3) (cnt a)) [0..<n]"
  have arrays: "msf_arrays e cs = Inr (Some ref', cs', rows)"
    unfolding ref'_def cs'_def rows_def sel_def
    using f(1,2,3,4,7,8) six by (rule msf_arrays_well_formed)
  have nn: "length ref' = n" by (simp add: n_def)
  have lcs: "length cs' = m" "length rows = m"
    using f by (simp_all add: cs'_def rows_def mask_rows_def m_def)
  have rcs: "\<forall>c\<in>set cs'. length c = n"
    using f(4,7) length_restrict[of _ "self_n_atoms e" ref sel]
    by (auto simp: cs'_def n_def ref'_def)
  have rrows: "\<forall>r\<in>set rows. length r = n"
    using f(4,8) length_restrict[of _ "self_n_atoms e" ref sel]
    by (auto simp: rows_def mask_rows_def n_def ref'_def)
  have rrows': "\<forall>j<length cs'. length (rows ! (0 + j)) = n"
    using rrows lcs by simp
  have "rows \<noteq> []" using lcs frames by (auto simp: m_def)
  then have sh: "shape1 rows = n" using rrows by (rule shape1_rows)
  have wsum: "map (\<lambda>n. Fin (real n)) (weightsum rows) = map cnt [0..<n]"
    by (simp add: weightsum_def sh cnt_def)
  have ml: "mean_loop rnd rows cs' 0 (replicate n fzero3)
              = Inr (map (\<lambda>a. acc_mean rnd (fr a) fzero3) [0..<n])"
    using mean_loop_atoms[of "replicate n fzero3" n cs' 0 rows rnd] rcs lcs rrows'
    by (simp add: fr_def)
  have dv: "inplace (vdiv rnd) (map (\<lambda>a. acc_mean rnd (fr a) fzero3) [0..<n]) (map cnt [0..<n])
              = Inr mean"
    by (simp add: inplace_same map2_upt mean_def)
  have lmean: "length mean = n" by (simp add: mean_def)
  have sl: "ssqf_loop rnd rows mean cs' 0 (replicate (length mean) fzero3)
              = Inr (map (\<lambda>a. acc_ssqf rnd (mean ! a) (fr a) fzero3) [0..<n])"
    using ssqf_loop_atoms[of "replicate n fzero3" n mean cs' 0 rows rnd] rcs lcs rrows' lmean
    by (simp add: fr_def)
  have fin: "bcast2 (fdiv rnd)
               (map (vsum rnd) (map (\<lambda>a. acc_ssqf rnd (mean ! a) (fr a) fzero3) [0..<n]))
               (map cnt [0..<n])
             = Inr (map (\<lambda>a. fdiv rnd (vsum rnd (acc_ssqf rnd (mean ! a) (fr a) fzero3)) (cnt a))
                      [0..<n])"
    by (simp add: bcast2_same list_eq_iff_nth_eq)
  have run: "getMSFs rnd e =
               Inr (Some (map (\<lambda>a. fdiv rnd (vsum rnd (acc_ssqf rnd (mean ! a) (fr a) fzero3)) (cnt a))
                            [0..<n]))"
    using f(2) arrays wsum ml dv sl fin nn by (simp add: getMSFs_def Let_def)
  have lrow: "length (restrict sel (ws ! x)) = n" if "x < m" for x
    using that f(4,6,8) length_restrict[of "ws ! x" "self_n_atoms e" ref sel]
    by (simp add: n_def ref'_def m_def)
  have fr_eq: "fr a = atom_frames e a" if "a < n" for a
    using f lcs that lrow
    by (simp add: fr_def atom_frames_def cs'_def rows_def mask_rows_def sel_def m_def)
  have each: "fdiv rnd (vsum rnd (acc_ssqf rnd (mean ! a) (fr a) fzero3)) (cnt a)
                = atom_msf rnd (atom_frames e a)" if a: "a < n" for a
  proof -
    have c: "cnt a = Fin (real (length (filter snd (fr a))))"
      unfolding cnt_def fr_def using count_column[of a rows "\<lambda>j. cs' ! j ! a"] lcs by simp
    have "mean ! a = vdiv rnd (acc_mean rnd (fr a) fzero3) (cnt a)"
      using a by (simp add: mean_def)
    then show ?thesis using c fr_eq[OF a] by (simp add: atom_msf_def Let_def)
  qed
  have "n = length (restrict (self_indices e) (the (self_coords e)))"
    using f(1) by (simp add: n_def ref'_def sel_def)
  then show ?thesis using run each by simp
qed


subsection \<open>Atoms that no frame includes\<close>

text \<open>
  With no including frame the count is 0 and the mean is \<open>0 / 0\<close>, which is NaN in every
  coordinate; NaN then stays in the sum of squares and in the quotient.
\<close>

lemma acc_mean_excluded:
  assumes "rnd 0 = 0" "\<forall>p\<in>set frames. \<not> snd p"
  shows "acc_mean rnd frames fzero3 = fzero3"
  using assms(2)
proof (induction frames)
  case Nil
  then show ?case by simp
next
  case (Cons p frames)
  obtain x y z b where p: "p = ((x, y, z), b)" by (cases p) auto
  have "vadd rnd fzero3 (vmask rnd (embed (x, y, z)) False) = fzero3"
    using assms(1) by (simp add: vadd_def vmask_def embed_def fzero3_def)
  then show ?case using Cons p by simp
qed

lemma acc_ssqf_nan: "acc_ssqf rnd nan3 frames nan3 = nan3"
proof (induction frames)
  case Nil
  then show ?case by simp
next
  case (Cons p frames)
  obtain x y z b where p: "p = ((x, y, z), b)" by (cases p) auto
  have "vadd rnd nan3 (vsq rnd (vmask rnd (vsub rnd (embed (x, y, z)) nan3) b)) = nan3"
    by (simp add: vadd_def vsq_def vmask_def vsub_def fsub_def embed_def nan3_def)
  then show ?case using Cons p by simp
qed

lemma acc_ssqf_nan_start:
  "acc_ssqf rnd nan3 frames fzero3 = (if frames = [] then fzero3 else nan3)"
proof (cases frames)
  case Nil
  then show ?thesis by simp
next
  case (Cons p rest)
  obtain x y z b where p: "p = ((x, y, z), b)" by (cases p) auto
  have "vadd rnd fzero3 (vsq rnd (vmask rnd (vsub rnd (embed (x, y, z)) nan3) b)) = nan3"
    by (simp add: vadd_def vsq_def vmask_def vsub_def fsub_def embed_def nan3_def fzero3_def)
  then show ?thesis using Cons p by (simp add: acc_ssqf_nan)
qed

lemma atom_msf_excluded:
  assumes "rnd 0 = 0" "included frames = []"
  shows "atom_msf rnd frames = NaN"
proof -
  have none: "\<forall>p\<in>set frames. \<not> snd p"
    using assms(2) by (auto simp: included_def filter_empty_conv)
  then have cnt: "filter snd frames = []" by (simp add: filter_empty_conv)
  have mean: "vdiv rnd (acc_mean rnd frames fzero3) (Fin 0) = nan3"
    using acc_mean_excluded[of rnd frames, OF assms(1) none] by (simp add: vdiv_def fzero3_def nan3_def)
  have "acc_ssqf rnd nan3 frames fzero3 = (if frames = [] then fzero3 else nan3)"
    by (rule acc_ssqf_nan_start)
  then have "fdiv rnd (vsum rnd (acc_ssqf rnd nan3 frames fzero3)) (Fin 0) = NaN"
    using assms(1) by (cases "frames = []") (simp_all add: vsum_def fzero3_def nan3_def)
  then show ?thesis using cnt mean by (simp add: atom_msf_def)
qed

lemma included_Cons:
  "included ((c, b) # frames) = (if b then c # included frames else included frames)"
  by (simp add: included_def)

lemma acc_mean_exact:
  "acc_mean (\<lambda>x. x) frames (Fin a0, Fin a1, Fin a2) =
     (Fin (a0 + sum_list (map fst (included frames))),
      Fin (a1 + sum_list (map (\<lambda>p. fst (snd p)) (included frames))),
      Fin (a2 + sum_list (map (\<lambda>p. snd (snd p)) (included frames))))"
proof (induction frames arbitrary: a0 a1 a2)
  case Nil
  then show ?case by (simp add: included_def)
next
  case (Cons p frames)
  obtain x y z b where p: "p = ((x, y, z), b)" by (cases p) auto
  have "vadd (\<lambda>x. x) (Fin a0, Fin a1, Fin a2) (vmask (\<lambda>x. x) (embed (x, y, z)) b)
          = (Fin (a0 + x * of_bool b), Fin (a1 + y * of_bool b), Fin (a2 + z * of_bool b))"
    by (simp add: vadd_def vmask_def embed_def)
  then show ?case using Cons p by (simp add: included_Cons)
qed

lemma acc_ssqf_exact:
  "acc_ssqf (\<lambda>x. x) (Fin m0, Fin m1, Fin m2) frames (Fin a0, Fin a1, Fin a2) =
     (Fin (a0 + sum_list (map (\<lambda>p. (fst p - m0)\<^sup>2) (included frames))),
      Fin (a1 + sum_list (map (\<lambda>p. (fst (snd p) - m1)\<^sup>2) (included frames))),
      Fin (a2 + sum_list (map (\<lambda>p. (snd (snd p) - m2)\<^sup>2) (included frames))))"
proof (induction frames arbitrary: a0 a1 a2)
  case Nil
  then show ?case by (simp add: included_def)
next
  case (Cons p frames)
  obtain x y z b where p: "p = ((x, y, z), b)" by (cases p) auto
  have "vadd (\<lambda>x. x) (Fin a0, Fin a1, Fin a2)
          (vsq (\<lambda>x. x) (vmask (\<lambda>x. x) (vsub (\<lambda>x. x) (embed (x, y, z)) (Fin m0, Fin m1, Fin m2)) b))
          = (Fin (a0 + (x - m0)\<^sup>2 * of_bool b), Fin (a1 + (y - m1)\<^sup>2 * of_bool b),
             Fin (a2 + (z - m2)\<^sup>2 * of_bool b))"
    by (cases b) (simp_all add: vadd_def vsq_def vmask_def vsub_def fsub_def embed_def power2_eq_square)
  then show ?case using Cons p by (simp add: included_Cons)
qed

lemma length_included: "length (included frames) = length (filter snd frames)"
  by (simp add: included_def)

lemma atom_msf_exact:
  "atom_msf (\<lambda>x. x) frames =
     (if included frames = [] then NaN else Fin (position_variance (included frames)))"
proof (cases "included frames = []")
  case True
  then show ?thesis by (simp add: atom_msf_excluded)
next
  case False
  let ?ps = "included frames"
  let ?n = "real (length ?ps)"
  have n: "?n \<noteq> 0" using False by simp
  obtain m0 m1 m2 where mu: "mean_position ?ps = (m0, m1, m2)" by (cases "mean_position ?ps")
  have mean: "vdiv (\<lambda>x. x) (acc_mean (\<lambda>x. x) frames fzero3) (Fin ?n) = (Fin m0, Fin m1, Fin m2)"
    using n mu unfolding fzero3_def acc_mean_exact by (simp add: vdiv_def mean_position_def)
  have sq: "sum_list (map (\<lambda>p. sq_dist p (m0, m1, m2)) ?ps)
              = sum_list (map (\<lambda>p. (fst p - m0)\<^sup>2) ?ps)
                + sum_list (map (\<lambda>p. (fst (snd p) - m1)\<^sup>2) ?ps)
                + sum_list (map (\<lambda>p. (snd (snd p) - m2)\<^sup>2) ?ps)"
    by (simp add: sq_dist_def sum_list_addf)
  have "fdiv (\<lambda>x. x) (vsum (\<lambda>x. x) (acc_ssqf (\<lambda>x. x) (Fin m0, Fin m1, Fin m2) frames fzero3)) (Fin ?n)
          = Fin (position_variance ?ps)"
    using n unfolding fzero3_def acc_ssqf_exact
    by (simp add: vsum_def position_variance_def mu sq)
  then show ?thesis using False mean by (simp add: atom_msf_def length_included)
qed

lemma sum_list_const:
  "\<forall>p\<in>set ps. f p = (v::real) \<Longrightarrow> sum_list (map f ps) = real (length ps) * v"
  by (induction ps) (simp_all add: algebra_simps)

lemma position_variance_same:
  assumes "ps \<noteq> []" "\<forall>p\<in>set ps. p = c"
  shows "position_variance ps = 0"
proof -
  have n: "real (length ps) \<noteq> 0" using assms(1) by simp
  have "mean_position ps = c"
    using assms(2) n
    by (cases c) (simp add: mean_position_def sum_list_const[where v="fst c"]
        sum_list_const[where v="fst (snd c)"] sum_list_const[where v="snd (snd c)"])
  then have "\<forall>p\<in>set ps. sq_dist p (mean_position ps) = 0"
    using assms(2) by (simp add: sq_dist_def)
  then have "sum_list (map (\<lambda>p. sq_dist p (mean_position ps)) ps) = real (length ps) * 0"
    by (rule sum_list_const)
  then show ?thesis by (simp add: position_variance_def)
qed

subsection \<open>Rounding to double precision\<close>

text \<open>
  \<open>expo\<close> finds the binary exponent of a positive number when it has enough fuel, so
  \<open>round_double\<close> of a number between \<open>pow2 e\<close> and \<open>pow2 (e + 1)\<close> is the nearest
  multiple of \<open>pow2 (e - 52)\<close>, ties to even. The instances are the roundings met by \<^verbatim>\<open>getMSFs\<close> on
  \<open>ens_tenth\<close>.
\<close>

lemma pow2_pos: "0 < pow2 k"
  by (simp add: pow2_def)

lemma pow2_succ: "pow2 (k + 1) = 2 * pow2 k"
proof (cases "0 \<le> k")
  case True
  then have "nat (k + 1) = Suc (nat k)" by simp
  then show ?thesis using True by (simp add: pow2_def)
next
  case False
  show ?thesis
  proof (cases "k = - 1")
    case True
    then show ?thesis by (simp add: pow2_def)
  next
    case neq: False
    then have "nat (- k) = Suc (nat (- (k + 1)))" using False by simp
    then show ?thesis using False neq by (simp add: pow2_def)
  qed
qed

lemma pow2_mono: "a \<le> b \<Longrightarrow> pow2 a \<le> pow2 b"
proof (induction "nat (b - a)" arbitrary: b)
  case 0
  then show ?case by simp
next
  case (Suc n)
  then have "n = nat ((b - 1) - a)" "a \<le> b - 1" by simp_all
  then have "pow2 a \<le> pow2 (b - 1)" using Suc.hyps(1) by blast
  moreover have "pow2 b = 2 * pow2 (b - 1)" using pow2_succ[of "b - 1"] by simp
  ultimately show ?case using pow2_pos[of "b - 1"] by simp
qed

lemma pow2_0: "pow2 0 = 1" and pow2_1: "pow2 1 = 2"
  by (simp_all add: pow2_def)

lemma expo_fuel:
  assumes "pow2 e \<le> x" "x < pow2 (e + 1)" "\<bar>e\<bar> \<le> int n"
  shows "expo n x = e"
  using assms
proof (induction n arbitrary: x e)
  case 0
  then show ?case by simp
next
  case (Suc n)
  show ?case
  proof (cases "2 \<le> x")
    case True
    have "1 \<le> e"
    proof (rule ccontr)
      assume "\<not> 1 \<le> e"
      then have "pow2 (e + 1) \<le> pow2 1" by (intro pow2_mono) simp
      then show False using Suc.prems(2) True by (simp add: pow2_1)
    qed
    have up: "pow2 e = 2 * pow2 (e - 1)" "pow2 (e + 1) = 2 * pow2 e"
      using pow2_succ[of "e - 1"] pow2_succ[of e] by simp_all
    have "expo n (x / 2) = e - 1"
      using Suc.prems \<open>1 \<le> e\<close> up by (intro Suc.IH) simp_all
    then show ?thesis using True by simp
  next
    case False
    show ?thesis
    proof (cases "x < 1")
      case True
      have "e \<le> - 1"
      proof (rule ccontr)
        assume "\<not> e \<le> - 1"
        then have "pow2 0 \<le> pow2 e" by (intro pow2_mono) simp
        then show False using Suc.prems(1) True by (simp add: pow2_0)
      qed
      have a: "pow2 (e + 1) \<le> x * 2"
        using Suc.prems(1) pow2_succ[of e] by simp
      have b: "x * 2 < pow2 (e + 1 + 1)"
        using Suc.prems(2) pow2_succ[of "e + 1"] by simp
      have c: "\<bar>e + 1\<bar> \<le> int n"
        using Suc.prems(3) \<open>e \<le> - 1\<close> by simp
      have "expo n (x * 2) = e + 1"
        using a b c by (rule Suc.IH)
      then show ?thesis using True False by simp
    next
      case one: False
      have "e = 0"
      proof (rule ccontr)
        assume "e \<noteq> 0"
        then consider "1 \<le> e" | "e \<le> - 1" by linarith
        then show False
        proof cases
          case 1
          then have "pow2 1 \<le> pow2 e" by (intro pow2_mono)
          then show ?thesis using Suc.prems(1) False by (simp add: pow2_1)
        next
          case 2
          then have "pow2 (e + 1) \<le> pow2 0" by (intro pow2_mono) simp
          then show ?thesis using Suc.prems(2) one by (simp add: pow2_0)
        qed
      qed
      then show ?thesis using False one by simp
    qed
  qed
qed

lemma round_double_at:
  assumes "x \<noteq> 0" "pow2 e \<le> \<bar>x\<bar>" "\<bar>x\<bar> < pow2 (e + 1)" "\<bar>e\<bar> \<le> 2200"
    and "round_even (x / pow2 (e - 52)) = m"
  shows "round_double x = of_int m * pow2 (e - 52)"
proof -
  have "expo 2200 \<bar>x\<bar> = e"
    using assms(2,3,4) by (intro expo_fuel) simp_all
  then show ?thesis using assms(1,5) by (simp add: round_double_def)
qed

lemma rd0: "round_double 0 = 0" by (simp add: round_double_def)

lemma rd1: "round_double (3602879701896397 / 36028797018963968) = 3602879701896397 / 36028797018963968"
  using round_double_at[of "3602879701896397 / 36028797018963968" "- 4" 7205759403792794]
  by (simp add: pow2_def round_even_def)

lemma rd2: "round_double (3602879701896397 / 18014398509481984) = 3602879701896397 / 18014398509481984"
  using round_double_at[of "3602879701896397 / 18014398509481984" "- 3" 7205759403792794]
  by (simp add: pow2_def round_even_def)

lemma rd3: "round_double (10808639105689191 / 36028797018963968) = 1351079888211149 / 4503599627370496"
  using round_double_at[of "10808639105689191 / 36028797018963968" "- 2" 5404319552844596]
  by (simp add: pow2_def round_even_def)

lemma rd4: "round_double (1351079888211149 / 13510798882111488) = 7205759403792795 / 72057594037927936"
  using round_double_at[of "1351079888211149 / 13510798882111488" "- 4" 7205759403792795]
  by (simp add: pow2_def round_even_def)

lemma rd5: "round_double (- (1 / 72057594037927936)) = - (1 / 72057594037927936)"
  using round_double_at[of "- (1 / 72057594037927936)" "- 56" "- 4503599627370496"]
  by (simp add: pow2_def round_even_def)

lemma rd6: "round_double (1 / 5192296858534827628530496329220096) = 1 / 5192296858534827628530496329220096"
  using round_double_at[of "1 / 5192296858534827628530496329220096" "- 112" 4503599627370496]
  by (simp add: pow2_def round_even_def)

lemma rd7: "round_double (1 / 2596148429267413814265248164610048) = 1 / 2596148429267413814265248164610048"
  using round_double_at[of "1 / 2596148429267413814265248164610048" "- 111" 4503599627370496]
  by (simp add: pow2_def round_even_def)

lemma rd8: "round_double (3 / 5192296858534827628530496329220096) = 3 / 5192296858534827628530496329220096"
  using round_double_at[of "3 / 5192296858534827628530496329220096" "- 111" 6755399441055744]
  by (simp add: pow2_def round_even_def)

subsection \<open>The returned values\<close>

text \<open>
  Claim C1, as stated, for every ensemble with at least one frame: an atom with weight
  \<open>> 0\<close> in all frames and identical coordinates across all frames yields exactly 0. In
  double precision the mean of equal numbers need not be that number. \<open>ens_tenth\<close> holds
  one atom with weight 1 at \<open>x = 0.1\<close> (the double nearest to it) in each of three frames:
  the sum \<open>0.1 + 0.1 + 0.1\<close> rounds to \<open>0.30000000000000004\<close>, the mean to
  \<open>0.10000000000000002\<close>, one unit in the last place above the coordinate, and the value
  returned is \<open>1 / 2 ^ 112\<close>, not 0.
\<close>

theorem getMSFs_identical_frames_double:
  "getMSFs round_double ens_tenth = Inr (Some [Fin (1 / 2 ^ 112)])"
  by (simp add: getMSFs_def ens_tenth_def msf_arrays_def mask_rows_def weightsum_def shape1_def
      row_at_def bcast2_def inplace_def embed_def vmask_def vadd_def vsub_def vsq_def vdiv_def
      vsum_def fzero3_def fsub_def rd0 rd1 rd2 rd3 rd4 rd5 rd6 rd7 rd8 Let_def)

text \<open>
  Claim C1, amended: for every well-formed ensemble with at least one frame (reference,
  frames and weights set, one weight row per frame, the selected indices in range),
  \<^verbatim>\<open>getMSFs\<close> returns one value per selected atom (per atom when there is no selection),
  and a weight acts only as an inclusion flag, \<open>weight > 0\<close>.
  \<^item> Under every rounding that keeps 0, an atom that no frame includes yields NaN; nothing
    is raised.
  \<^item> In exact arithmetic the value of an atom that some frame includes is the variance of
    its position over the including frames: the mean of the squared distances to the mean
    position, both means dividing by the number of including frames, not by the number of
    frames.
  \<^item> In exact arithmetic an atom included in every frame at one and the same position
    yields 0.
  \<^item> An ensemble \<open>e0\<close> that holds no frames yields \<^verbatim>\<open>None\<close>.
\<close>

theorem getMSFs_masked_variance:
  assumes wf: "well_formed e" and frames: "0 < self_n_csets e"
    and n: "n = length (restrict (self_indices e) (the (self_coords e)))"
  shows "(rnd 0 = 0 \<longrightarrow>
            (\<exists>r. getMSFs rnd e = Inr (Some r) \<and> length r = n \<and>
               (\<forall>k<n. included (atom_frames e k) = [] \<longrightarrow> r ! k = NaN))) \<and>
         (\<exists>r. getMSFs (\<lambda>x. x) e = Inr (Some r) \<and> length r = n \<and>
            (\<forall>k<n. r ! k =
               (if included (atom_frames e k) = [] then NaN
                else Fin (position_variance (included (atom_frames e k))))) \<and>
            (\<forall>k<n. \<forall>c. (\<forall>p\<in>set (atom_frames e k). p = (c, True)) \<longrightarrow> r ! k = Fin 0)) \<and>
         (self_confs e0 = None \<longrightarrow> getMSFs rnd e0 = Inr None)"
proof (intro conjI impI)
  assume r0: "rnd 0 = 0"
  let ?r = "map (\<lambda>k. atom_msf rnd (atom_frames e k)) [0..<n]"
  have "getMSFs rnd e = Inr (Some ?r)"
    unfolding n using wf frames by (rule getMSFs_atoms)
  moreover have "\<forall>k<n. included (atom_frames e k) = [] \<longrightarrow> ?r ! k = NaN"
    using r0 by (simp add: atom_msf_excluded)
  ultimately show "\<exists>r. getMSFs rnd e = Inr (Some r) \<and> length r = n \<and>
               (\<forall>k<n. included (atom_frames e k) = [] \<longrightarrow> r ! k = NaN)"
    by simp
next
  let ?r = "map (\<lambda>k. atom_msf (\<lambda>x. x) (atom_frames e k)) [0..<n]"
  have run: "getMSFs (\<lambda>x. x) e = Inr (Some ?r)"
    unfolding n using wf frames by (rule getMSFs_atoms)
  have var: "\<forall>k<n. ?r ! k =
               (if included (atom_frames e k) = [] then NaN
                else Fin (position_variance (included (atom_frames e k))))"
    by (simp add: atom_msf_exact)
  have ne: "atom_frames e k \<noteq> []" for k
    using frames by (simp add: atom_frames_def)
  have same: "?r ! k = Fin 0" if k: "k < n" and all: "\<forall>p\<in>set (atom_frames e k). p = (c, True)"
    for k c
  proof -
    have inc: "included (atom_frames e k) = map fst (atom_frames e k)"
    proof -
      have "filter snd (atom_frames e k) = atom_frames e k"
        using all by (auto simp: filter_id_conv)
      then show ?thesis by (simp add: included_def)
    qed
    then have "included (atom_frames e k) \<noteq> []" using ne by simp
    moreover have "\<forall>p\<in>set (included (atom_frames e k)). p = c"
      unfolding inc using all by auto
    ultimately have "position_variance (included (atom_frames e k)) = 0"
      by (rule position_variance_same)
    then show ?thesis using var k \<open>included (atom_frames e k) \<noteq> []\<close> by simp
  qed
  show "\<exists>r. getMSFs (\<lambda>x. x) e = Inr (Some r) \<and> length r = n \<and>
            (\<forall>k<n. r ! k =
               (if included (atom_frames e k) = [] then NaN
                else Fin (position_variance (included (atom_frames e k))))) \<and>
            (\<forall>k<n. \<forall>c. (\<forall>p\<in>set (atom_frames e k). p = (c, True)) \<longrightarrow> r ! k = Fin 0)"
    using run var same by (intro exI[of _ ?r]) simp
next
  assume "self_confs e0 = None"
  then show "getMSFs rnd e0 = Inr None" by (simp add: getMSFs_def)
qed

text \<open>
  The theorem at four ensembles. In \<open>ens_sel\<close> the selection is atoms 0 and 2; atom 0
  is included in the first frame only, atom 2 in both, at \<open>y = 1\<close> and \<open>y = 3\<close>, so the
  values are 0 and 1. In \<open>ens_two\<close> with the weights \<open>[[1, 0], [1, 0]]\<close> no frame includes
  atom 1, whose value is NaN in double precision. The three equal frames of \<open>ens_tenth\<close>
  give 0 in exact arithmetic, and the new ensemble \<open>ens_new\<close> gives \<^verbatim>\<open>None\<close>.
\<close>

theorem getMSFs_masked_variance_witness:
  "(\<exists>r. getMSFs (\<lambda>x. x) ens_sel = Inr (Some r) \<and> length r = 2 \<and> r ! 0 = Fin 0 \<and> r ! 1 = Fin 1) \<and>
   (\<exists>r. getMSFs round_double (ens_two\<lparr>self_weights := Some [[1, 0], [1, 0]]\<rparr>) = Inr (Some r) \<and>
      length r = 2 \<and> r ! 1 = NaN) \<and>
   (\<exists>r. getMSFs (\<lambda>x. x) ens_tenth = Inr (Some r) \<and> length r = 1 \<and> r ! 0 = Fin 0) \<and>
   getMSFs round_double ens_new = Inr None"
proof (intro conjI)
  have wf: "well_formed ens_sel" "0 < self_n_csets ens_sel"
    "2 = length (restrict (self_indices ens_sel) (the (self_coords ens_sel)))"
    by (simp_all add: well_formed_def ens_sel_def select_def)
  from getMSFs_masked_variance[OF wf, of "\<lambda>x. x"] obtain r where
    r: "getMSFs (\<lambda>x. x) ens_sel = Inr (Some r)" "length r = 2"
      "\<forall>k<2. r ! k =
               (if included (atom_frames ens_sel k) = [] then NaN
                else Fin (position_variance (included (atom_frames ens_sel k))))"
    by blast
  have f0: "included (atom_frames ens_sel 0) = [(0, 0, 0)]"
    and f1: "included (atom_frames ens_sel 1) = [(0, 1, 0), (0, 3, 0)]"
    by (simp_all add: atom_frames_def included_def ens_sel_def select_def upt_rec)
  have "r ! 0 = Fin 0" "r ! 1 = Fin 1"
    using r(3)[rule_format, of 0] r(3)[rule_format, of 1] unfolding f0 f1
    by (simp_all add: position_variance_def mean_position_def sq_dist_def)
  then show "\<exists>r. getMSFs (\<lambda>x. x) ens_sel = Inr (Some r) \<and> length r = 2 \<and>
      r ! 0 = Fin 0 \<and> r ! 1 = Fin 1"
    using r(1,2) by blast
next
  let ?E = "ens_two\<lparr>self_weights := Some [[1, 0], [1, 0]]\<rparr>"
  have wf: "well_formed ?E" "0 < self_n_csets ?E"
    "2 = length (restrict (self_indices ?E) (the (self_coords ?E)))"
    by (simp_all add: well_formed_def ens_two_def)
  from getMSFs_masked_variance[OF wf, of round_double] rd0 obtain r where
    r: "getMSFs round_double ?E = Inr (Some r)" "length r = 2"
      "\<forall>k<2. included (atom_frames ?E k) = [] \<longrightarrow> r ! k = NaN"
    by blast
  have "included (atom_frames ?E 1) = []"
    by (simp add: atom_frames_def included_def ens_two_def upt_rec)
  then have "r ! 1 = NaN" using r(3) by simp
  then show "\<exists>r. getMSFs round_double ?E = Inr (Some r) \<and> length r = 2 \<and> r ! 1 = NaN"
    using r(1,2) by blast
next
  have wf: "well_formed ens_tenth" "0 < self_n_csets ens_tenth"
    "1 = length (restrict (self_indices ens_tenth) (the (self_coords ens_tenth)))"
    by (simp_all add: well_formed_def ens_tenth_def)
  from getMSFs_masked_variance[OF wf, of "\<lambda>x. x"] obtain r where
    r: "getMSFs (\<lambda>x. x) ens_tenth = Inr (Some r)" "length r = 1"
      "\<forall>k<1. \<forall>c. (\<forall>p\<in>set (atom_frames ens_tenth k). p = (c, True)) \<longrightarrow> r ! k = Fin 0"
    by blast
  have "\<forall>p\<in>set (atom_frames ens_tenth 0).
          p = ((3602879701896397 / 36028797018963968, 0, 0), True)"
    by (simp add: atom_frames_def ens_tenth_def upt_rec)
  then have "r ! 0 = Fin 0" using r(3) by blast
  then show "\<exists>r. getMSFs (\<lambda>x. x) ens_tenth = Inr (Some r) \<and> length r = 1 \<and> r ! 0 = Fin 0"
    using r(1,2) by blast
next
  have "self_confs ens_new = None" by (simp add: ens_new_def)
  moreover have wf: "well_formed ens_tenth" "0 < self_n_csets ens_tenth"
    "1 = length (restrict (self_indices ens_tenth) (the (self_coords ens_tenth)))"
    by (simp_all add: well_formed_def ens_tenth_def)
  ultimately show "getMSFs round_double ens_new = Inr None"
    using getMSFs_masked_variance[OF wf, of round_double ens_new] by blast
qed
section \<open>Properties of \<^verbatim>\<open>__getitem__\<close>\<close>

subsection \<open>The arrays of the extracted ensemble\<close>

text \<open>
  For a slice and for an index list, the reference, the frames and the weights of the
  extracted ensemble get buffers that did not exist before (\<^verbatim>\<open>copy\<close> and \<^verbatim>\<open>.copy()\<close> in
  both branches); the store is extended, no buffer in it is written, and the selection
  indices are handed over by reference. With an index list the transformation history is a
  new array as well; with a slice it is a view on the history of the ensemble extracted from.
\<close>

lemma contents_append: "buffer a < length h \<Longrightarrow> contents (h @ ys) a = contents h a"
  by (simp add: contents_def nth_append)

lemma contents_set_row_other:
  "set_row h b i v = Inr h' \<Longrightarrow> buffer a \<noteq> buffer b \<Longrightarrow> contents h' a = contents h a"
  by (auto simp: set_row_def contents_def split: if_splits)

lemma store_arrays_fresh:
  assumes "store_arrays h e = (child, h1)"
  shows "(\<exists>ys. coords_heap h1 = coords_heap h @ ys) \<and>
         (\<exists>ys. confs_heap h1 = confs_heap h @ ys) \<and>
         (\<exists>ys. weights_heap h1 = weights_heap h @ ys) \<and>
         trans_heap h1 = trans_heap h \<and> indices_heap h1 = indices_heap h \<and>
         (\<forall>a. obj_coords child = Some a \<longrightarrow> buffer a = length (coords_heap h)) \<and>
         (\<forall>a. obj_confs child = Some a \<longrightarrow> buffer a = length (confs_heap h)) \<and>
         (\<forall>a. obj_weights child = Some a \<longrightarrow> buffer a = length (weights_heap h))"
  using assms
  by (auto simp: store_arrays_def new_array_def Let_def split: option.splits prod.splits)

lemma getitem_arrays:
  assumes "getitem h self index = Inr (SubEnsemble child, h')"
  shows "(\<exists>ys. coords_heap h' = coords_heap h @ ys) \<and>
         (\<exists>ys. confs_heap h' = confs_heap h @ ys) \<and>
         (\<exists>ys. weights_heap h' = weights_heap h @ ys) \<and>
         (\<exists>ys. trans_heap h' = trans_heap h @ ys) \<and>
         indices_heap h' = indices_heap h \<and>
         (\<forall>a. obj_coords child = Some a \<longrightarrow> buffer a = length (coords_heap h)) \<and>
         (\<forall>a. obj_confs child = Some a \<longrightarrow> buffer a = length (confs_heap h)) \<and>
         (\<forall>a. obj_weights child = Some a \<longrightarrow> buffer a = length (weights_heap h)) \<and>
         obj_indices child = obj_indices self"
proof (cases index)
  case (Index i)
  then show ?thesis using assms
    by (auto simp: getitem_def and_then_def Let_def split: sum.splits option.splits)
next
  case (Slice a b c)
  then show ?thesis using assms
    by (auto simp: getitem_def and_then_def Let_def Ensemble_setAtoms_def
        dest!: store_arrays_fresh split: sum.splits option.splits prod.splits)
next
  case (IndexList ix)
  then show ?thesis using assms
    by (auto simp: getitem_def and_then_def Let_def Ensemble_setAtoms_def new_array_def
        dest!: store_arrays_fresh split: sum.splits option.splits prod.splits)
next
  case Other
  then show ?thesis using assms
    by (auto simp: getitem_def and_then_def Let_def split: sum.splits option.splits)
qed

lemma getitem_trans_slice:
  assumes "getitem h self (Slice a b c) = Inr (SubEnsemble child, h')"
  shows "trans_heap h' = trans_heap h \<and>
         (case obj_trans self of
            None \<Rightarrow> obj_trans child = None
          | Some p \<Rightarrow> (\<exists>rs. slice_rows a b c (length (window p)) = Inr rs \<and>
                         obj_trans child = Some (view_rows p rs)))"
  using assms
  by (auto simp: getitem_def and_then_def Let_def Ensemble_setAtoms_def
      dest!: store_arrays_fresh split: sum.splits option.splits prod.splits)

lemma getitem_trans_list:
  assumes "getitem h self (IndexList ix) = Inr (SubEnsemble child, h')"
  shows "(\<forall>t. obj_trans child = Some t \<longrightarrow> buffer t = length (trans_heap h))"
  using assms
  by (auto simp: getitem_def and_then_def Let_def Ensemble_setAtoms_def new_array_def
      dest!: store_arrays_fresh split: sum.splits option.splits prod.splits)


subsection \<open>Writes that stay apart\<close>

text \<open>
  A write to a frame or a weight row of the extracted ensemble leaves the ensemble it was
  extracted from as it was, and the other way round; after extraction with an index list
  the same holds for the entries of the transformation history.
\<close>

lemma map_option_contents_other:
  assumes "set_row h b i v = Inr h'" and "\<forall>a. r = Some a \<longrightarrow> buffer a \<noteq> buffer b"
  shows "map_option (contents h') r = map_option (contents h) r"
  using assms by (cases r) (auto dest: contents_set_row_other)

lemma getitem_parent_unchanged:
  assumes al: "allocated h self" and run: "getitem h self index = Inr (SubEnsemble child, h')"
  shows "deref h' self = deref h self"
proof -
  from getitem_arrays[OF run] obtain y1 y2 y3 y4 where
    "coords_heap h' = coords_heap h @ y1" "confs_heap h' = confs_heap h @ y2"
    "weights_heap h' = weights_heap h @ y3" "trans_heap h' = trans_heap h @ y4"
    "indices_heap h' = indices_heap h"
    by blast
  then show ?thesis using al
    by (auto simp: deref_def allocated_def contents_append split: option.splits)
qed

lemma write_confs_child:
  assumes al: "allocated h self" and run: "getitem h self index = Inr (SubEnsemble child, h')"
    and wr: "write_confs h' child i v = Inr h2"
  shows "deref h2 self = deref h' self"
proof -
  from wr obtain a x where a: "obj_confs child = Some a"
    and x: "set_row (confs_heap h') a i v = Inr x" and h2: "h2 = h'\<lparr>confs_heap := x\<rparr>"
    by (auto simp: write_confs_def and_then_def split: option.splits sum.splits)
  from getitem_arrays[OF run] a have "buffer a = length (confs_heap h)" by blast
  then have "\<forall>p. obj_confs self = Some p \<longrightarrow> buffer p \<noteq> buffer a"
    using al by (auto simp: allocated_def split: option.splits)
  from map_option_contents_other[OF x this] show ?thesis
    by (simp add: deref_def h2)
qed

lemma write_weights_child:
  assumes al: "allocated h self" and run: "getitem h self index = Inr (SubEnsemble child, h')"
    and wr: "write_weights h' child i v = Inr h2"
  shows "deref h2 self = deref h' self"
proof -
  from wr obtain a x where a: "obj_weights child = Some a"
    and x: "set_row (weights_heap h') a i v = Inr x" and h2: "h2 = h'\<lparr>weights_heap := x\<rparr>"
    by (auto simp: write_weights_def and_then_def split: option.splits sum.splits)
  from getitem_arrays[OF run] a have "buffer a = length (weights_heap h)" by blast
  then have "\<forall>p. obj_weights self = Some p \<longrightarrow> buffer p \<noteq> buffer a"
    using al by (auto simp: allocated_def split: option.splits)
  from map_option_contents_other[OF x this] show ?thesis
    by (simp add: deref_def h2)
qed

lemma write_confs_parent:
  assumes al: "allocated h self" and run: "getitem h self index = Inr (SubEnsemble child, h')"
    and wr: "write_confs h' self i v = Inr h2"
  shows "deref h2 child = deref h' child"
proof -
  from wr obtain p x where p: "obj_confs self = Some p"
    and x: "set_row (confs_heap h') p i v = Inr x" and h2: "h2 = h'\<lparr>confs_heap := x\<rparr>"
    by (auto simp: write_confs_def and_then_def split: option.splits sum.splits)
  from al p have "buffer p < length (confs_heap h)" by (simp add: allocated_def)
  then have "\<forall>a. obj_confs child = Some a \<longrightarrow> buffer a \<noteq> buffer p"
    using getitem_arrays[OF run] by auto
  from map_option_contents_other[OF x this] show ?thesis
    by (simp add: deref_def h2)
qed

lemma write_weights_parent:
  assumes al: "allocated h self" and run: "getitem h self index = Inr (SubEnsemble child, h')"
    and wr: "write_weights h' self i v = Inr h2"
  shows "deref h2 child = deref h' child"
proof -
  from wr obtain p x where p: "obj_weights self = Some p"
    and x: "set_row (weights_heap h') p i v = Inr x" and h2: "h2 = h'\<lparr>weights_heap := x\<rparr>"
    by (auto simp: write_weights_def and_then_def split: option.splits sum.splits)
  from al p have "buffer p < length (weights_heap h)" by (simp add: allocated_def)
  then have "\<forall>a. obj_weights child = Some a \<longrightarrow> buffer a \<noteq> buffer p"
    using getitem_arrays[OF run] by auto
  from map_option_contents_other[OF x this] show ?thesis
    by (simp add: deref_def h2)
qed

lemma write_trans_list_child:
  assumes al: "allocated h self"
    and run: "getitem h self (IndexList ix) = Inr (SubEnsemble child, h')"
    and wr: "write_trans h' child i v = Inr h2"
  shows "deref h2 self = deref h' self"
proof -
  from wr obtain a x where a: "obj_trans child = Some a"
    and x: "set_row (trans_heap h') a i v = Inr x" and h2: "h2 = h'\<lparr>trans_heap := x\<rparr>"
    by (auto simp: write_trans_def and_then_def split: option.splits sum.splits)
  from getitem_trans_list[OF run] a have "buffer a = length (trans_heap h)" by blast
  then have "\<forall>p. obj_trans self = Some p \<longrightarrow> buffer p \<noteq> buffer a"
    using al by (auto simp: allocated_def split: option.splits)
  from map_option_contents_other[OF x this] show ?thesis
    by (simp add: deref_def h2)
qed

lemma write_trans_list_parent:
  assumes al: "allocated h self"
    and run: "getitem h self (IndexList ix) = Inr (SubEnsemble child, h')"
    and wr: "write_trans h' self i v = Inr h2"
  shows "deref h2 child = deref h' child"
proof -
  from wr obtain p x where p: "obj_trans self = Some p"
    and x: "set_row (trans_heap h') p i v = Inr x" and h2: "h2 = h'\<lparr>trans_heap := x\<rparr>"
    by (auto simp: write_trans_def and_then_def split: option.splits sum.splits)
  from al p have "buffer p < length (trans_heap h)" by (simp add: allocated_def)
  then have "\<forall>a. obj_trans child = Some a \<longrightarrow> buffer a \<noteq> buffer p"
    using getitem_trans_list[OF run] by auto
  from map_option_contents_other[OF x this] show ?thesis
    by (simp add: deref_def h2)
qed

subsection \<open>The transformation history of a slice\<close>

text \<open>
  Claim C8: extracting a sub-ensemble with a slice or an index list gives an independent
  ensemble, with no aliasing of the parent's backing arrays, so that mutating the child's
  coordinates, weights or transform history leaves the parent unchanged, and the other way
  round. In the slice branch \<^verbatim>\<open>ens._trans = self._trans[index]\<close> is a view.
  \<open>obj_two\<close> holds two frames and the history \<open>[mat_diag 1, mat_diag 2]\<close>; \<^verbatim>\<open>obj_two[:]\<close>
  succeeds and gives a child with the same history. Writing entry 0 of the child's
  history changes entry 0 of the parent's, and writing entry 1 of the parent's changes
  entry 1 of the child's.
\<close>

theorem getitem_slice_shares_trans:
  "\<exists>child h1 h2 h3.
     getitem store_two obj_two (Slice None None None) = Inr (SubEnsemble child, h1) \<and>
     self_trans (deref h1 obj_two) = Some [mat_diag 1, mat_diag 2] \<and>
     self_trans (deref h1 child) = Some [mat_diag 1, mat_diag 2] \<and>
     write_trans h1 child 0 (mat_diag 3) = Inr h2 \<and>
     self_trans (deref h2 obj_two) = Some [mat_diag 3, mat_diag 2] \<and>
     write_trans h1 obj_two 1 (mat_diag 5) = Inr h3 \<and>
     self_trans (deref h3 child) = Some [mat_diag 1, mat_diag 5]"
  by (simp add: getitem_def and_then_def Let_def deref_def store_two_def obj_two_def
      slice_indices_def numConfs_def py_slice_def slice_rows_def range_rows_def
      new_ensemble_def Ensemble_setCoords_def PDBEnsemble_init_def addCoordset_def
      numAtoms_def numSelected_def numCoordsets_def label_or_unknown_def checkCoords_def
      checkWeights_def resolve_seqs_def make_labels_def update_msa_def update_coordinates_def
      store_arrays_def new_array_def contents_def view_rows_def Ensemble_setAtoms_def
      write_trans_def set_row_def shape1_def upt_rec)
end
